(* ===== verification/Prelude.thy ===== *)
theory Prelude
  imports Main "HOL-Library.Word" "HOL-Library.AList" "HOL-Library.Multiset"
begin

unbundle bit_operations_syntax

text \<open>
  Shared vocabulary of the development: bytes, Go maps as association lists, the order in which
  a Go \<open>range\<close> over a map visits its keys, big-endian integers as \<^verbatim>\<open>encoding/binary\<close> reads and
  writes them, and the conversion between Go strings and byte slices. The lemmas that the
  component theories share are collected in \<open>gomap_simps\<close> (maps) and \<open>bytes_simps\<close>
  (byte strings).
\<close>

named_theorems gomap_simps \<open>facts about Go maps\<close>
named_theorems bytes_simps \<open>facts about byte strings and big-endian numbers\<close>

section \<open>Bytes and strings\<close>

text \<open>
  A Go string is a sequence of bytes. The theories use \<^typ>\<open>string\<close> where the code handles
  text (one \<^typ>\<open>char\<close> per byte) and \<open>byte list\<close> where it handles \<^verbatim>\<open>[]byte\<close>; the two
  conversions \<^verbatim>\<open>[]byte(s)\<close> and \<^verbatim>\<open>string(b)\<close> lose nothing.
\<close>

type_synonym byte = "8 word"

definition bytes_of :: "string \<Rightarrow> byte list" where
  "bytes_of s = map (\<lambda>c. of_nat (of_char c)) s"

definition string_of :: "byte list \<Rightarrow> string" where
  "string_of bs = map (\<lambda>b. char_of (unat b)) bs"

lemma unat_byte_less [bytes_simps]: "unat (b :: byte) < 256"
  using unsigned_less [of b, where ?'a = nat] by simp

lemma string_of_bytes_of [simp]: "string_of (bytes_of s) = s"
proof -
  have "char_of (unat (of_nat (of_char c) :: byte)) = c" for c
    by (simp add: unat_of_nat)
  then show ?thesis by (simp add: string_of_def bytes_of_def o_def)
qed

lemma bytes_of_string_of [simp]: "bytes_of (string_of bs) = bs"
proof -
  have "of_nat (of_char (char_of (unat b))) = b" for b :: byte
    by (simp add: unat_byte_less)
  then show ?thesis by (simp add: string_of_def bytes_of_def o_def)
qed

lemma length_bytes_of [simp]: "length (bytes_of s) = length s"
  by (simp add: bytes_of_def)

lemma length_string_of [simp]: "length (string_of bs) = length bs"
  by (simp add: string_of_def)

lemma bytes_of_eq_iff [simp]: "bytes_of s = bytes_of t \<longleftrightarrow> s = t"
  by (metis string_of_bytes_of)

lemma string_of_eq_iff [simp]: "string_of s = string_of t \<longleftrightarrow> s = t"
  by (metis bytes_of_string_of)

lemma bytes_of_append [simp]: "bytes_of (s @ t) = bytes_of s @ bytes_of t"
  by (simp add: bytes_of_def)

lemma string_of_append [simp]: "string_of (s @ t) = string_of s @ string_of t"
  by (simp add: string_of_def)

lemma string_of_Nil_iff [simp]: "string_of bs = [] \<longleftrightarrow> bs = []"
  by (simp add: string_of_def)

lemma bytes_of_Nil_iff [simp]: "bytes_of s = [] \<longleftrightarrow> s = []"
  by (simp add: bytes_of_def)

section \<open>Big-endian numbers\<close>

text \<open>
  \<open>be_put n x\<close> is the \<open>n\<close> bytes that \<^verbatim>\<open>binary.BigEndian.PutUint16\<close> (\<open>n = 2\<close>) and
  \<^verbatim>\<open>PutUint64\<close> (\<open>n = 8\<close>) write for \<open>x\<close>, most significant byte first; bits of \<open>x\<close> above
  \<open>8 n\<close> are cut off, as the conversion to the unsigned type does. \<open>be_get\<close> is \<^verbatim>\<open>Uint16\<close> and
  \<^verbatim>\<open>Uint64\<close>.
\<close>

fun be_put :: "nat \<Rightarrow> nat \<Rightarrow> byte list" where
  "be_put 0 x = []"
| "be_put (Suc n) x = be_put n (x div 256) @ [of_nat x]"

definition be_get :: "byte list \<Rightarrow> nat" where
  "be_get bs = foldl (\<lambda>acc b. acc * 256 + unat b) 0 bs"

lemma length_be_put [simp]: "length (be_put n x) = n"
  by (induction n arbitrary: x) auto

lemma be_get_snoc: "be_get (bs @ [b]) = be_get bs * 256 + unat b"
  by (simp add: be_get_def)

lemma be_get_put [bytes_simps]: "be_get (be_put n x) = x mod 256 ^ n"
proof (induction n arbitrary: x)
  case 0
  then show ?case by (simp add: be_get_def)
next
  case (Suc n)
  have "x mod 256 ^ Suc n = (x div 256) mod 256 ^ n * 256 + x mod 256"
    by (simp add: mod_mult2_eq)
  moreover have "unat (of_nat x :: byte) = x mod 256"
    by (simp add: unat_of_nat)
  ultimately show ?case using Suc.IH by (simp add: be_get_snoc)
qed

lemma be_get_less: "be_get bs < 256 ^ length bs"
proof (induction bs rule: rev_induct)
  case Nil
  then show ?case by (simp add: be_get_def)
next
  case (snoc b bs)
  have "unat b < 256" by (rule unat_byte_less)
  with snoc show ?case by (simp add: be_get_snoc)
qed

section \<open>Outcomes\<close>

text \<open>A call that comes back either returned a value or panicked.\<close>

datatype 'a outcome = Panicked | Returned 'a

section \<open>Go maps\<close>

text \<open>
  A Go map is an association list with distinct keys. \<open>m_put\<close> is \<^verbatim>\<open>m[k] = v\<close>, \<open>m_del\<close> is
  \<^verbatim>\<open>delete(m, k)\<close>, \<^const>\<open>map_of\<close> is the two-valued lookup \<^verbatim>\<open>v, ok := m[k]\<close>, and the length
  of the list is \<^verbatim>\<open>len(m)\<close>. The order of the list is not visible to a lookup; it would be
  visible to a \<open>range\<close> loop, whose order Go leaves open. Every loop over a map is therefore
  modelled with an argument \<open>ord\<close>, a function that permutes the keys (\<open>perm_fn\<close>), so that a
  theorem about the loop holds for every order the runtime may choose.
\<close>

type_synonym ('k, 'v) gomap = "('k \<times> 'v) list"

abbreviation m_put :: "'k \<Rightarrow> 'v \<Rightarrow> ('k, 'v) gomap \<Rightarrow> ('k, 'v) gomap" where
  "m_put \<equiv> AList.update"

abbreviation m_del :: "'k \<Rightarrow> ('k, 'v) gomap \<Rightarrow> ('k, 'v) gomap" where
  "m_del \<equiv> AList.delete"

abbreviation m_keys :: "('k, 'v) gomap \<Rightarrow> 'k list" where
  "m_keys m \<equiv> map fst m"

definition m_wf :: "('k, 'v) gomap \<Rightarrow> bool" where
  "m_wf m \<longleftrightarrow> distinct (m_keys m)"

definition m_has :: "('k, 'v) gomap \<Rightarrow> 'k \<Rightarrow> bool" where
  "m_has m k \<longleftrightarrow> map_of m k \<noteq> None"

definition perm_fn :: "('k list \<Rightarrow> 'k list) \<Rightarrow> bool" where
  "perm_fn ord \<longleftrightarrow> (\<forall>xs. mset (ord xs) = mset xs)"

lemma m_wf_Nil [simp]: "m_wf []"
  by (simp add: m_wf_def)

lemma m_wf_put [simp]: "m_wf m \<Longrightarrow> m_wf (m_put k v m)"
  by (simp add: m_wf_def distinct_update)

lemma m_wf_del [simp]: "m_wf m \<Longrightarrow> m_wf (m_del k m)"
  by (simp add: m_wf_def distinct_delete)

lemma map_of_put [gomap_simps]: "map_of (m_put k v m) = (map_of m)(k \<mapsto> v)"
  by (simp add: update_conv')

lemma map_of_del [gomap_simps]: "map_of (m_del k m) = (map_of m)(k := None)"
  by (simp add: delete_conv')

lemma m_has_put [gomap_simps]: "m_has (m_put k v m) k' \<longleftrightarrow> k' = k \<or> m_has m k'"
  by (simp add: m_has_def map_of_put)

lemma m_has_del [gomap_simps]: "m_has (m_del k m) k' \<longleftrightarrow> k' \<noteq> k \<and> m_has m k'"
  by (simp add: m_has_def map_of_del)

lemma m_has_Nil [simp]: "\<not> m_has [] k"
  by (simp add: m_has_def)

lemma m_has_Cons [simp]: "m_has ((a, b) # m) k \<longleftrightarrow> k = a \<or> m_has m k"
  by (auto simp: m_has_def)

lemma m_has_iff_keys: "m_has m k \<longleftrightarrow> k \<in> set (m_keys m)"
  by (auto simp: m_has_def map_of_eq_None_iff)

lemma m_empty_iff: "m = [] \<longleftrightarrow> (\<forall>k. \<not> m_has m k)"
  by (cases m) (auto simp: m_has_iff_keys)

lemma m_put_nonempty [simp]: "m_put k v m \<noteq> []"
  by (cases m) auto

lemma perm_fn_id [simp]: "perm_fn id" "perm_fn (\<lambda>xs. xs)"
  by (simp_all add: perm_fn_def)

lemma perm_fn_rev [simp]: "perm_fn rev"
  by (simp add: perm_fn_def)

lemma perm_fn_mset: "perm_fn ord \<Longrightarrow> mset (ord xs) = mset xs"
  by (simp add: perm_fn_def)

lemma perm_fn_set: "perm_fn ord \<Longrightarrow> set (ord xs) = set xs"
  by (metis perm_fn_mset set_mset_mset)

lemma perm_fn_distinct: "perm_fn ord \<Longrightarrow> distinct (ord xs) = distinct xs"
  by (metis perm_fn_mset mset_eq_imp_distinct_iff)

lemma perm_fn_length: "perm_fn ord \<Longrightarrow> length (ord xs) = length xs"
  by (metis perm_fn_mset size_mset)

end
