(* ===== verification/GoStrings.thy ===== *)
theory GoStrings
  imports Prelude
begin

text \<open>
  The part of Go's \<^verbatim>\<open>strings\<close> and \<^verbatim>\<open>encoding/base64\<close> that the program uses, as executable
  functions on \<^typ>\<open>string\<close>: prefixes and suffixes, \<^verbatim>\<open>Contains\<close>, \<^verbatim>\<open>ToLower\<close> and \<^verbatim>\<open>TrimSpace\<close> (on
  ASCII), \<^verbatim>\<open>Split\<close>, \<^verbatim>\<open>Cut\<close> and \<^verbatim>\<open>Join\<close>, and the standard base64 alphabet with padding. The
  lemmas give what the clients need: splitting a joined list gives the list back, base64
  decoding inverts encoding.
\<close>

section \<open>Strings\<close>

definition hasPrefix :: "string \<Rightarrow> string \<Rightarrow> bool" where
  "hasPrefix s p \<longleftrightarrow> take (length p) s = p"

definition hasSuffix :: "string \<Rightarrow> string \<Rightarrow> bool" where
  "hasSuffix s p \<longleftrightarrow> length p \<le> length s \<and> drop (length s - length p) s = p"

definition trimPrefix :: "string \<Rightarrow> string \<Rightarrow> string" where
  "trimPrefix s p = (if hasPrefix s p then drop (length p) s else s)"

definition trimSuffix :: "string \<Rightarrow> string \<Rightarrow> string" where
  "trimSuffix s p = (if hasSuffix s p then take (length s - length p) s else s)"

fun containsStr :: "string \<Rightarrow> string \<Rightarrow> bool" where
  "containsStr [] p = (p = [])"
| "containsStr (c # s) p = (hasPrefix (c # s) p \<or> containsStr s p)"

definition code_of :: "char \<Rightarrow> nat" where
  "code_of c = of_char c"

definition lowerChar :: "char \<Rightarrow> char" where
  "lowerChar c = (if 65 \<le> code_of c \<and> code_of c \<le> 90 then char_of (code_of c + 32) else c)"

definition upperChar :: "char \<Rightarrow> char" where
  "upperChar c = (if 97 \<le> code_of c \<and> code_of c \<le> 122 then char_of (code_of c - 32) else c)"

definition toLower :: "string \<Rightarrow> string" where
  "toLower s = map lowerChar s"

definition isSpace :: "char \<Rightarrow> bool" where
  "isSpace c \<longleftrightarrow> code_of c \<in> {9, 10, 11, 12, 13, 32}"

definition trimSpace :: "string \<Rightarrow> string" where
  "trimSpace s = rev (dropWhile isSpace (rev (dropWhile isSpace s)))"

text \<open>\<^verbatim>\<open>strings.Split\<close> and \<^verbatim>\<open>strings.Cut\<close> for a separator of one byte.\<close>

fun splitOn :: "char \<Rightarrow> string \<Rightarrow> string list" where
  "splitOn sep [] = [[]]"
| "splitOn sep (c # s) =
     (if c = sep then [] # splitOn sep s
      else case splitOn sep s of [] \<Rightarrow> [[c]] | w # ws \<Rightarrow> (c # w) # ws)"

fun cutAt :: "char \<Rightarrow> string \<Rightarrow> (string \<times> string) option" where
  "cutAt sep [] = None"
| "cutAt sep (c # s) =
     (if c = sep then Some ([], s) else map_option (\<lambda>(a, b). (c # a, b)) (cutAt sep s))"

fun joinWith :: "string \<Rightarrow> string list \<Rightarrow> string" where
  "joinWith sep [] = []"
| "joinWith sep [w] = w"
| "joinWith sep (w # v # ws) = w @ sep @ joinWith sep (v # ws)"

lemma hasPrefix_append [simp]: "hasPrefix (p @ s) p"
  by (simp add: hasPrefix_def)

lemma hasSuffix_append [simp]: "hasSuffix (s @ p) p"
  by (simp add: hasSuffix_def)

lemma trimPrefix_append [simp]: "trimPrefix (p @ s) p = s"
  by (simp add: trimPrefix_def)

lemma trimSuffix_append [simp]: "trimSuffix (s @ p) p = s"
  by (simp add: trimSuffix_def)

lemma hasPrefix_iff: "hasPrefix s p \<longleftrightarrow> (\<exists>t. s = p @ t)"
  by (metis append_take_drop_id hasPrefix_def append_eq_conv_conj)

lemma splitOn_neq_Nil [simp]: "splitOn sep s \<noteq> []"
  by (induction s) (auto split: list.split)

lemma splitOn_none: "sep \<notin> set s \<Longrightarrow> splitOn sep s = [s]"
  by (induction s) auto

lemma splitOn_append: "sep \<notin> set s \<Longrightarrow> splitOn sep (s @ sep # t) = s # splitOn sep t"
  by (induction s) auto

lemma cutAt_append: "sep \<notin> set s \<Longrightarrow> cutAt sep (s @ sep # t) = Some (s, t)"
  by (induction s) auto

lemma cutAt_Some: "cutAt sep s = Some (a, b) \<Longrightarrow> s = a @ sep # b \<and> sep \<notin> set a"
  by (induction s arbitrary: a b) (auto split: if_splits)

lemma trimSpace_id:
  assumes "s = [] \<or> \<not> isSpace (hd s) \<and> \<not> isSpace (last s)"
  shows "trimSpace s = s"
proof (cases s)
  case (Cons c t)
  with assms have "dropWhile isSpace s = s" by simp
  moreover from Cons assms have "dropWhile isSpace (rev s) = rev s"
    by (cases "rev s") (auto simp: last_conv_nth hd_conv_nth rev_nth hd_rev [symmetric])
  ultimately show ?thesis by (simp add: trimSpace_def)
qed (simp add: trimSpace_def)

lemma trimSpace_blank: "trimSpace (CHR '' '' # s) = trimSpace s"
  by (simp add: trimSpace_def isSpace_def code_of_def)

lemma splitOn_join:
  assumes "ws \<noteq> []" and "\<forall>w \<in> set ws. CHR '','' \<notin> set w"
  shows "splitOn CHR '','' (joinWith '', '' ws) = hd ws # map (\<lambda>w. CHR '' '' # w) (tl ws)"
  using assms
proof (induction "'', ''" ws rule: joinWith.induct)
  case (3 w v ws)
  have "splitOn CHR '','' (CHR '' '' # joinWith '', '' (v # ws)) =
      (case splitOn CHR '','' (joinWith '', '' (v # ws)) of [] \<Rightarrow> [[CHR '' '']] | a # b \<Rightarrow> (CHR '' '' # a) # b)"
    by simp
  with 3 show ?case by (simp add: splitOn_append)
qed (simp_all add: splitOn_none)

section \<open>Base64\<close>

definition b64_alphabet :: string where
  "b64_alphabet = ''ABCDEFGHIJKLMNOPQRSTUVWXYZabcdefghijklmnopqrstuvwxyz0123456789+/''"

definition b64_chr :: "nat \<Rightarrow> char" where
  "b64_chr n = b64_alphabet ! n"

definition b64_val :: "char \<Rightarrow> nat option" where
  "b64_val c = (let n = code_of c in
     if 65 \<le> n \<and> n \<le> 90 then Some (n - 65)
     else if 97 \<le> n \<and> n \<le> 122 then Some (n - 71)
     else if 48 \<le> n \<and> n \<le> 57 then Some (n + 4)
     else if n = 43 then Some 62 else if n = 47 then Some 63 else None)"

fun b64_encode :: "byte list \<Rightarrow> string" where
  "b64_encode [] = []"
| "b64_encode [a] =
     [b64_chr (unat a div 4), b64_chr (unat a mod 4 * 16), CHR ''='', CHR ''='']"
| "b64_encode [a, b] =
     [b64_chr (unat a div 4), b64_chr (unat a mod 4 * 16 + unat b div 16),
      b64_chr (unat b mod 16 * 4), CHR ''='']"
| "b64_encode (a # b # c # r) =
     [b64_chr (unat a div 4), b64_chr (unat a mod 4 * 16 + unat b div 16),
      b64_chr (unat b mod 16 * 4 + unat c div 64), b64_chr (unat c mod 64)] @ b64_encode r"

text \<open>\<^verbatim>\<open>DecodeString\<close>: line ends are skipped, then groups of four; padding ends the input.\<close>

fun b64_groups :: "string \<Rightarrow> byte list option" where
  "b64_groups [] = Some []"
| "b64_groups (p # q # r # s # t) =
     (case (b64_val p, b64_val q) of
        (Some w, Some x) \<Rightarrow>
          if r = CHR ''='' then
            if s = CHR ''='' \<and> t = [] then Some [of_nat (w * 4 + x div 16)] else None
          else (case b64_val r of
              None \<Rightarrow> None
            | Some y \<Rightarrow>
                if s = CHR ''='' then
                  if t = [] then Some [of_nat (w * 4 + x div 16), of_nat (x * 16 + y div 4)] else None
                else (case b64_val s of
                    None \<Rightarrow> None
                  | Some z \<Rightarrow> map_option (\<lambda>bs. [of_nat (w * 4 + x div 16), of_nat (x * 16 + y div 4),
                        of_nat (y * 64 + z)] @ bs) (b64_groups t)))
      | _ \<Rightarrow> None)"
| "b64_groups _ = None"

definition b64_decode :: "string \<Rightarrow> byte list option" where
  "b64_decode s = b64_groups (filter (\<lambda>c. code_of c \<noteq> 10 \<and> code_of c \<noteq> 13) s)"

text \<open>A character that a header value may contain: visible, and no comma or colon.\<close>

definition plain_char :: "char \<Rightarrow> bool" where
  "plain_char c \<longleftrightarrow> code_of c > 32 \<and> code_of c \<noteq> 44 \<and> code_of c \<noteq> 58"

lemma b64_table:
  "list_all (\<lambda>n. b64_val (b64_chr n) = Some n \<and> b64_chr n \<noteq> CHR ''='' \<and> plain_char (b64_chr n)) [0..<64]"
  by (simp add: upt_conv_Cons b64_chr_def b64_alphabet_def b64_val_def plain_char_def code_of_def)

lemma b64_chr:
  assumes "n < 64"
  shows "b64_val (b64_chr n) = Some n" "b64_chr n \<noteq> CHR ''=''" "plain_char (b64_chr n)"
  using b64_table assms by (auto simp: list_all_iff)

lemma plain_equals: "plain_char CHR ''=''"
  by (simp add: plain_char_def code_of_def)

lemma byte_eqI: "n mod 256 = unat a \<Longrightarrow> of_nat n = (a :: byte)"
  by (rule word_unat_eq_iff [THEN iffD2]) (simp add: unat_of_nat)

text \<open>The four digits of a group are below 64.\<close>

lemma sextets [simp]:
  "unat (a :: byte) div 4 < 64" "unat a mod 4 * 16 < 64" "unat a mod 4 * 16 + unat (b :: byte) div 16 < 64"
  "unat b mod 16 * 4 < 64" "unat b mod 16 * 4 + unat (c :: byte) div 64 < 64" "unat c mod 64 < 64"
  using unat_byte_less [of a] unat_byte_less [of b] unat_byte_less [of c] by auto

lemma b64_encode_plain: "list_all plain_char (b64_encode bs)"
  by (induction bs rule: b64_encode.induct) (simp_all add: b64_chr plain_equals)

lemma sextet_bytes:
  "of_nat (unat a + unat (b :: byte) div 16 div 16) = (a :: byte)"
  "of_nat (unat b + (256 * x + unat (c :: byte) div 64 div 4)) = (b :: byte)"
  "of_nat (unat c + 256 * x) = (c :: byte)"
proof -
  have small: "unat b div 16 div 16 = 0" "unat c div 64 div 4 = 0"
    using unat_byte_less [of b] unat_byte_less [of c] by auto
  show "of_nat (unat a + unat b div 16 div 16) = a" unfolding small by simp
  show "of_nat (unat b + (256 * x + unat c div 64 div 4)) = b" "of_nat (unat c + 256 * x) = c"
    unfolding small by (intro byte_eqI; simp add: unat_byte_less)+
qed

lemma b64_groups_encode: "b64_groups (b64_encode bs) = Some bs"
  by (induction bs rule: b64_encode.induct)
    (simp_all add: b64_chr sextet_bytes del: of_nat_add of_nat_mult)

lemma b64_decode_encode [simp]: "b64_decode (b64_encode bs) = Some bs"
proof -
  have "filter (\<lambda>c. code_of c \<noteq> 10 \<and> code_of c \<noteq> 13) (b64_encode bs) = b64_encode bs"
    using b64_encode_plain [of bs] by (auto simp: filter_id_conv list_all_iff plain_char_def)
  then show ?thesis by (simp add: b64_decode_def b64_groups_encode)
qed

end
