(* ===== verification/WsTypes.thy ===== *)
theory WsTypes
  imports Prelude
begin

text \<open>
  Data of \<^verbatim>\<open>websocket/websocket.go\<close>: the constants of RFC 6455 as the code names them, the error
  values, frames, the part of the configuration that decides behaviour, the connection state,
  and the two ends of the transport (a buffered reader over the bytes still to come, a writer
  that appends to the bytes sent).
\<close>

section \<open>Constants and errors\<close>

definition OpcodeContinuation :: byte where "OpcodeContinuation = 0x0"
definition OpcodeText :: byte where "OpcodeText = 0x1"
definition OpcodeBinary :: byte where "OpcodeBinary = 0x2"
definition OpcodeClose :: byte where "OpcodeClose = 0x8"
definition OpcodePing :: byte where "OpcodePing = 0x9"
definition OpcodePong :: byte where "OpcodePong = 0xA"

definition FlagFIN :: byte where "FlagFIN = 0x80"
definition FlagRSV1 :: byte where "FlagRSV1 = 0x40"
definition FlagRSV2 :: byte where "FlagRSV2 = 0x20"
definition FlagRSV3 :: byte where "FlagRSV3 = 0x10"
definition FlagMask :: byte where "FlagMask = 0x80"

definition MaxPayload7Bit :: nat where "MaxPayload7Bit = 125"
definition MaxPayload16Bit :: nat where "MaxPayload16Bit = 65535"

lemmas opcode_defs = OpcodeContinuation_def OpcodeText_def OpcodeBinary_def
  OpcodeClose_def OpcodePing_def OpcodePong_def

lemmas flag_defs = FlagFIN_def FlagRSV1_def FlagRSV2_def FlagRSV3_def FlagMask_def

text \<open>\<^verbatim>\<open>MessageType\<close> and \<^verbatim>\<open>CloseCode\<close> are Go \<^verbatim>\<open>int\<close>s with named constants.\<close>

type_synonym MessageType = int
type_synonym CloseCode = int

definition TextMessage :: MessageType where "TextMessage = 1"
definition BinaryMessage :: MessageType where "BinaryMessage = 2"
definition CloseMessage :: MessageType where "CloseMessage = 8"
definition PingMessage :: MessageType where "PingMessage = 9"
definition PongMessage :: MessageType where "PongMessage = 10"

lemmas message_type_defs = TextMessage_def BinaryMessage_def CloseMessage_def
  PingMessage_def PongMessage_def

definition CloseNormalClosure :: CloseCode where "CloseNormalClosure = 1000"
definition CloseGoingAway :: CloseCode where "CloseGoingAway = 1001"

text \<open>
  Errors of the transport (\<^verbatim>\<open>io.EOF\<close>, \<^verbatim>\<open>io.ErrUnexpectedEOF\<close>, anything the network reports) and
  the package's own error variables.
\<close>

datatype io_error = EOF | UnexpectedEOF | NetErr string

datatype ws_error =
    ErrConnectionClosed
  | ErrInvalidFrame
  | ErrMessageTooLarge
  | ErrInvalidOpcode
  | ErrInvalidHandshake
  | ErrOriginNotAllowed
  | ErrSubprotocolMismatch
  | ErrCompressionUnsupported
  | ErrFragmentedInProgress
  | ErrText string
  | ErrIO io_error

section \<open>Frames, configuration, connections\<close>

record Frame =
  FIN :: bool
  RSV1 :: bool
  RSV2 :: bool
  RSV3 :: bool
  Opcode :: byte
  Masked :: bool
  Payload :: "byte list"

record Config =
  HandshakeTimeout :: int
  MaxMessageSize :: int
  MaxFrameSize :: int
  PingInterval :: int
  PongTimeout :: int
  EnablePingPong :: bool
  EnableCompression :: bool
  Subprotocols :: "string list"

text \<open>\<^verbatim>\<open>DefaultConfig\<close>; durations are nanoseconds, as \<^verbatim>\<open>time.Duration\<close> counts them.\<close>

definition DefaultConfig :: Config where
  "DefaultConfig = \<lparr>HandshakeTimeout = 45 * 1000000000, MaxMessageSize = 1024 * 1024,
     MaxFrameSize = 1024 * 1024, PingInterval = 30 * 1000000000,
     PongTimeout = 10 * 1000000000, EnablePingPong = True, EnableCompression = False,
     Subprotocols = []\<rparr>"

text \<open>
  The connection. \<open>sent\<close> holds the bytes that \<^verbatim>\<open>writer.Flush\<close> handed to the network, \<open>werr\<close> the
  error every further write returns once the transport has failed or was closed
  (\<^verbatim>\<open>bufio.Writer\<close> keeps its first error), \<open>nclose\<close> the error that \<^verbatim>\<open>net.Conn.Close\<close> will
  report, \<open>rnd\<close> the bytes that \<^verbatim>\<open>crypto/rand\<close> will deliver, \<open>pongCh\<close> the number of signals
  waiting in the one-slot channel of that name. The ticker and the timer are nil, stopped or
  running, \<^verbatim>\<open>keepAliveStopCh\<close> is nil, open or closed, \<open>keepAlive\<close> is where the keep-alive goroutine
  is (in its outer \<^verbatim>\<open>select\<close> or in the inner one that waits for a pong). The record is
  extensible: an application adds its own state behind \<open>more\<close>.
\<close>

datatype goroutine = NotStarted | Idle | Waiting | Ended

record conn =
  config :: Config
  isServer :: bool
  isClient :: bool
  closed :: bool
  closeReason :: CloseCode
  closeText :: string
  compressionEnabled :: bool
  negotiatedExtensions :: "(string, string) gomap"
  negotiatedSubprotocol :: string
  fragmentedWriteInProgress :: bool
  pongCh :: nat
  pingTicker :: "bool option"
  pongTimer :: "bool option"
  keepAliveStopCh :: "bool option"
  ctxDone :: bool
  keepAlive :: goroutine
  sent :: "byte list"
  werr :: "io_error option"
  nclose :: "io_error option"
  rnd :: "nat \<Rightarrow> byte"

definition randRead :: "nat \<Rightarrow> 'a conn_scheme \<Rightarrow> byte list \<times> 'a conn_scheme" where
  "randRead n c = (map (rnd c) [0..<n], c\<lparr>rnd := \<lambda>i. rnd c (i + n)\<rparr>)"

lemma length_randRead [simp]: "length (fst (randRead n c)) = n"
  by (simp add: randRead_def)

section \<open>The buffered reader\<close>

text \<open>
  \<open>rbytes\<close> are the bytes the peer will have sent before the transport reports \<open>rerr\<close>.
  \<open>readFull n\<close> is \<^verbatim>\<open>io.ReadFull(r, buf)\<close> on a buffer of \<open>n > 0\<close> bytes: all \<open>n\<close> bytes or an error,
  which for an end of file after some bytes is \<^verbatim>\<open>io.ErrUnexpectedEOF\<close>.
\<close>

record breader =
  rbytes :: "byte list"
  rerr :: io_error

type_synonym 'a reads = "breader \<Rightarrow> (ws_error + 'a) \<times> breader"

definition readFull :: "nat \<Rightarrow> (byte list) reads" where
  "readFull n r =
     (if n \<le> length (rbytes r)
      then (Inr (take n (rbytes r)), r\<lparr>rbytes := drop n (rbytes r)\<rparr>)
      else (Inl (ErrIO (if rbytes r \<noteq> [] \<and> rerr r = EOF then UnexpectedEOF else rerr r)),
            r\<lparr>rbytes := []\<rparr>))"

text \<open>Sequencing of reads: the first error ends the function, as each \<^verbatim>\<open>return nil, err\<close> does.\<close>

definition rret :: "'a \<Rightarrow> 'a reads" where
  "rret x r = (Inr x, r)"

definition rfail :: "ws_error \<Rightarrow> 'a reads" where
  "rfail e r = (Inl e, r)"

definition rbind :: "'a reads \<Rightarrow> ('a \<Rightarrow> 'b reads) \<Rightarrow> 'b reads" where
  "rbind m f r = (case m r of (Inl e, r') \<Rightarrow> (Inl e, r') | (Inr x, r') \<Rightarrow> f x r')"

lemma rret_apply [simp]: "rret x r = (Inr x, r)"
  by (simp add: rret_def)

lemma rfail_apply [simp]: "rfail e r = (Inl e, r)"
  by (simp add: rfail_def)

lemma rbind_Inr: "m r = (Inr x, r') \<Longrightarrow> rbind m f r = f x r'"
  by (simp add: rbind_def)

lemma rbind_Inl: "m r = (Inl e, r') \<Longrightarrow> rbind m f r = (Inl e, r')"
  by (simp add: rbind_def)

lemma rbind_rret [simp]: "rbind (rret x) f = f x"
  by (simp add: rbind_def fun_eq_iff)

lemma rbind_eq_Inr_iff:
  "rbind m f r = (Inr y, r') \<longleftrightarrow> (\<exists>x r1. m r = (Inr x, r1) \<and> f x r1 = (Inr y, r'))"
  by (auto simp: rbind_def split: prod.splits sum.splits)

lemma readFull_append [simp]:
  "length bs = n \<Longrightarrow> readFull n \<lparr>rbytes = bs @ rest, rerr = e\<rparr> = (Inr bs, \<lparr>rbytes = rest, rerr = e\<rparr>)"
  by (simp add: readFull_def)

lemma rbind_readFull_append:
  "length bs = n \<Longrightarrow>
   rbind (readFull n) f \<lparr>rbytes = bs @ rest, rerr = e\<rparr> = f bs \<lparr>rbytes = rest, rerr = e\<rparr>"
  by (simp add: rbind_def)

lemma readFull_Inr_iff:
  "readFull n r = (Inr bs, r') \<longleftrightarrow>
     n \<le> length (rbytes r) \<and> bs = take n (rbytes r) \<and> r' = r\<lparr>rbytes := drop n (rbytes r)\<rparr>"
  by (auto simp: readFull_def)

text \<open>A computation only ever shortens the bytes that are left.\<close>

definition shrinks :: "nat \<Rightarrow> 'a reads \<Rightarrow> bool" where
  "shrinks k m \<longleftrightarrow>
     (\<forall>r x r'. m r = (Inr x, r') \<longrightarrow> length (rbytes r') + k \<le> length (rbytes r))"

lemma shrinks_readFull: "shrinks n (readFull n)"
  by (auto simp: shrinks_def readFull_Inr_iff)

lemma shrinks_rret: "shrinks 0 (rret x)"
  by (simp add: shrinks_def)

lemma shrinks_rfail: "shrinks k (rfail e)"
  by (simp add: shrinks_def)

lemma shrinks_rbind: "shrinks k m \<Longrightarrow> (\<And>x. shrinks 0 (f x)) \<Longrightarrow> shrinks k (rbind m f)"
  unfolding shrinks_def rbind_eq_Inr_iff by fastforce

lemma shrinks_weaken: "shrinks k m \<Longrightarrow> shrinks 0 m"
  unfolding shrinks_def by fastforce

end
