(* ===== verification/WsFrame.thy ===== *)
theory WsFrame
  imports WsTypes
begin

text \<open>
  The frame layer of \<^verbatim>\<open>websocket/websocket.go\<close>: \<^verbatim>\<open>maskBytes\<close>, \<^verbatim>\<open>isValidOpcode\<close>, the buffer that
  \<^verbatim>\<open>writeFrame\<close> fills and \<^verbatim>\<open>readFrame\<close>. The buffer is modelled as the code fills it (allocate, store
  the header bytes, copy key and payload at an offset, mask in place) and proved equal to the
  wire format \<open>frame_wire\<close>; \<^verbatim>\<open>readFrame\<close> is proved to read back what \<^verbatim>\<open>writeFrame\<close> wrote, to
  respect the configured frame size, and to reject frames with the wrong masking.
\<close>

section \<open>Masking and opcodes\<close>

definition isValidOpcode :: "byte \<Rightarrow> bool" where
  "isValidOpcode opcode \<longleftrightarrow>
     opcode \<in> set [OpcodeContinuation, OpcodeText, OpcodeBinary, OpcodeClose, OpcodePing, OpcodePong]"

text \<open>\<^verbatim>\<open>for i := range data { data[i] ^= key[i%4] }\<close>\<close>

definition maskBytes :: "byte list \<Rightarrow> byte list \<Rightarrow> byte list" where
  "maskBytes data key = map (\<lambda>i. data ! i XOR key ! (i mod 4)) [0..<length data]"

lemma length_maskBytes [simp]: "length (maskBytes data key) = length data"
  by (simp add: maskBytes_def)

lemma maskBytes_nth: "i < length data \<Longrightarrow> maskBytes data key ! i = data ! i XOR key ! (i mod 4)"
  by (simp add: maskBytes_def)

lemma maskBytes_involution [simp]: "maskBytes (maskBytes data key) key = data"
  by (rule nth_equalityI) (simp_all add: maskBytes_nth xor.assoc)

lemma isValidOpcode_cases:
  assumes "isValidOpcode opc"
  obtains "opc = 0" | "opc = 1" | "opc = 2" | "opc = 8" | "opc = 9" | "opc = 10"
  using assms by (auto simp: isValidOpcode_def opcode_defs)

section \<open>Writing a frame\<close>

text \<open>
  \<open>copy_at off src dst\<close> is \<^verbatim>\<open>copy(dst[off:], src)\<close>: it stops at the end of \<open>dst\<close>, so a buffer that
  was allocated too small would lose bytes silently.
\<close>

definition copy_at :: "nat \<Rightarrow> byte list \<Rightarrow> byte list \<Rightarrow> byte list" where
  "copy_at off src dst =
     take off dst @ take (length dst - off) src @ drop (off + length src) dst"

definition frameHeaderSize :: "Frame \<Rightarrow> nat" where
  "frameHeaderSize f =
     2 + (if length (Payload f) > MaxPayload16Bit then 8
          else if length (Payload f) > MaxPayload7Bit then 2 else 0)
       + (if Masked f then 4 else 0)"

definition frameByte0 :: "Frame \<Rightarrow> byte" where
  "frameByte0 f =
     (((Opcode f OR (if FIN f then FlagFIN else 0)) OR (if RSV1 f then FlagRSV1 else 0))
       OR (if RSV2 f then FlagRSV2 else 0)) OR (if RSV3 f then FlagRSV3 else 0)"

text \<open>
  The buffer \<^verbatim>\<open>frameBytes\<close> of \<^verbatim>\<open>writeFrame\<close>, store by store. \<open>putLength\<close> stores the second
  header byte and the extended length and returns the new \<^verbatim>\<open>offset\<close>; \<open>putPayload\<close> stores the
  mask bit, the key and the payload, which it masks in place.
\<close>

definition putLength :: "nat \<Rightarrow> byte list \<Rightarrow> byte list \<times> nat" where
  "putLength payloadLen buf =
     (if payloadLen > MaxPayload16Bit then (copy_at 2 (be_put 8 payloadLen) (buf[1 := 127]), 10)
      else if payloadLen > MaxPayload7Bit then (copy_at 2 (be_put 2 payloadLen) (buf[1 := 126]), 4)
      else (buf[1 := of_nat payloadLen], 2))"

definition putPayload :: "Frame \<Rightarrow> byte list \<Rightarrow> byte list \<Rightarrow> nat \<Rightarrow> byte list" where
  "putPayload f maskKey buf off =
     (if Masked f
      then let buf' = copy_at off maskKey (buf[1 := buf ! 1 OR FlagMask]);
               buf'' = copy_at (off + 4) (Payload f) buf'
           in take (off + 4) buf'' @ maskBytes (drop (off + 4) buf'') maskKey
      else copy_at off (Payload f) buf)"

definition frameBytes :: "Frame \<Rightarrow> byte list \<Rightarrow> byte list" where
  "frameBytes f maskKey =
     (let buf = (replicate (frameHeaderSize f + length (Payload f)) 0)[0 := frameByte0 f];
          (buf', off) = putLength (length (Payload f)) buf
      in putPayload f maskKey buf' off)"

text \<open>
  \<^verbatim>\<open>writeFrame\<close>: \<open>deflate\<close> stands for the output of \<^verbatim>\<open>flate.NewWriter\<close> on the payload. The
  result is the error of the writer, if any; the frame reaches \<open>sent\<close> whole or not at all.
\<close>

definition compressFrame :: "(byte list \<Rightarrow> byte list) \<Rightarrow> 'a conn_scheme \<Rightarrow> Frame \<Rightarrow> Frame" where
  "compressFrame deflate c f =
     (if compressionEnabled c \<and> (Opcode f = OpcodeText \<or> Opcode f = OpcodeBinary)
      then f\<lparr>Payload := deflate (Payload f), RSV1 := True\<rparr> else f)"

definition writeFrame ::
  "(byte list \<Rightarrow> byte list) \<Rightarrow> Frame \<Rightarrow> 'a conn_scheme \<Rightarrow> ws_error option \<times> 'a conn_scheme" where
  "writeFrame deflate f c =
     (let f' = compressFrame deflate c f;
          (maskKey, c') = (if Masked f' then randRead 4 c else ([], c))
      in case werr c' of
           Some e \<Rightarrow> (Some (ErrIO e), c')
         | None \<Rightarrow> (None, c'\<lparr>sent := sent c' @ frameBytes f' maskKey\<rparr>))"

subsection \<open>The wire format\<close>

text \<open>RFC 6455, section 5.2: the shortest of the three length forms, then key and payload.\<close>

definition wire_len :: "nat \<Rightarrow> byte" where
  "wire_len n = (if n > 65535 then 127 else if n > 125 then 126 else of_nat n)"

definition wire_ext :: "nat \<Rightarrow> byte list" where
  "wire_ext n = (if n > 65535 then be_put 8 n else if n > 125 then be_put 2 n else [])"

definition frame_wire :: "Frame \<Rightarrow> byte list \<Rightarrow> byte list" where
  "frame_wire f maskKey =
     frameByte0 f # (wire_len (length (Payload f)) OR (if Masked f then FlagMask else 0)) #
     wire_ext (length (Payload f)) @
     (if Masked f then maskKey @ maskBytes (Payload f) maskKey else Payload f)"

text \<open>
  The stores of \<^const>\<open>frameBytes\<close> one by one, on a buffer that still has zeroes where nothing
  was stored.
\<close>

lemma copy_at_Nil [simp]: "copy_at off [] dst = dst"
  by (simp add: copy_at_def)

lemma copy_at_zeroes:
  assumes "length pre = off" and "length src \<le> k"
  shows "copy_at off src (pre @ replicate k x) = pre @ src @ replicate (k - length src) x"
  using assms by (simp add: copy_at_def)

lemma store_header: "(replicate (2 + k) x)[0 := a, 1 := b] = [a, b] @ replicate k x"
  by (simp add: numeral_2_eq_2)

lemma frame_size:
  "frameHeaderSize f + length (Payload f) =
     2 + (length (wire_ext (length (Payload f))) + ((if Masked f then 4 else 0) + length (Payload f)))"
  by (simp add: frameHeaderSize_def wire_ext_def MaxPayload16Bit_def MaxPayload7Bit_def)

lemma putLength_eq:
  "putLength n buf = (copy_at 2 (wire_ext n) (buf[1 := wire_len n]), 2 + length (wire_ext n))"
  by (simp add: putLength_def wire_ext_def wire_len_def MaxPayload16Bit_def MaxPayload7Bit_def)

lemma putLength_wire:
  "putLength n ((replicate (2 + (length (wire_ext n) + k)) 0)[0 := a]) =
     (a # wire_len n # wire_ext n @ replicate k 0, 2 + length (wire_ext n))"
proof -
  have "copy_at 2 (wire_ext n) ((replicate (2 + (length (wire_ext n) + k)) 0)[0 := a, 1 := b]) =
      a # b # wire_ext n @ replicate k 0" for b
    unfolding store_header using copy_at_zeroes [of "[a, b]" 2 "wire_ext n" "length (wire_ext n) + k" 0]
    by simp
  then show ?thesis by (simp add: putLength_eq)
qed

lemma putPayload_wire:
  assumes "Masked f \<Longrightarrow> length key = 4"
  shows "putPayload f key (a # b # ext @ replicate ((if Masked f then 4 else 0) + length (Payload f)) 0)
           (2 + length ext) =
         a # (b OR (if Masked f then FlagMask else 0)) # ext @
           (if Masked f then key @ maskBytes (Payload f) key else Payload f)"
proof (cases "Masked f")
  case True
  with assms have key: "length key = 4" by simp
  have 1: "copy_at (2 + length ext) key (a # c # ext @ replicate (4 + length (Payload f)) 0) =
      a # c # ext @ key @ replicate (length (Payload f)) 0" for c
    using copy_at_zeroes [of "a # c # ext" "2 + length ext" key "4 + length (Payload f)" 0] key
    by simp
  have 2: "copy_at (2 + length ext + 4) (Payload f)
      (a # c # ext @ key @ replicate (length (Payload f)) 0) = (a # c # ext @ key) @ Payload f" for c
    using copy_at_zeroes [of "a # c # ext @ key" "2 + length ext + 4" "Payload f" "length (Payload f)" 0] key
    by simp
  have 3: "2 + length ext + 4 = length (a # c # ext @ key)" for c
    using key by simp
  have 4: "take (2 + length ext + 4) ((a # c # ext @ key) @ Payload f) = a # c # ext @ key"
    and 5: "drop (2 + length ext + 4) ((a # c # ext @ key) @ Payload f) = Payload f" for c
    unfolding 3 [of c] append_eq_conv_conj by simp_all
  show ?thesis
    unfolding putPayload_def using True by (simp only: if_True list_update_code nth_Cons_Suc Let_def One_nat_def nth_Cons_0 list_update.simps nat.case 1 2 4 5) simp
next
  case False
  then show ?thesis
    using copy_at_zeroes [of "a # b # ext" "2 + length ext" "Payload f" "length (Payload f)" 0]
    by (simp add: putPayload_def)
qed

lemma frameBytes_wire:
  assumes "Masked f \<Longrightarrow> length key = 4"
  shows "frameBytes f key = frame_wire f key"
  unfolding frameBytes_def frame_size putLength_wire Let_def prod.case
  using putPayload_wire [OF assms] by (simp add: frame_wire_def)


section \<open>Reading a frame\<close>

text \<open>\<open>int64_of v\<close> is \<^verbatim>\<open>int64(v)\<close> of an unsigned 64-bit value: two's complement.\<close>

definition int64_of :: "nat \<Rightarrow> int" where
  "int64_of v = (if v < 2 ^ 63 then int v else int v - 2 ^ 64)"

text \<open>The header byte decoded, before anything else is checked.\<close>

definition parseHeader :: "byte list \<Rightarrow> Frame" where
  "parseHeader header =
     \<lparr>FIN = (header ! 0 AND FlagFIN \<noteq> 0), RSV1 = (header ! 0 AND FlagRSV1 \<noteq> 0),
      RSV2 = (header ! 0 AND FlagRSV2 \<noteq> 0), RSV3 = (header ! 0 AND FlagRSV3 \<noteq> 0),
      Opcode = header ! 0 AND 0x0F, Masked = (header ! 1 AND FlagMask \<noteq> 0), Payload = []\<rparr>"

definition readPayloadLen :: "byte \<Rightarrow> int reads" where
  "readPayloadLen b =
     (let payloadLen = int (unat (b AND 0x7F))
      in if payloadLen = 126 then rbind (readFull 2) (\<lambda>lengthBytes. rret (int (be_get lengthBytes)))
         else if payloadLen = 127 then
           rbind (readFull 8) (\<lambda>lengthBytes. rret (int64_of (be_get lengthBytes)))
         else rret payloadLen)"

text \<open>
  \<^verbatim>\<open>readFrame\<close>: opcode and masking are checked before the length is read, the size limit before
  the key is read, and a payload is only read when the length is positive.
\<close>

definition readBody :: "'a conn_scheme \<Rightarrow> Frame \<Rightarrow> byte \<Rightarrow> Frame reads" where
  "readBody c frame b = rbind (readPayloadLen b) (\<lambda>payloadLen.
     if payloadLen > MaxFrameSize (config c) then rfail ErrMessageTooLarge
     else rbind (if Masked frame then readFull 4 else rret []) (\<lambda>maskKey.
       if payloadLen > 0
       then rbind (readFull (nat payloadLen)) (\<lambda>p.
              rret (frame\<lparr>Payload := if Masked frame then maskBytes p maskKey else p\<rparr>))
       else rret frame))"

definition readFrame :: "'a conn_scheme \<Rightarrow> Frame reads" where
  "readFrame c = rbind (readFull 2) (\<lambda>header.
     let frame = parseHeader header
     in if \<not> isValidOpcode (Opcode frame) then rfail ErrInvalidOpcode
        else if isServer c \<and> \<not> Masked frame then rfail ErrInvalidFrame
        else if \<not> isServer c \<and> isClient c \<and> Masked frame then rfail ErrInvalidFrame
        else readBody c frame (header ! 1))"

text \<open>The masking a side accepts: a server wants masked frames, a client unmasked ones.\<close>

definition mask_ok :: "'a conn_scheme \<Rightarrow> Frame \<Rightarrow> bool" where
  "mask_ok c f \<longleftrightarrow> (if isServer c then Masked f else isClient c \<longrightarrow> \<not> Masked f)"

definition readable :: "'a conn_scheme \<Rightarrow> Frame \<Rightarrow> bool" where
  "readable c f \<longleftrightarrow> isValidOpcode (Opcode f) \<and> mask_ok c f \<and>
     int (length (Payload f)) \<le> MaxFrameSize (config c) \<and> length (Payload f) < 2 ^ 63"

subsection \<open>The header bytes survive\<close>

lemma byte0_bits:
  assumes "isValidOpcode (Opcode f)"
  shows "frameByte0 f AND 0x0F = Opcode f" "(frameByte0 f AND FlagFIN \<noteq> 0) = FIN f"
    "(frameByte0 f AND FlagRSV1 \<noteq> 0) = RSV1 f" "(frameByte0 f AND FlagRSV2 \<noteq> 0) = RSV2 f"
    "(frameByte0 f AND FlagRSV3 \<noteq> 0) = RSV3 f"
  using assms by (auto simp: frameByte0_def flag_defs elim!: isValidOpcode_cases)

lemma low7_mask:
  assumes "unat (b :: byte) < 128"
  shows "(b OR (if m then FlagMask else 0)) AND 0x7F = b"
    and "((b OR (if m then FlagMask else 0)) AND FlagMask \<noteq> 0) = m"
proof -
  have b: "b AND 0x7F = b"
  proof -
    have "b AND mask 7 = take_bit 7 b" by (simp add: take_bit_eq_mask)
    also have "\<dots> = b"
      using assms by (simp add: word_eq_iff_unsigned [where ?'a = nat] unsigned_take_bit_eq
          take_bit_nat_eq_self)
    finally show ?thesis by (simp add: mask_eq_exp_minus_1)
  qed
  moreover have "(0x7F :: byte) AND 0x80 = 0" by simp
  ultimately have "b AND 0x80 = 0"
    by (metis and.assoc and_zero_eq)
  with b show "(b OR (if m then FlagMask else 0)) AND 0x7F = b"
    and "((b OR (if m then FlagMask else 0)) AND FlagMask \<noteq> 0) = m"
    by (auto simp: FlagMask_def bit.conj_disj_distrib2)
qed

lemma wire_len_less: "unat (wire_len n) < 128"
  by (auto simp: wire_len_def unat_of_nat)

lemma int64_of_small [simp]: "v < 2 ^ 63 \<Longrightarrow> int64_of v = int v"
  by (simp add: int64_of_def)


lemma parseHeader_wire:
  assumes "isValidOpcode (Opcode f)"
  shows "parseHeader [frameByte0 f, wire_len n OR (if Masked f then FlagMask else 0)] = f\<lparr>Payload := []\<rparr>"
  using byte0_bits [OF assms] low7_mask(2) [OF wire_len_less, of n "Masked f"]
  by (simp add: parseHeader_def)

lemma readPayloadLen_wire:
  assumes "n < 2 ^ 63"
  shows "readPayloadLen (wire_len n OR (if m then FlagMask else 0)) \<lparr>rbytes = wire_ext n @ rest, rerr = e\<rparr> =
    (Inr (int n), \<lparr>rbytes = rest, rerr = e\<rparr>)"
proof -
  have get: "be_get (be_put 8 n) = n" "n \<le> 65535 \<Longrightarrow> be_get (be_put 2 n) = n"
    using assms by (simp_all add: be_get_put)
  have small: "uint (word_of_nat n :: byte) = int n" if "\<not> n > 125"
    using that by (simp add: uint_nat unat_of_nat del: of_nat_unat)
  show ?thesis
    unfolding readPayloadLen_def Let_def low7_mask(1) [OF wire_len_less]
    using assms by (auto simp: wire_len_def wire_ext_def rbind_readFull_append get small)
qed

lemma readBody_wire:
  assumes n: "length (Payload f) < 2 ^ 63" "int (length (Payload f)) \<le> MaxFrameSize (config c)"
    and key: "Masked f \<Longrightarrow> length key = 4"
  shows "readBody c (f\<lparr>Payload := []\<rparr>) (wire_len (length (Payload f)) OR (if Masked f then FlagMask else 0))
      \<lparr>rbytes = wire_ext (length (Payload f)) @
        (if Masked f then key @ maskBytes (Payload f) key else Payload f) @ rest, rerr = e\<rparr> =
    (Inr f, \<lparr>rbytes = rest, rerr = e\<rparr>)"
proof -
  note len = rbind_Inr [where m = "readPayloadLen _", OF readPayloadLen_wire [OF n(1)]]
  show ?thesis
  proof (cases "Payload f = []")
    case True
    then have "f\<lparr>Payload := []\<rparr> = f" by (cases f) simp
    with True n key show ?thesis
      unfolding readBody_def len by (auto simp: rbind_readFull_append maskBytes_def)
  next
    case False
    with n key show ?thesis
      unfolding readBody_def len by (auto simp: rbind_readFull_append)
  qed
qed

lemma readFrame_wire:
  assumes f: "readable c f" and key: "Masked f \<Longrightarrow> length key = 4"
  shows "readFrame c \<lparr>rbytes = frame_wire f key @ rest, rerr = e\<rparr> = (Inr f, \<lparr>rbytes = rest, rerr = e\<rparr>)"
proof -
  let ?n = "length (Payload f)"
  let ?hd = "[frameByte0 f, wire_len ?n OR (if Masked f then FlagMask else 0)]"
  let ?body = "if Masked f then key @ maskBytes (Payload f) key else Payload f"
  have split: "frame_wire f key @ rest = ?hd @ wire_ext ?n @ ?body @ rest"
    by (simp add: frame_wire_def)
  have "readFrame c \<lparr>rbytes = frame_wire f key @ rest, rerr = e\<rparr> =
      readBody c (f\<lparr>Payload := []\<rparr>) (?hd ! 1) \<lparr>rbytes = wire_ext ?n @ ?body @ rest, rerr = e\<rparr>"
    using f unfolding readFrame_def split readable_def mask_ok_def
    by (subst rbind_readFull_append) (auto simp: Let_def parseHeader_wire split: if_splits)
  also have "\<dots> = (Inr f, \<lparr>rbytes = rest, rerr = e\<rparr>)"
    using readBody_wire [of f c key rest e] f key by (cases "Masked f") (auto simp: readable_def)
  finally show ?thesis .
qed

text \<open>
  C1. Round trip of the frame layer: for every frame with a known opcode whose payload fits the
  reader's frame limit and whose masking is the one the reader's side expects, \<^verbatim>\<open>readFrame\<close> on the
  bytes that \<^verbatim>\<open>writeFrame\<close> put on the wire (for any masking key) returns exactly that frame and
  leaves exactly the bytes that follow it.
\<close>

theorem readFrame_frameBytes:
  assumes "readable c f" and "Masked f \<Longrightarrow> length maskKey = 4"
  shows "readFrame c \<lparr>rbytes = frameBytes f maskKey @ rest, rerr = e\<rparr> =
    (Inr f, \<lparr>rbytes = rest, rerr = e\<rparr>)"
  using readFrame_wire [OF assms] frameBytes_wire [OF assms(2)] by simp


text \<open>The opcodes, masks and sizes of a concrete exchange: a masked text frame read by a server.\<close>

definition demo_conn :: conn where
  "demo_conn = \<lparr>config = DefaultConfig, isServer = True, isClient = False, closed = False,
     closeReason = 0, closeText = [], compressionEnabled = False, negotiatedExtensions = [],
     negotiatedSubprotocol = [], fragmentedWriteInProgress = False, pongCh = 0, pingTicker = None,
     pongTimer = None, keepAliveStopCh = None, ctxDone = False, keepAlive = NotStarted, sent = [],
     werr = None, nclose = None, rnd = of_nat\<rparr>"

definition demo_frame :: Frame where
  "demo_frame = \<lparr>FIN = True, RSV1 = False, RSV2 = False, RSV3 = False, Opcode = OpcodeText,
     Masked = True, Payload = [72, 105]\<rparr>"

lemmas demo_defs = demo_conn_def demo_frame_def DefaultConfig_def

theorem readFrame_frameBytes_witness:
  "readFrame demo_conn \<lparr>rbytes = frameBytes demo_frame [1, 2, 3, 4] @ [7], rerr = EOF\<rparr> =
     (Inr demo_frame, \<lparr>rbytes = [7], rerr = EOF\<rparr>)"
  by (rule readFrame_frameBytes)
    (simp_all add: demo_defs readable_def mask_ok_def isValidOpcode_def)

section \<open>What a successful read guarantees\<close>

lemma readBody_Inr:
  assumes "readBody c frame b r = (Inr f, r')"
  shows "Opcode f = Opcode frame" "Masked f = Masked frame" "FIN f = FIN frame"
    "Payload f = Payload frame \<or> int (length (Payload f)) \<le> MaxFrameSize (config c)"
  using assms unfolding readBody_def
  by (auto simp: rbind_eq_Inr_iff readFull_Inr_iff split: if_splits)

lemma readFrame_Inr_body:
  assumes "readFrame c r = (Inr f, r')"
  obtains header r1 where "readFull 2 r = (Inr header, r1)"
    "isValidOpcode (Opcode (parseHeader header))" "mask_ok c (parseHeader header)"
    "readBody c (parseHeader header) (header ! 1) r1 = (Inr f, r')"
  using assms unfolding readFrame_def
  by (auto simp: rbind_eq_Inr_iff Let_def mask_ok_def split: if_splits)

lemma shrinks_readPayloadLen: "shrinks 0 (readPayloadLen b)"
  unfolding readPayloadLen_def Let_def
  by (auto intro!: shrinks_rbind shrinks_rret shrinks_weaken [OF shrinks_readFull])

lemma shrinks_readBody: "shrinks 0 (readBody c frame b)"
  unfolding readBody_def
  by (auto intro!: shrinks_rbind shrinks_rret shrinks_rfail shrinks_readPayloadLen
      shrinks_weaken [OF shrinks_readFull])

lemma shrinks_readFrame: "shrinks 2 (readFrame c)"
  unfolding readFrame_def Let_def
  by (auto intro!: shrinks_rbind shrinks_readFull shrinks_readBody shrinks_rfail)

lemma readFrame_valid:
  assumes "readFrame c r = (Inr f, r')"
  shows "isValidOpcode (Opcode f)" and "mask_ok c f"
    and "Payload f = [] \<or> int (length (Payload f)) \<le> MaxFrameSize (config c)"
    and "length (rbytes r') + 2 \<le> length (rbytes r)"
proof -
  show "length (rbytes r') + 2 \<le> length (rbytes r)"
    using shrinks_readFrame assms unfolding shrinks_def by blast
  from assms obtain header r1 where
      "isValidOpcode (Opcode (parseHeader header))" "mask_ok c (parseHeader header)"
      "readBody c (parseHeader header) (header ! 1) r1 = (Inr f, r')"
    by (rule readFrame_Inr_body)
  then show "isValidOpcode (Opcode f)" "mask_ok c f"
    "Payload f = [] \<or> int (length (Payload f)) \<le> MaxFrameSize (config c)"
    using readBody_Inr [of c "parseHeader header" "header ! 1" r1 f r']
    by (auto simp: parseHeader_def mask_ok_def)
qed

text \<open>
  C5. Whatever bytes the peer sends, a frame that \<^verbatim>\<open>readFrame\<close> returns has a known opcode, is
  masked exactly as the reader's role demands, carries no more payload than the configured
  \<^verbatim>\<open>MaxFrameSize\<close>, and at least its two header bytes were consumed.
\<close>

theorem readFrame_sound:
  assumes "readFrame c r = (Inr f, r')"
  shows "isValidOpcode (Opcode f) \<and> mask_ok c f \<and>
    (Payload f = [] \<or> int (length (Payload f)) \<le> MaxFrameSize (config c)) \<and>
    length (rbytes r') + 2 \<le> length (rbytes r)"
  using readFrame_valid [OF assms] by simp

theorem readFrame_sound_witness:
  "isValidOpcode (Opcode demo_frame) \<and> mask_ok demo_conn demo_frame \<and>
    (Payload demo_frame = [] \<or> int (length (Payload demo_frame)) \<le> MaxFrameSize (config demo_conn)) \<and>
    length [7 :: byte] + 2 \<le> length (frameBytes demo_frame [1, 2, 3, 4] @ [7])"
proof -
  have "readFrame demo_conn \<lparr>rbytes = frame_wire demo_frame [1, 2, 3, 4] @ [7], rerr = EOF\<rparr> =
      (Inr demo_frame, \<lparr>rbytes = [7], rerr = EOF\<rparr>)"
    by (rule readFrame_wire) (simp_all add: demo_defs readable_def mask_ok_def isValidOpcode_def)
  from readFrame_sound [OF this] show ?thesis
    by (simp add: frameBytes_wire demo_defs)
qed

text \<open>
  A length field of 64 bits whose top bit is set becomes a negative \<^verbatim>\<open>int64\<close>, which passes the
  test against \<^verbatim>\<open>MaxFrameSize\<close> and the test for a payload alike.
\<close>

lemma int64_of_negative: "2 ^ 63 \<le> v \<Longrightarrow> v < 2 ^ 64 \<Longrightarrow> int64_of v < 0"
  by (simp add: int64_of_def)

lemma int64_of_sint:
  assumes "v < 2 ^ 64"
  shows "int64_of v = sint (of_nat v :: 64 word)"
proof -
  have "sint (of_nat v :: 64 word) = (int v + 2 ^ 63) mod 2 ^ 64 - 2 ^ 63"
    by (simp add: signed_of_nat signed_take_bit_eq_take_bit_shift take_bit_eq_mod)
  also have "(int v + 2 ^ 63) mod 2 ^ 64 = (if v < 2 ^ 63 then int v + 2 ^ 63 else int v - 2 ^ 63)"
    using assms mod_pos_pos_trivial [of "int v + 2 ^ 63" "2 ^ 64"]
      mod_pos_pos_trivial [of "int v - 2 ^ 63" "2 ^ 64"] mod_add_self2 [of "int v - 2 ^ 63" "2 ^ 64"]
    by (auto simp: add.commute)
  finally show ?thesis by (simp add: int64_of_def)
qed

text \<open>
  A defect of \<^verbatim>\<open>readFrame\<close>, stated as it behaves: a masked frame that announces a 64-bit payload
  length of \<open>2^63\<close> or more is not refused as too large. It is accepted as a frame with an empty
  payload, and the bytes after its masking key, which the sender meant as payload, are left to be
  parsed as the next frames.
\<close>

theorem readFrame_huge_length_accepted:
  assumes "isServer c" and "isValidOpcode (b0 AND 0x0F)" and "0 \<le> MaxFrameSize (config c)"
    and "length len8 = 8" and "2 ^ 63 \<le> be_get len8" and "length maskKey = 4"
  shows "readFrame c \<lparr>rbytes = [b0, 0xFF] @ len8 @ maskKey @ rest, rerr = e\<rparr> =
    (Inr (parseHeader [b0, 0xFF]), \<lparr>rbytes = rest, rerr = e\<rparr>)"
proof -
  have "be_get len8 < 2 ^ 64"
    using be_get_less [of len8] assms by simp
  with assms have neg: "int64_of (be_get len8) < 0"
    by (intro int64_of_negative) auto
  have "readFrame c \<lparr>rbytes = [b0, 0xFF] @ len8 @ maskKey @ rest, rerr = e\<rparr> =
      readBody c (parseHeader [b0, 0xFF]) 0xFF \<lparr>rbytes = len8 @ maskKey @ rest, rerr = e\<rparr>"
    unfolding readFrame_def using assms
    by (subst rbind_readFull_append) (auto simp: Let_def parseHeader_def FlagMask_def)
  also have "\<dots> = (Inr (parseHeader [b0, 0xFF]), \<lparr>rbytes = rest, rerr = e\<rparr>)"
  proof -
    have "readPayloadLen 0xFF \<lparr>rbytes = len8 @ maskKey @ rest, rerr = e\<rparr> =
        (Inr (int64_of (be_get len8)), \<lparr>rbytes = maskKey @ rest, rerr = e\<rparr>)"
      using assms by (simp add: readPayloadLen_def rbind_readFull_append)
    then show ?thesis
      unfolding readBody_def using assms neg
      by (subst rbind_Inr) (auto simp: parseHeader_def FlagMask_def rbind_readFull_append)
  qed
  finally show ?thesis .
qed

theorem readFrame_huge_length_accepted_witness:
  "readFrame demo_conn \<lparr>rbytes = [0x81, 0xFF] @ [0x80, 0, 0, 0, 0, 0, 0, 0] @ [1, 2, 3, 4] @ [0x88, 0x80], rerr = EOF\<rparr> =
    (Inr (parseHeader [0x81, 0xFF]), \<lparr>rbytes = [0x88, 0x80], rerr = EOF\<rparr>)"
  by (rule readFrame_huge_length_accepted)
    (simp_all add: demo_defs isValidOpcode_def opcode_defs be_get_def)


section \<open>The effect of a write on the connection\<close>

lemma writeFrame_ok:
  assumes "werr c = None"
  shows "\<exists>key r'. length key = 4 \<and> writeFrame deflate f c =
    (None, c\<lparr>sent := sent c @ frame_wire (compressFrame deflate c f) key, rnd := r'\<rparr>)"
proof (cases "Masked (compressFrame deflate c f)")
  case True
  let ?key = "fst (randRead 4 c)"
  have "frameBytes (compressFrame deflate c f) ?key = frame_wire (compressFrame deflate c f) ?key"
    by (rule frameBytes_wire) simp
  with True assms show ?thesis
    by (intro exI [of _ ?key] exI [of _ "\<lambda>i. rnd c (i + 4)"])
      (simp add: writeFrame_def randRead_def Let_def)
next
  case False
  have "frameBytes (compressFrame deflate c f) [] = frame_wire (compressFrame deflate c f) (replicate 4 0)"
    using False frameBytes_wire [of "compressFrame deflate c f" "[]"] by (simp add: frame_wire_def)
  with False assms show ?thesis
    by (intro exI [of _ "replicate 4 0"] exI [of _ "rnd c"]) (simp add: writeFrame_def Let_def)
qed

lemma writeFrame_err:
  assumes "werr c = Some e"
  shows "\<exists>r'. writeFrame deflate f c = (Some (ErrIO e), c\<lparr>rnd := r'\<rparr>)"
  using assms by (auto simp: writeFrame_def randRead_def Let_def intro: exI [of _ "rnd c"])

end
