(* ===== verification/WsMessage.thy ===== *)
theory WsMessage
  imports WsFrame
begin

text \<open>
  The message layer of \<^verbatim>\<open>websocket/websocket.go\<close>: \<^verbatim>\<open>ReadMessage\<close>, which assembles the fragments of
  a message, and the writers \<^verbatim>\<open>WriteMessage\<close>, \<^verbatim>\<open>WritePing\<close>, \<^verbatim>\<open>WritePong\<close>, \<^verbatim>\<open>WriteClose\<close> and
  \<^verbatim>\<open>WriteFragmented\<close>. The locale \<open>frame_channel\<close> is the contract between the two layers (a frame
  that was written is read back and leaves what follows); it is interpreted on \<^const>\<open>frameBytes\<close> and
  \<^const>\<open>readFrame\<close>.
\<close>

section \<open>The contract of a frame channel\<close>

text \<open>Reading a given number of items, one after the other.\<close>

fun read_n :: "'f reads \<Rightarrow> nat \<Rightarrow> ('f list) reads" where
  "read_n rd 0 = rret []"
| "read_n rd (Suc n) = rbind rd (\<lambda>f. rbind (read_n rd n) (\<lambda>fs. rret (f # fs)))"

locale frame_channel =
  fixes enc :: "'f \<Rightarrow> 'k \<Rightarrow> byte list"
    and rd :: "'f reads"
    and frame_ok :: "'f \<Rightarrow> bool"
    and key_ok :: "'k \<Rightarrow> bool"
  assumes rd_enc: "frame_ok f \<Longrightarrow> key_ok k \<Longrightarrow>
      rd \<lparr>rbytes = enc f k @ rest, rerr = e\<rparr> = (Inr f, \<lparr>rbytes = rest, rerr = e\<rparr>)"
begin

lemma rbind_enc:
  "frame_ok f \<Longrightarrow> key_ok k \<Longrightarrow>
    rbind rd g \<lparr>rbytes = enc f k @ rest, rerr = e\<rparr> = g f \<lparr>rbytes = rest, rerr = e\<rparr>"
  by (simp add: rbind_def rd_enc)

lemma read_stream:
  assumes "\<forall>(f, k) \<in> set fks. frame_ok f \<and> key_ok k"
  shows "read_n rd (length fks) \<lparr>rbytes = concat (map (\<lambda>(f, k). enc f k) fks) @ rest, rerr = e\<rparr> =
    (Inr (map fst fks), \<lparr>rbytes = rest, rerr = e\<rparr>)"
  using assms
proof (induction fks)
  case Nil
  then show ?case by simp
next
  case (Cons fk fks)
  obtain f k where fk: "fk = (f, k)" by (cases fk)
  from Cons have "read_n rd (length fks)
      \<lparr>rbytes = concat (map (\<lambda>(f, k). enc f k) fks) @ rest, rerr = e\<rparr> =
    (Inr (map fst fks), \<lparr>rbytes = rest, rerr = e\<rparr>)" by auto
  with Cons.prems fk show ?case
    by (simp add: rbind_enc) (simp add: rbind_def)
qed

lemma enc_unique:
  assumes "frame_ok f" "key_ok k" "frame_ok g" "key_ok l"
    and "enc f k @ r1 = enc g l @ r2"
  shows "f = g \<and> r1 = r2"
  using rd_enc [of f k r1 EOF] rd_enc [of g l r2 EOF] assms by simp

end

text \<open>The two layers of the code meet this contract, whichever side the reader is.\<close>

interpretation ws: frame_channel frameBytes "readFrame c" "readable c" "\<lambda>key. length key = 4"
  for c :: "'a conn_scheme"
  by unfold_locales (simp add: frameBytes_wire readFrame_wire)

interpretation wire: frame_channel frame_wire "readFrame c" "readable c" "\<lambda>key. length key = 4"
  for c :: "'a conn_scheme"
  by unfold_locales (rule readFrame_wire)

section \<open>Reading a message\<close>

text \<open>
  The loop of \<^verbatim>\<open>ReadMessage\<close>: \<open>messageType\<close> is the local variable (0 until a data frame arrives),
  \<open>buf\<close> is \<^verbatim>\<open>c.messageBuffer\<close>, emptied before the loop.
\<close>

function readMessageLoop ::
  "'a conn_scheme \<Rightarrow> MessageType \<Rightarrow> byte list \<Rightarrow> breader \<Rightarrow>
   (ws_error + MessageType \<times> byte list) \<times> breader" where
  "readMessageLoop c messageType buf r =
     (case readFrame c r of
        (Inl e, r') \<Rightarrow> (Inl e, r')
      | (Inr frame, r') \<Rightarrow>
          if unat (Opcode frame) \<ge> 8 then (Inr (int (unat (Opcode frame)), Payload frame), r')
          else if Opcode frame = OpcodeContinuation \<and> messageType = 0
          then (Inl ErrInvalidFrame, r')
          else
            let messageType' = (if Opcode frame = OpcodeContinuation then messageType
                                else int (unat (Opcode frame)));
                buf' = buf @ Payload frame
            in if int (length buf') > MaxMessageSize (config c) then (Inl ErrMessageTooLarge, r')
               else if FIN frame then (Inr (messageType', buf'), r')
               else readMessageLoop c messageType' buf' r')"
  by pat_completeness auto
termination
proof (relation "measure (\<lambda>(c, mt, buf, r). length (rbytes r))", goal_cases)
  case 1
  then show ?case by simp
next
  case (2 c mt buf r res r' frame)
  then have "readFrame c r = (Inr frame, r')" by simp
  from readFrame_valid(4) [OF this] show ?case by simp
qed


declare readMessageLoop.simps [simp del]

definition ReadMessage :: "'a conn_scheme \<Rightarrow> (MessageType \<times> byte list) reads" where
  "ReadMessage c r = (if closed c then (Inl ErrConnectionClosed, r) else readMessageLoop c 0 [] r)"

text \<open>One turn of the loop on a frame that is on the wire.\<close>

lemma readMessageLoop_wire:
  assumes "readable c f" and "length k = 4"
  shows "readMessageLoop c mt buf \<lparr>rbytes = frame_wire f k @ rest, rerr = e\<rparr> =
    (if unat (Opcode f) \<ge> 8 then (Inr (int (unat (Opcode f)), Payload f), \<lparr>rbytes = rest, rerr = e\<rparr>)
     else if Opcode f = OpcodeContinuation \<and> mt = 0
     then (Inl ErrInvalidFrame, \<lparr>rbytes = rest, rerr = e\<rparr>)
     else if int (length (buf @ Payload f)) > MaxMessageSize (config c)
     then (Inl ErrMessageTooLarge, \<lparr>rbytes = rest, rerr = e\<rparr>)
     else if FIN f
     then (Inr (if Opcode f = OpcodeContinuation then mt else int (unat (Opcode f)), buf @ Payload f),
           \<lparr>rbytes = rest, rerr = e\<rparr>)
     else readMessageLoop c (if Opcode f = OpcodeContinuation then mt else int (unat (Opcode f)))
       (buf @ Payload f) \<lparr>rbytes = rest, rerr = e\<rparr>)"
  by (subst readMessageLoop.simps) (simp add: wire.rd_enc [OF assms] Let_def)

section \<open>Writing messages\<close>

definition dataFrame :: "'a conn_scheme \<Rightarrow> bool \<Rightarrow> byte \<Rightarrow> byte list \<Rightarrow> Frame" where
  "dataFrame c fin opc data =
     \<lparr>FIN = fin, RSV1 = False, RSV2 = False, RSV3 = False, Opcode = opc, Masked = isClient c,
      Payload = data\<rparr>"

definition WriteMessage ::
  "(byte list \<Rightarrow> byte list) \<Rightarrow> MessageType \<Rightarrow> byte list \<Rightarrow> 'a conn_scheme \<Rightarrow>
   ws_error option \<times> 'a conn_scheme" where
  "WriteMessage deflate messageType data c =
     (if closed c then (Some ErrConnectionClosed, c)
      else writeFrame deflate (dataFrame c True (word_of_int messageType) data) c)"

definition WriteText ::
  "(byte list \<Rightarrow> byte list) \<Rightarrow> string \<Rightarrow> 'a conn_scheme \<Rightarrow> ws_error option \<times> 'a conn_scheme" where
  "WriteText deflate text = WriteMessage deflate TextMessage (bytes_of text)"

definition WriteBinary ::
  "(byte list \<Rightarrow> byte list) \<Rightarrow> byte list \<Rightarrow> 'a conn_scheme \<Rightarrow> ws_error option \<times> 'a conn_scheme" where
  "WriteBinary deflate = WriteMessage deflate BinaryMessage"

definition WritePing ::
  "(byte list \<Rightarrow> byte list) \<Rightarrow> byte list \<Rightarrow> 'a conn_scheme \<Rightarrow> ws_error option \<times> 'a conn_scheme" where
  "WritePing deflate data c = writeFrame deflate (dataFrame c True OpcodePing data) c"

definition WritePong ::
  "(byte list \<Rightarrow> byte list) \<Rightarrow> byte list \<Rightarrow> 'a conn_scheme \<Rightarrow> ws_error option \<times> 'a conn_scheme" where
  "WritePong deflate data c = writeFrame deflate (dataFrame c True OpcodePong data) c"

text \<open>The payload of a close frame: \<^verbatim>\<open>uint16(code)\<close> and the reason.\<close>

definition closePayload :: "CloseCode \<Rightarrow> string \<Rightarrow> byte list" where
  "closePayload code reason = be_put 2 (nat (code mod 2 ^ 16)) @ bytes_of reason"

definition WriteClose ::
  "(byte list \<Rightarrow> byte list) \<Rightarrow> CloseCode \<Rightarrow> string \<Rightarrow> 'a conn_scheme \<Rightarrow>
   ws_error option \<times> 'a conn_scheme" where
  "WriteClose deflate code reason c =
     writeFrame deflate (dataFrame c True OpcodeClose (closePayload code reason)) c"

subsection \<open>Fragmented writes\<close>

text \<open>
  The loop of \<^verbatim>\<open>WriteFragmented\<close>, \<open>i\<close> being its counter. \<^const>\<open>None\<close> is a loop that does not
  come back, \<open>Panicked\<close> the slice \<^verbatim>\<open>data[i:end]\<close> with \<open>end < i\<close>. The mutex is held for the whole
  call, so the flag \<^verbatim>\<open>fragmentedWriteInProgress\<close> is set on entry and reset on every way out.
\<close>

partial_function (option) writeFragmentLoop ::
  "(byte list \<Rightarrow> byte list) \<Rightarrow> MessageType \<Rightarrow> byte list \<Rightarrow> int \<Rightarrow> int \<Rightarrow> 'a conn_scheme \<Rightarrow>
   (ws_error option outcome \<times> 'a conn_scheme) option" where
  "writeFragmentLoop deflate messageType data fragmentSize i c =
     (if i < int (length data) then
        (let end = min (i + fragmentSize) (int (length data))
         in if end < i then Some (Panicked, c)
            else case writeFrame deflate
                   (dataFrame c (end = int (length data))
                      (if i > 0 then OpcodeContinuation else word_of_int messageType)
                      (take (nat (end - i)) (drop (nat i) data))) c of
                   (Some err, c') \<Rightarrow> Some (Returned (Some err), c')
                 | (None, c') \<Rightarrow>
                     writeFragmentLoop deflate messageType data fragmentSize (i + fragmentSize) c')
      else Some (Returned None, c))"

definition WriteFragmented ::
  "(byte list \<Rightarrow> byte list) \<Rightarrow> MessageType \<Rightarrow> byte list \<Rightarrow> int \<Rightarrow> 'a conn_scheme \<Rightarrow>
   (ws_error option outcome \<times> 'a conn_scheme) option" where
  "WriteFragmented deflate messageType data fragmentSize c =
     (if fragmentedWriteInProgress c then Some (Returned (Some ErrFragmentedInProgress), c)
      else map_option (\<lambda>(res, c'). (res, c'\<lparr>fragmentedWriteInProgress := False\<rparr>))
        (writeFragmentLoop deflate messageType data fragmentSize 0
           (c\<lparr>fragmentedWriteInProgress := True\<rparr>)))"


section \<open>Messages survive the wire\<close>

text \<open>The two ends of one connection: one is the server, the other the client.\<close>

definition peers :: "'a conn_scheme \<Rightarrow> 'b conn_scheme \<Rightarrow> bool" where
  "peers c p \<longleftrightarrow> isServer c = isClient p \<and> isClient c = isServer p \<and> isServer c \<noteq> isClient c"

text \<open>The writer can write and sends payloads as they are.\<close>

definition plain_writer :: "'a conn_scheme \<Rightarrow> bool" where
  "plain_writer c \<longleftrightarrow> werr c = None \<and> \<not> compressionEnabled c"

lemma dataFrame_sel [simp]:
  "FIN (dataFrame c fin opc d) = fin" "Opcode (dataFrame c fin opc d) = opc"
  "Masked (dataFrame c fin opc d) = isClient c" "Payload (dataFrame c fin opc d) = d"
  by (simp_all add: dataFrame_def)

lemma readable_dataFrame:
  assumes "peers c p"
  shows "readable p (dataFrame c fin opc d) \<longleftrightarrow> isValidOpcode opc \<and>
    int (length d) \<le> MaxFrameSize (config p) \<and> length d < 2 ^ 63"
  using assms by (auto simp: readable_def mask_ok_def peers_def)

lemma write_dataFrame:
  assumes "plain_writer c"
  shows "\<exists>key r'. length key = 4 \<and> writeFrame deflate (dataFrame c fin opc d) c =
    (None, c\<lparr>sent := sent c @ frame_wire (dataFrame c fin opc d) key, rnd := r'\<rparr>)"
  using assms writeFrame_ok [of c deflate "dataFrame c fin opc d"]
  by (auto simp: plain_writer_def compressFrame_def)

text \<open>
  What \<^verbatim>\<open>WriteFragmented\<close> is to send: the data cut into pieces, the first under the message's
  opcode, the others as continuations, the last one final.
\<close>

function chunks :: "nat \<Rightarrow> 'a list \<Rightarrow> 'a list list" where
  "chunks n xs = (if n = 0 \<or> xs = [] then [] else take n xs # chunks n (drop n xs))"
  by pat_completeness auto
termination
  by (relation "measure (\<lambda>(n, xs). length xs)") auto

declare chunks.simps [simp del]

lemma chunks_Nil [simp]: "chunks n [] = []"
  by (simp add: chunks.simps)

lemma chunks_eq_Nil_iff: "0 < n \<Longrightarrow> chunks n xs = [] \<longleftrightarrow> xs = []"
  by (simp add: chunks.simps)

lemma concat_chunks: "0 < n \<Longrightarrow> concat (chunks n xs) = xs"
proof (induction n xs rule: chunks.induct)
  case (1 n xs)
  then show ?case by (subst chunks.simps) auto
qed

lemma length_chunk: "x \<in> set (chunks n xs) \<Longrightarrow> length x \<le> n \<and> length x \<le> length xs"
proof (induction n xs rule: chunks.induct)
  case (1 n xs)
  show ?case
  proof (cases "x = take n xs")
    case False
    with 1 show ?thesis by (force simp: chunks.simps [of n xs] split: if_splits)
  qed simp
qed

fun fragFrames :: "'a conn_scheme \<Rightarrow> byte \<Rightarrow> byte list list \<Rightarrow> Frame list" where
  "fragFrames c opc [] = []"
| "fragFrames c opc [x] = [dataFrame c True opc x]"
| "fragFrames c opc (x # y # xs) =
     dataFrame c False opc x # fragFrames c OpcodeContinuation (y # xs)"

definition keyed_wire :: "Frame list \<Rightarrow> byte list list \<Rightarrow> byte list" where
  "keyed_wire fs keys = concat (map2 frame_wire fs keys)"

definition keys_for :: "Frame list \<Rightarrow> byte list list \<Rightarrow> bool" where
  "keys_for fs keys \<longleftrightarrow> length keys = length fs \<and> (\<forall>k \<in> set keys. length k = 4)"

lemma keyed_wire_Cons [simp]: "keyed_wire (f # fs) (k # ks) = frame_wire f k @ keyed_wire fs ks"
  by (simp add: keyed_wire_def)

lemma keyed_wire_Nil [simp]: "keyed_wire [] ks = []"
  by (simp add: keyed_wire_def)

lemma keys_for_Nil [simp]: "keys_for [] ks \<longleftrightarrow> ks = []"
  by (auto simp: keys_for_def)

lemma keys_for_Cons: "keys_for (f # fs) ks \<longleftrightarrow> (\<exists>k ks'. ks = k # ks' \<and> length k = 4 \<and> keys_for fs ks')"
  by (cases ks) (auto simp: keys_for_def)

subsection \<open>The loop of WriteFragmented sends these frames\<close>

lemma fragFrames_cong:
  "isClient c' = isClient c \<Longrightarrow> fragFrames c' opc cs = fragFrames c opc cs"
  by (induction c opc cs rule: fragFrames.induct) (auto simp: dataFrame_def)

lemma writeFragmentLoop_sends:
  assumes "0 < n" and "plain_writer c" and "i = int (length data) - int (length xs)"
    and "xs = drop (nat i) data" and "length xs \<le> length data"
    and "opc = (if i > 0 then OpcodeContinuation else word_of_int mt)"
  shows "\<exists>keys r'. keys_for (fragFrames c opc (chunks n xs)) keys \<and>
    writeFragmentLoop deflate mt data (int n) i c =
      Some (Returned None, c\<lparr>sent := sent c @ keyed_wire (fragFrames c opc (chunks n xs)) keys, rnd := r'\<rparr>)"
  using assms
proof (induction n xs arbitrary: c i opc rule: chunks.induct)
  case (1 n xs)
  show ?case
  proof (cases "xs = []")
    case True
    with 1(4) have "writeFragmentLoop deflate mt data (int n) i c = Some (Returned None, c)"
      by (subst writeFragmentLoop.simps) simp
    with True show ?thesis
      by (intro exI [of _ "[]"] exI [of _ "rnd c"]) simp
  next
    case False
    let ?stop = "min (i + int n) (int (length data))"
    let ?last = "length xs \<le> n"
    have i: "0 \<le> i" "i < int (length data)" and len: "length xs = length data - nat i"
      using 1(4,6) False by (auto simp: length_greater_0_conv [symmetric] simp del: length_greater_0_conv)
    have fin: "(?stop = int (length data)) = ?last"
      using 1(4) i by auto
    have forward: "\<not> ?stop < i" using i by simp
    have piece: "take (nat (?stop - i)) (drop (nat i) data) = take n xs"
    proof (cases ?last)
      case True
      then have "nat (?stop - i) = length xs" using 1(4) by auto
      with True 1(5) show ?thesis by simp
    next
      case notlast: False
      then have "nat (?stop - i) = n" using 1(4) by auto
      with 1(5) show ?thesis by simp
    qed
    obtain key r' where key: "length key = 4" and w: "writeFrame deflate (dataFrame c ?last opc (take n xs)) c =
        (None, c\<lparr>sent := sent c @ frame_wire (dataFrame c ?last opc (take n xs)) key, rnd := r'\<rparr>)"
      using write_dataFrame [OF 1(3)] by blast
    let ?c = "c\<lparr>sent := sent c @ frame_wire (dataFrame c ?last opc (take n xs)) key, rnd := r'\<rparr>"
    have step: "writeFragmentLoop deflate mt data (int n) i c =
        writeFragmentLoop deflate mt data (int n) (i + int n) ?c"
      unfolding writeFragmentLoop.simps [of deflate mt data "int n" i c] Let_def fin piece
        1(7) [symmetric]
      using i w forward by simp
    have plain: "plain_writer ?c"
      using 1(3) by (simp add: plain_writer_def)
    show ?thesis
    proof (cases ?last)
      case True
      then have "writeFragmentLoop deflate mt data (int n) (i + int n) ?c = Some (Returned None, ?c)"
        using 1(4) by (subst writeFragmentLoop.simps) simp
      moreover have "chunks n xs = [take n xs]"
        using True False 1(2) by (simp add: chunks.simps)
      ultimately show ?thesis
        using step key True by (intro exI [of _ "[key]"] exI [of _ r']) (simp add: keys_for_Cons)
    next
      case notlast: False
      have "drop n xs \<noteq> []" using notlast by simp
      then obtain y ys where ys: "chunks n (drop n xs) = y # ys"
        using chunks_eq_Nil_iff [OF 1(2)] by (metis neq_Nil_conv)
      have cs: "chunks n xs = take n xs # y # ys"
        using ys False 1(2) by (subst chunks.simps) simp
      have "\<exists>keys r''. keys_for (fragFrames ?c OpcodeContinuation (chunks n (drop n xs))) keys \<and>
          writeFragmentLoop deflate mt data (int n) (i + int n) ?c =
            Some (Returned None, ?c\<lparr>sent := sent ?c @
              keyed_wire (fragFrames ?c OpcodeContinuation (chunks n (drop n xs))) keys, rnd := r''\<rparr>)"
      proof (rule 1(1))
        show "i + int n = int (length data) - int (length (drop n xs))"
          using 1(4) notlast by simp
        show "drop n xs = drop (nat (i + int n)) data"
          using 1(5) i by (simp add: nat_add_distrib add.commute)
      qed (use 1(2,6) False i plain in auto)
      then obtain keys r'' where ks: "keys_for (fragFrames ?c OpcodeContinuation (y # ys)) keys"
        and loop: "writeFragmentLoop deflate mt data (int n) (i + int n) ?c =
            Some (Returned None, ?c\<lparr>sent := sent ?c @
              keyed_wire (fragFrames ?c OpcodeContinuation (y # ys)) keys, rnd := r''\<rparr>)"
        unfolding ys by blast
      have same: "fragFrames ?c OpcodeContinuation (y # ys) = fragFrames c OpcodeContinuation (y # ys)"
        by (rule fragFrames_cong) simp
      show ?thesis
        using step loop ks key notlast unfolding same cs
        by (intro exI [of _ "key # keys"] exI [of _ r'']) (simp add: keys_for_Cons)
    qed
  qed
qed


subsection \<open>ReadMessage puts fragments together\<close>

lemma readMessageLoop_fragments:
  assumes "cs \<noteq> []" and "peers c p" and "keys_for (fragFrames c opc cs) keys"
    and "opc = OpcodeContinuation \<and> mt \<noteq> 0 \<or> opc = OpcodeText \<and> mt' = 1 \<or> opc = OpcodeBinary \<and> mt' = 2"
    and "opc = OpcodeContinuation \<Longrightarrow> mt' = mt"
    and "\<forall>x \<in> set cs. int (length x) \<le> MaxFrameSize (config p) \<and> length x < 2 ^ 63"
    and "int (length (buf @ concat cs)) \<le> MaxMessageSize (config p)"
  shows "readMessageLoop p mt buf \<lparr>rbytes = keyed_wire (fragFrames c opc cs) keys @ rest, rerr = e\<rparr> =
    (Inr (mt', buf @ concat cs), \<lparr>rbytes = rest, rerr = e\<rparr>)"
  using assms
proof (induction c opc cs arbitrary: mt buf keys rule: fragFrames.induct)
  case (1 c opc)
  then show ?case by simp
next
  case (2 c opc x)
  from 2(3) obtain k where k: "keys = [k]" "length k = 4"
    by (auto simp: keys_for_Cons)
  have ok: "readable p (dataFrame c True opc x)"
    using 2(2,4,6) by (auto simp: readable_dataFrame isValidOpcode_def)
  from 2(4,5) consider "opc = OpcodeContinuation" "mt \<noteq> 0" "mt' = mt"
    | "opc = OpcodeText" "mt' = 1" | "opc = OpcodeBinary" "mt' = 2" by blast
  then show ?case
    using 2(7) readMessageLoop_wire [OF ok k(2)] by cases (simp_all add: k opcode_defs)
next
  case (3 c opc x y xs)
  from 3(4) obtain k ks where k: "keys = k # ks" "length k = 4"
    and ks: "keys_for (fragFrames c OpcodeContinuation (y # xs)) ks"
    by (auto simp: keys_for_Cons)
  have ok: "readable p (dataFrame c False opc x)"
    using 3(3,5,7) by (auto simp: readable_dataFrame isValidOpcode_def)
  from 3(5,6) consider "opc = OpcodeContinuation" "mt \<noteq> 0" "mt' = mt"
    | "opc = OpcodeText" "mt' = 1" | "opc = OpcodeBinary" "mt' = 2" by blast
  then have "readMessageLoop p mt buf
      \<lparr>rbytes = keyed_wire (fragFrames c opc (x # y # xs)) keys @ rest, rerr = e\<rparr> =
    readMessageLoop p mt' (buf @ x)
      \<lparr>rbytes = keyed_wire (fragFrames c OpcodeContinuation (y # xs)) ks @ rest, rerr = e\<rparr>"
    using 3(8) readMessageLoop_wire [OF ok k(2)] by cases (simp_all add: k opcode_defs)
  also have "\<dots> = (Inr (mt', (buf @ x) @ concat (y # xs)), \<lparr>rbytes = rest, rerr = e\<rparr>)"
  proof (rule 3(1))
    show "mt' = mt'" ..
    show "OpcodeContinuation = OpcodeContinuation \<and> mt' \<noteq> 0 \<or>
      OpcodeContinuation = OpcodeText \<and> mt' = 1 \<or> OpcodeContinuation = OpcodeBinary \<and> mt' = 2"
      using 3(5,6) by auto
  qed (use 3(3,7,8) ks in auto)
  finally show ?case by simp
qed


definition demo_client :: conn where
  "demo_client = demo_conn\<lparr>isServer := False, isClient := True\<rparr>"





section \<open>Limits and errors of ReadMessage\<close>

lemma readMessageLoop_bounds:
  assumes "readMessageLoop c mt buf r = (Inr (t, data), r')" and "mt \<in> {0, 1, 2}"
  shows "(t \<in> {1, 2} \<and> int (length data) \<le> MaxMessageSize (config c)) \<or>
    (t \<in> {8, 9, 10} \<and> (data = [] \<or> int (length data) \<le> MaxFrameSize (config c)))"
  using assms
proof (induction c mt buf r rule: readMessageLoop.induct)
  case (1 c mt buf r)
  obtain res r1 where rf: "readFrame c r = (res, r1)" by fastforce
  show ?case
  proof (cases res)
    case (Inl e)
    with rf "1.prems" show ?thesis by (subst (asm) readMessageLoop.simps) simp
  next
    case (Inr f)
    with rf have f: "readFrame c r = (Inr f, r1)" by simp
    note ok = readFrame_valid [OF f]
    from ok have "isValidOpcode (Opcode f)" by simp
    then consider (control) "Opcode f \<in> {8, 9, 10}" | (cont) "Opcode f = 0"
      | (data) "Opcode f \<in> {1, 2}"
      by (elim isValidOpcode_cases) simp_all
    then show ?thesis
    proof cases
      case control
      with "1.prems" f ok show ?thesis
        by (subst (asm) readMessageLoop.simps) auto
    next
      case cont
      show ?thesis
      proof (cases "mt = 0 \<or> MaxMessageSize (config c) < int (length (buf @ Payload f)) \<or> FIN f")
        case True
        with "1.prems" f cont show ?thesis
          by (subst (asm) readMessageLoop.simps) (auto simp: opcode_defs Let_def split: if_splits)
      next
        case False
        with "1.prems" f cont have "readMessageLoop c mt (buf @ Payload f) r1 = (Inr (t, data), r')"
          by (subst (asm) readMessageLoop.simps) (simp add: opcode_defs)
        with False cont "1.prems"(2) show ?thesis
          using "1.IH" [OF f [symmetric] refl _ _ refl refl] by (simp add: opcode_defs)
      qed
    next
      case data
      show ?thesis
      proof (cases "MaxMessageSize (config c) < int (length (buf @ Payload f)) \<or> FIN f")
        case True
        with "1.prems" f data show ?thesis
          by (subst (asm) readMessageLoop.simps) (auto simp: opcode_defs Let_def split: if_splits)
      next
        case False
        with "1.prems" f data have
          "readMessageLoop c (int (unat (Opcode f))) (buf @ Payload f) r1 = (Inr (t, data), r')"
          by (subst (asm) readMessageLoop.simps) (auto simp: opcode_defs)
        with False data show ?thesis
          using "1.IH" [OF f [symmetric] refl _ _ refl refl] by (auto simp: opcode_defs)
      qed
    qed
  qed
qed

text \<open>
  \<^verbatim>\<open>ReadMessage\<close> on any bytes: a result is either a text or binary message of at most
  \<^verbatim>\<open>MaxMessageSize\<close> bytes or a close, ping or pong frame with at most \<^verbatim>\<open>MaxFrameSize\<close> bytes.
\<close>

theorem ReadMessage_bounds:
  assumes "ReadMessage c r = (Inr (t, data), r')"
  shows "(t \<in> {TextMessage, BinaryMessage} \<and> int (length data) \<le> MaxMessageSize (config c)) \<or>
    (t \<in> {CloseMessage, PingMessage, PongMessage} \<and>
     (data = [] \<or> int (length data) \<le> MaxFrameSize (config c)))"
  using assms readMessageLoop_bounds [of c 0 "[]" r t data r']
  by (auto simp: ReadMessage_def message_type_defs split: if_splits)

theorem ReadMessage_bounds_witness:
  "(TextMessage \<in> {TextMessage, BinaryMessage} \<and>
      int (length [72 :: byte, 105]) \<le> MaxMessageSize (config demo_conn)) \<or>
    (TextMessage \<in> {CloseMessage, PingMessage, PongMessage} \<and>
     ([72 :: byte, 105] = [] \<or> int (length [72 :: byte, 105]) \<le> MaxFrameSize (config demo_conn)))"
proof -
  have "readable demo_conn demo_frame"
    by (simp add: demo_defs readable_def mask_ok_def isValidOpcode_def)
  from readMessageLoop_wire [OF this, of "[1, 2, 3, 4]" 0 "[]" "[]" EOF]
  have "ReadMessage demo_conn \<lparr>rbytes = frame_wire demo_frame [1, 2, 3, 4], rerr = EOF\<rparr> =
      (Inr (TextMessage, [72, 105]), \<lparr>rbytes = [], rerr = EOF\<rparr>)"
    by (simp add: ReadMessage_def demo_defs message_type_defs opcode_defs)
  then show ?thesis by (rule ReadMessage_bounds)
qed

text \<open>
  A control frame inside a fragmented message destroys the message. RFC 6455 lets a peer send a
  ping between two fragments; \<^verbatim>\<open>ReadMessage\<close> then returns the ping, forgets the fragment it had
  read, and the next call fails with \<^verbatim>\<open>ErrInvalidFrame\<close> on the continuation that completes the
  message.
\<close>

theorem ReadMessage_interleaved_control:
  assumes "\<not> closed c"
    and "readable c f1" and "unat (Opcode f1) \<in> {1, 2}" and "\<not> FIN f1"
    and "int (length (Payload f1)) \<le> MaxMessageSize (config c)"
    and "readable c ctl" and "unat (Opcode ctl) \<ge> 8"
    and "readable c f2" and "Opcode f2 = OpcodeContinuation"
    and "length k1 = 4" and "length k2 = 4" and "length k3 = 4"
  shows "\<exists>r1. ReadMessage c
        \<lparr>rbytes = frame_wire f1 k1 @ frame_wire ctl k2 @ frame_wire f2 k3 @ rest, rerr = e\<rparr> =
      (Inr (int (unat (Opcode ctl)), Payload ctl), r1) \<and>
    ReadMessage c r1 = (Inl ErrInvalidFrame, \<lparr>rbytes = rest, rerr = e\<rparr>)"
proof -
  have op1: "Opcode f1 \<noteq> OpcodeContinuation" "\<not> unat (Opcode f1) \<ge> 8"
    using assms(3) by (auto simp: opcode_defs)
  have op2: "\<not> unat (Opcode f2) \<ge> 8"
    using assms(9) by (simp add: opcode_defs)
  show ?thesis
    using assms op1 op2 by (simp add: ReadMessage_def readMessageLoop_wire)
qed

theorem ReadMessage_interleaved_control_witness:
  "\<exists>r1. ReadMessage demo_conn
        \<lparr>rbytes = frame_wire (demo_frame\<lparr>FIN := False\<rparr>) [1, 2, 3, 4] @
           frame_wire (demo_frame\<lparr>Opcode := OpcodePing\<rparr>) [1, 2, 3, 4] @
           frame_wire (demo_frame\<lparr>Opcode := OpcodeContinuation\<rparr>) [1, 2, 3, 4] @ [], rerr = EOF\<rparr> =
      (Inr (int (unat (Opcode (demo_frame\<lparr>Opcode := OpcodePing\<rparr>))),
            Payload (demo_frame\<lparr>Opcode := OpcodePing\<rparr>)), r1) \<and>
    ReadMessage demo_conn r1 = (Inl ErrInvalidFrame, \<lparr>rbytes = [], rerr = EOF\<rparr>)"
  by (rule ReadMessage_interleaved_control)
    (simp_all add: demo_defs readable_def mask_ok_def isValidOpcode_def opcode_defs)

section \<open>Fragment sizes that do not work\<close>

lemma writeFragmentLoop_zero:
  assumes "writeFragmentLoop deflate mt data fs i c = Some res"
  shows "\<not> (fs = 0 \<and> werr c = None \<and> 0 \<le> i \<and> i < int (length data))"
proof (rule writeFragmentLoop.raw_induct
    [where P = "\<lambda>deflate mt data fs i c res. \<not> (fs = 0 \<and> werr c = None \<and> 0 \<le> i \<and> i < int (length data))",
     OF _ assms])
  fix loop and deflate :: "byte list \<Rightarrow> byte list" and mt data fs i and c :: "'a conn_scheme" and res
  assume IH: "\<And>deflate mt data fs i (c :: 'a conn_scheme) res. loop deflate mt data fs i c = Some res \<Longrightarrow>
      \<not> (fs = 0 \<and> werr c = None \<and> 0 \<le> i \<and> i < int (length data))"
    and eq: "(if i < int (length data) then
        (let end = min (i + fs) (int (length data))
         in if end < i then Some (Panicked, c)
            else case writeFrame deflate
                   (dataFrame c (end = int (length data))
                      (if i > 0 then OpcodeContinuation else word_of_int mt)
                      (take (nat (end - i)) (drop (nat i) data))) c of
                   (Some err, c') \<Rightarrow> Some (Returned (Some err), c')
                 | (None, c') \<Rightarrow> loop deflate mt data fs (i + fs) c')
      else Some (Returned None, c)) = Some res"
  show "\<not> (fs = 0 \<and> werr c = None \<and> 0 \<le> i \<and> i < int (length data))"
  proof
    assume bad: "fs = 0 \<and> werr c = None \<and> 0 \<le> i \<and> i < int (length data)"
    let ?f = "dataFrame c (i = int (length data)) (if i > 0 then OpcodeContinuation else word_of_int mt)
        (take (nat (i - i)) (drop (nat i) data))"
    obtain key r' where "writeFrame deflate ?f c =
        (None, c\<lparr>sent := sent c @ frame_wire (compressFrame deflate c ?f) key, rnd := r'\<rparr>)"
      using writeFrame_ok [of c deflate ?f] bad by auto
    with eq bad have "loop deflate mt data fs i
        (c\<lparr>sent := sent c @ frame_wire (compressFrame deflate c ?f) key, rnd := r'\<rparr>) = Some res"
      by simp
    from IH [OF this] bad show False by simp
  qed
qed

text \<open>
  \<^verbatim>\<open>WriteFragmented\<close> with fragment size 0 never returns on a working connection (it writes
  empty frames for ever), and with a negative fragment size it panics before it has written
  anything. Neither is refused.
\<close>

theorem WriteFragmented_bad_size:
  assumes "data \<noteq> []" and "werr c = None" and "\<not> fragmentedWriteInProgress c"
  shows "WriteFragmented deflate mt data 0 c = None \<and>
    (\<forall>fs < 0. \<exists>c'. WriteFragmented deflate mt data fs c = Some (Panicked, c') \<and> sent c' = sent c)"
proof
  have "writeFragmentLoop deflate mt data 0 0 (c\<lparr>fragmentedWriteInProgress := True\<rparr>) = None"
    using writeFragmentLoop_zero [of deflate mt data 0 0 "c\<lparr>fragmentedWriteInProgress := True\<rparr>"] assms
    by (cases "writeFragmentLoop deflate mt data 0 0 (c\<lparr>fragmentedWriteInProgress := True\<rparr>)") auto
  with assms show "WriteFragmented deflate mt data 0 c = None"
    by (simp add: WriteFragmented_def)
  show "\<forall>fs < 0. \<exists>c'. WriteFragmented deflate mt data fs c = Some (Panicked, c') \<and> sent c' = sent c"
    using assms by (auto simp: WriteFragmented_def writeFragmentLoop.simps [of _ _ _ _ 0])
qed

theorem WriteFragmented_bad_size_witness:
  "WriteFragmented id TextMessage [72, 105] 0 demo_client = None \<and>
    (\<exists>c'. WriteFragmented id TextMessage [72, 105] (-1) demo_client = Some (Panicked, c') \<and>
       sent c' = sent demo_client)"
proof -
  have "WriteFragmented id TextMessage [72, 105] 0 demo_client = None \<and>
    (\<forall>fs < 0. \<exists>c'. WriteFragmented id TextMessage [72, 105] fs demo_client = Some (Panicked, c') \<and>
       sent c' = sent demo_client)"
    by (rule WriteFragmented_bad_size) (simp_all add: demo_client_def demo_defs)
  then show ?thesis by simp
qed

text \<open>For a positive size the loop returns: its counter grows, whatever the writes report.\<close>

lemma writeFragmentLoop_returns:
  "0 < fs \<Longrightarrow> \<exists>err c'. writeFragmentLoop deflate mt data fs i c = Some (Returned err, c')"
proof (induction "nat (int (length data) - i)" arbitrary: i c rule: less_induct)
  case less
  show ?case
  proof (cases "i < int (length data)")
    case True
    let ?stop = "min (i + fs) (int (length data))"
    obtain err c' where w: "writeFrame deflate (dataFrame c (?stop = int (length data))
        (if i > 0 then OpcodeContinuation else word_of_int mt) (take (nat (?stop - i)) (drop (nat i) data))) c = (err, c')"
      by (cases "writeFrame deflate (dataFrame c (?stop = int (length data))
        (if i > 0 then OpcodeContinuation else word_of_int mt) (take (nat (?stop - i)) (drop (nat i) data))) c")
    have "nat (int (length data) - (i + fs)) < nat (int (length data) - i)" using True less.prems by simp
    from less.hyps [OF this less.prems, of c'] True less.prems w show ?thesis
      by (subst writeFragmentLoop.simps) (auto simp: Let_def split: option.split)
  qed (subst writeFragmentLoop.simps, simp)
qed

text \<open>
  C4. When \<^verbatim>\<open>WriteFragmented\<close> comes back, for any connection, data and fragment size. It runs for ever exactly if the
  size is 0, there is something to send, the transport takes it, and no other fragmented write is in progress; it
  panics exactly if the size is negative and there is something to send. In all other cases it returns, with an error or without.
\<close>

theorem WriteFragmented_returns:
  "(WriteFragmented deflate mt data fs c = None \<longleftrightarrow>
      fs = 0 \<and> data \<noteq> [] \<and> werr c = None \<and> \<not> fragmentedWriteInProgress c) \<and>
   ((\<exists>c'. WriteFragmented deflate mt data fs c = Some (Panicked, c')) \<longleftrightarrow>
      fs < 0 \<and> data \<noteq> [] \<and> \<not> fragmentedWriteInProgress c)"
proof -
  let ?c = "c\<lparr>fragmentedWriteInProgress := True\<rparr>"
  consider "data = []" | "data \<noteq> []" "0 < fs" | "data \<noteq> []" "fs < 0" | "data \<noteq> []" "fs = 0" "werr c = None"
    | e where "data \<noteq> []" "fs = 0" "werr c = Some e" by (cases "werr c"; cases fs "0 :: int" rule: linorder_cases) auto
  then show ?thesis
  proof cases
    case 1
    then show ?thesis by (simp add: WriteFragmented_def writeFragmentLoop.simps)
  next
    case 2
    then show ?thesis using writeFragmentLoop_returns [of fs deflate mt data 0 ?c] by (auto simp: WriteFragmented_def)
  next
    case 3
    then show ?thesis by (simp add: WriteFragmented_def writeFragmentLoop.simps [of _ _ _ _ 0])
  next
    case 4
    then have "writeFragmentLoop deflate mt data fs 0 ?c = None"
      using writeFragmentLoop_zero [of deflate mt data fs 0 ?c] by (cases "writeFragmentLoop deflate mt data fs 0 ?c") auto
    then show ?thesis using 4 by (simp add: WriteFragmented_def)
  next
    case 5
    have "\<exists>r'. writeFrame deflate f ?c = (Some (ErrIO e), ?c\<lparr>rnd := r'\<rparr>)" for f
      using 5 by (intro writeFrame_err) simp
    then obtain r' where "writeFrame deflate (dataFrame ?c (0 = int (length data)) (word_of_int mt) []) ?c = (Some (ErrIO e), ?c\<lparr>rnd := r'\<rparr>)"
      by blast
    then show ?thesis using 5 by (simp add: WriteFragmented_def writeFragmentLoop.simps [of _ _ _ _ 0])
  qed
qed

end
