(* ===== verification/WsConn.thy ===== *)
theory WsConn
  imports WsMessage
begin

text \<open>
  The life of a connection in \<^verbatim>\<open>websocket/websocket.go\<close>: \<^verbatim>\<open>close\<close>, the handler fields and their
  defaults, \<^verbatim>\<open>Conn.handleConnection\<close>, \<^verbatim>\<open>On\<close> and \<^verbatim>\<open>Emit\<close>, and the keep-alive goroutine as a step
  relation beside the message loop. The message loop is proved to be a fold of a dispatcher over
  the messages on the wire; the default handlers are proved to answer pings and to echo the close
  frame; the keep-alive goroutine is proved to close a silent peer, and to hang for ever when the
  connection ends while it waits for a pong.
\<close>

section \<open>Closing\<close>

definition isClosed :: "'a conn_scheme \<Rightarrow> bool" where
  "isClosed c = closed c"

definition net_closed :: io_error where
  "net_closed = NetErr ''use of closed network connection''"

text \<open>
  \<^verbatim>\<open>close\<close>: the first call marks the connection, tries to send a close frame (whose error it drops)
  and closes the transport, whose error it returns; every later call does nothing. From then on a
  write fails, with the transport's error or with the one it had already.
\<close>

definition closeConn ::
  "(byte list \<Rightarrow> byte list) \<Rightarrow> CloseCode \<Rightarrow> string \<Rightarrow> 'a conn_scheme \<Rightarrow>
   ws_error option \<times> 'a conn_scheme" where
  "closeConn deflate code reason c =
     (if closed c then (None, c)
      else let c' = c\<lparr>closed := True, closeReason := code, closeText := reason\<rparr>;
               (_, c'') = WriteClose deflate code reason c'
           in (map_option ErrIO (nclose c''),
               c''\<lparr>werr := Some (case werr c'' of None \<Rightarrow> net_closed | Some e \<Rightarrow> e)\<rparr>))"

definition Close ::
  "(byte list \<Rightarrow> byte list) \<Rightarrow> 'a conn_scheme \<Rightarrow> ws_error option \<times> 'a conn_scheme" where
  "Close deflate = closeConn deflate CloseNormalClosure []"

definition closeFrame :: "'a conn_scheme \<Rightarrow> CloseCode \<Rightarrow> string \<Rightarrow> Frame" where
  "closeFrame c code reason = dataFrame c True OpcodeClose (closePayload code reason)"

lemma WriteClose_ok:
  assumes "werr c = None"
  shows "\<exists>key r'. length key = 4 \<and> WriteClose deflate code reason c =
    (None, c\<lparr>sent := sent c @ frame_wire (closeFrame c code reason) key, rnd := r'\<rparr>)"
  using writeFrame_ok [OF assms, of deflate "closeFrame c code reason"]
  by (auto simp: WriteClose_def closeFrame_def compressFrame_def opcode_defs)

lemma closeConn_effect:
  "closed (snd (closeConn deflate code reason c))"
  "config (snd (closeConn deflate code reason c)) = config c"
  "isServer (snd (closeConn deflate code reason c)) = isServer c"
  "isClient (snd (closeConn deflate code reason c)) = isClient c"
  "pongCh (snd (closeConn deflate code reason c)) = pongCh c"
proof -
  let ?c = "c\<lparr>closed := True, closeReason := code, closeText := reason\<rparr>"
  have "\<exists>s r'. snd (WriteClose deflate code reason ?c) = ?c\<lparr>sent := s, rnd := r'\<rparr>"
  proof (cases "werr c")
    case None
    then show ?thesis using WriteClose_ok [of ?c deflate code reason] by fastforce
  next
    case (Some e)
    then obtain r' where "WriteClose deflate code reason ?c = (Some (ErrIO e), ?c\<lparr>rnd := r'\<rparr>)"
      using writeFrame_err [of ?c e] unfolding WriteClose_def by fastforce
    then show ?thesis by (intro exI [of _ "sent c"] exI [of _ r']) simp
  qed
  then show "closed (snd (closeConn deflate code reason c))"
    "config (snd (closeConn deflate code reason c)) = config c"
    "isServer (snd (closeConn deflate code reason c)) = isServer c"
    "isClient (snd (closeConn deflate code reason c)) = isClient c"
    "pongCh (snd (closeConn deflate code reason c)) = pongCh c"
    by (auto simp: closeConn_def split: prod.splits)
qed

lemma closeConn_open:
  assumes "\<not> closed c" and "werr c = None"
  shows "\<exists>key r'. length key = 4 \<and> closeConn deflate code reason c =
    (map_option ErrIO (nclose c),
     c\<lparr>closed := True, closeReason := code, closeText := reason,
       sent := sent c @ frame_wire (closeFrame c code reason) key, rnd := r', werr := Some net_closed\<rparr>)"
proof -
  let ?c = "c\<lparr>closed := True, closeReason := code, closeText := reason\<rparr>"
  have "closeFrame ?c code reason = closeFrame c code reason"
    by (simp add: closeFrame_def dataFrame_def)
  moreover obtain key r' where "length key = 4" and "WriteClose deflate code reason ?c =
      (None, ?c\<lparr>sent := sent ?c @ frame_wire (closeFrame ?c code reason) key, rnd := r'\<rparr>)"
    using WriteClose_ok [of ?c deflate code reason] assms by auto
  ultimately show ?thesis
    using assms by (intro exI [of _ key] exI [of _ r']) (simp add: closeConn_def)
qed

lemma write_after_close:
  assumes "werr c = Some e"
  shows "sent (snd (writeFrame deflate f c)) = sent c" and "werr (snd (writeFrame deflate f c)) = Some e"
    and "fst (writeFrame deflate f c) = Some (ErrIO e)"
  using writeFrame_err [OF assms, of deflate f] assms by auto

lemma closeConn_werr: "\<not> closed c \<Longrightarrow> werr (snd (closeConn deflate code reason c)) \<noteq> None"
  by (simp add: closeConn_def split: prod.splits)

text \<open>
  C29. A connection closes once. The first \<^verbatim>\<open>close\<close> sends one close frame carrying its code and
  reason and remembers both; any later \<^verbatim>\<open>close\<close>, with whatever code, changes nothing, and every
  later write of the API returns an error and puts no byte on the wire.
\<close>

theorem close_once:
  assumes "\<not> closed c" and "werr c = None"
  shows "\<exists>key c1. length key = 4 \<and>
    closeConn deflate code reason c = (map_option ErrIO (nclose c), c1) \<and>
    sent c1 = sent c @ frame_wire (closeFrame c code reason) key \<and>
    closed c1 \<and> closeReason c1 = code \<and> closeText c1 = reason \<and>
    (\<forall>code' reason'. closeConn deflate code' reason' c1 = (None, c1)) \<and>
    (\<forall>mt data. WriteMessage deflate mt data c1 = (Some ErrConnectionClosed, c1)) \<and>
    (\<forall>w data. w \<in> {WritePing deflate, WritePong deflate, (\<lambda>d. WriteClose deflate 1000 (string_of d))} \<longrightarrow>
       fst (w data c1) = Some (ErrIO net_closed) \<and> sent (snd (w data c1)) = sent c1)"
proof -
  obtain key r' where key: "length key = 4"
    and cl: "closeConn deflate code reason c = (map_option ErrIO (nclose c),
       c\<lparr>closed := True, closeReason := code, closeText := reason,
         sent := sent c @ frame_wire (closeFrame c code reason) key, rnd := r', werr := Some net_closed\<rparr>)"
      (is "_ = (_, ?c1)")
    using closeConn_open [OF assms] by blast
  have err: "werr ?c1 = Some net_closed" by simp
  from key cl show ?thesis
    by (intro exI [of _ key] exI [of _ ?c1])
      (auto simp: closeConn_def WriteMessage_def WritePing_def WritePong_def WriteClose_def
        write_after_close [OF err])
qed

theorem close_once_witness:
  "\<exists>key c1. length key = 4 \<and>
    closeConn id CloseGoingAway ''bye'' demo_conn = (None, c1) \<and>
    sent c1 = frame_wire (closeFrame demo_conn CloseGoingAway ''bye'') key \<and>
    closed c1 \<and> closeReason c1 = CloseGoingAway \<and> closeText c1 = ''bye'' \<and>
    (\<forall>code' reason'. closeConn id code' reason' c1 = (None, c1)) \<and>
    fst (WritePing id [] c1) = Some (ErrIO net_closed) \<and> sent (snd (WritePing id [] c1)) = sent c1"
proof -
  have pre: "\<not> closed demo_conn" "werr demo_conn = None" "nclose demo_conn = None" "sent demo_conn = []"
    by (simp_all add: demo_defs)
  from close_once [OF pre(1,2), of id CloseGoingAway "''bye''"] show ?thesis
    unfolding pre(3,4) by (simp only: option.map append_Nil) blast
qed

section \<open>Handlers\<close>

text \<open>
  The handler fields of \<^verbatim>\<open>Conn\<close>. A handler gets the connection and may change it (its own state
  lies behind the record's \<open>more\<close> part); a field that was never set is \<^const>\<open>None\<close>. Handlers do
  not get at the reader, which only the message loop uses.
\<close>

record 'c handlers =
  onOpen :: "('c \<Rightarrow> 'c) option"
  onMessage :: "(MessageType \<Rightarrow> byte list \<Rightarrow> 'c \<Rightarrow> 'c) option"
  onClose :: "(CloseCode \<Rightarrow> string \<Rightarrow> 'c \<Rightarrow> 'c) option"
  onError :: "(ws_error \<Rightarrow> 'c \<Rightarrow> 'c) option"
  onPing :: "(byte list \<Rightarrow> 'c \<Rightarrow> 'c) option"
  onPong :: "(byte list \<Rightarrow> 'c \<Rightarrow> 'c) option"

text \<open>\<open>sendPong\<close> is the default pong handler: the channel has one slot and a full one drops the signal.\<close>

definition signalPong :: "'a conn_scheme \<Rightarrow> 'a conn_scheme" where
  "signalPong c = (if pongCh c < 1 then c\<lparr>pongCh := pongCh c + 1\<rparr> else c)"

definition setDefaultHandlers ::
  "(byte list \<Rightarrow> byte list) \<Rightarrow> 'a conn_scheme handlers \<Rightarrow> 'a conn_scheme handlers" where
  "setDefaultHandlers deflate h = h\<lparr>
     onPing := Some (\<lambda>data c. snd (WritePong deflate data c)),
     onPong := Some (\<lambda>data c. signalPong c),
     onClose := Some (\<lambda>code reason c. snd (closeConn deflate code reason c)),
     onError := Some (\<lambda>err c. c)\<rparr>"

definition noHandlers :: "'c handlers" where
  "noHandlers = \<lparr>onOpen = None, onMessage = None, onClose = None, onError = None, onPing = None,
     onPong = None\<rparr>"

definition OnOpen :: "('c \<Rightarrow> 'c) \<Rightarrow> 'c handlers \<Rightarrow> 'c handlers" where
  "OnOpen f h = h\<lparr>onOpen := Some f\<rparr>"
definition OnMessage :: "(MessageType \<Rightarrow> byte list \<Rightarrow> 'c \<Rightarrow> 'c) \<Rightarrow> 'c handlers \<Rightarrow> 'c handlers" where
  "OnMessage f h = h\<lparr>onMessage := Some f\<rparr>"
definition OnClose :: "(CloseCode \<Rightarrow> string \<Rightarrow> 'c \<Rightarrow> 'c) \<Rightarrow> 'c handlers \<Rightarrow> 'c handlers" where
  "OnClose f h = h\<lparr>onClose := Some f\<rparr>"
definition OnError :: "(ws_error \<Rightarrow> 'c \<Rightarrow> 'c) \<Rightarrow> 'c handlers \<Rightarrow> 'c handlers" where
  "OnError f h = h\<lparr>onError := Some f\<rparr>"
definition OnPing :: "(byte list \<Rightarrow> 'c \<Rightarrow> 'c) \<Rightarrow> 'c handlers \<Rightarrow> 'c handlers" where
  "OnPing f h = h\<lparr>onPing := Some f\<rparr>"
definition OnPong :: "(byte list \<Rightarrow> 'c \<Rightarrow> 'c) \<Rightarrow> 'c handlers \<Rightarrow> 'c handlers" where
  "OnPong f h = h\<lparr>onPong := Some f\<rparr>"

definition opt_call :: "('a \<Rightarrow> 'c \<Rightarrow> 'c) option \<Rightarrow> 'a \<Rightarrow> 'c \<Rightarrow> 'c" where
  "opt_call f x c = (case f of None \<Rightarrow> c | Some g \<Rightarrow> g x c)"

section \<open>The message loop\<close>

text \<open>The payload of a received close frame.\<close>

definition parseClose :: "byte list \<Rightarrow> CloseCode \<times> string" where
  "parseClose data =
     (if length data \<ge> 2
      then (int (be_get (take 2 data)), if length data > 2 then string_of (drop 2 data) else [])
      else (CloseNormalClosure, []))"

definition handleControl ::
  "'a conn_scheme handlers \<Rightarrow> MessageType \<Rightarrow> byte list \<Rightarrow> 'a conn_scheme \<Rightarrow> 'a conn_scheme" where
  "handleControl h messageType data c =
     (if messageType = PingMessage then opt_call (onPing h) data c
      else if messageType = PongMessage then opt_call (onPong h) data c
      else if messageType = CloseMessage then
        (let (code, reason) = parseClose data in opt_call (map_option (\<lambda>f. f code) (onClose h)) reason c)
      else opt_call (map_option (\<lambda>f. f messageType) (onMessage h)) data c)"

lemma ReadMessage_shrinks:
  assumes "ReadMessage c r = (Inr m, r')"
  shows "length (rbytes r') < length (rbytes r)"
proof -
  have "readMessageLoop c mt buf r = (Inr m, r') \<Longrightarrow> length (rbytes r') < length (rbytes r)" for mt buf
  proof (induction c mt buf r rule: readMessageLoop.induct)
    case (1 c mt buf r)
    obtain res r1 where rf: "readFrame c r = (res, r1)" by fastforce
    show ?case
    proof (cases res)
      case (Inl e)
      with rf "1.prems" show ?thesis by (subst (asm) readMessageLoop.simps) simp
    next
      case (Inr f)
      with rf have f: "readFrame c r = (Inr f, r1)" by simp
      note less = readFrame_valid(4) [OF f]
      show ?thesis
        using "1.prems" f less "1.IH" [OF f [symmetric] refl _ _ refl refl]
        by (subst (asm) readMessageLoop.simps) (fastforce simp: Let_def split: if_splits)
    qed
  qed
  with assms show ?thesis by (auto simp: ReadMessage_def split: if_splits)
qed

text \<open>
  The loop of \<^verbatim>\<open>Conn.handleConnection\<close>. While \<^verbatim>\<open>ReadMessage\<close> waits, other goroutines may change
  the connection (the keep-alive may close it): \<open>env r\<close> is what they do during the wait that
  starts at \<open>r\<close>.
\<close>

function messageLoop ::
  "(breader \<Rightarrow> 'a conn_scheme \<Rightarrow> 'a conn_scheme) \<Rightarrow> 'a conn_scheme handlers \<Rightarrow>
   'a conn_scheme \<Rightarrow> breader \<Rightarrow> 'a conn_scheme \<times> breader" where
  "messageLoop env h c r =
     (if isClosed c then (c, r)
      else case ReadMessage c r of
        (Inl err, r') \<Rightarrow>
          (let c' = env r c in if isClosed c' then (c', r') else (opt_call (onError h) err c', r'))
      | (Inr (messageType, data), r') \<Rightarrow>
          (let c' = handleControl h messageType data (env r c)
           in if messageType = CloseMessage then (c', r') else messageLoop env h c' r'))"
  by pat_completeness auto
termination
  by (relation "measure (\<lambda>(env, h, c, r). length (rbytes r))") (auto dest: ReadMessage_shrinks [OF sym])

declare messageLoop.simps [simp del]

text \<open>
  \<^verbatim>\<open>startKeepAlive\<close> makes the ticker and the stop channel and starts the goroutine; \<^verbatim>\<open>cleanup\<close>, which
  runs when the loop ends, stops both timers and closes the channel.
\<close>

definition startKeepAlive :: "'a conn_scheme \<Rightarrow> 'a conn_scheme" where
  "startKeepAlive c =
     (if PingInterval (config c) \<le> 0 then c
      else c\<lparr>pingTicker := Some True, keepAliveStopCh := Some False, keepAlive := Idle\<rparr>)"

definition cleanup :: "'a conn_scheme \<Rightarrow> 'a conn_scheme" where
  "cleanup c = c\<lparr>pingTicker := map_option (\<lambda>_. False) (pingTicker c),
     pongTimer := map_option (\<lambda>_. False) (pongTimer c),
     keepAliveStopCh := map_option (\<lambda>_. True) (keepAliveStopCh c)\<rparr>"

definition handleConnection ::
  "(breader \<Rightarrow> 'a conn_scheme \<Rightarrow> 'a conn_scheme) \<Rightarrow> 'a conn_scheme handlers \<Rightarrow>
   'a conn_scheme \<Rightarrow> breader \<Rightarrow> 'a conn_scheme \<times> breader" where
  "handleConnection env h c r =
     (let c1 = (if EnablePingPong (config c) \<and> isServer c then startKeepAlive c else c);
          c2 = (case onOpen h of None \<Rightarrow> c1 | Some f \<Rightarrow> f c1);
          (c3, r') = messageLoop env h c2 r
      in (cleanup c3, r'))"

section \<open>The loop is a fold over the messages on the wire\<close>

text \<open>The role and the configuration of a connection never change.\<close>

definition same_role :: "'a conn_scheme \<Rightarrow> 'b conn_scheme \<Rightarrow> bool" where
  "same_role c c' \<longleftrightarrow> config c' = config c \<and> isServer c' = isServer c \<and> isClient c' = isClient c"

lemma same_role_trans: "same_role c c' \<Longrightarrow> same_role c' c'' \<Longrightarrow> same_role c c''"
  by (simp add: same_role_def)

lemma readFrame_same_role:
  assumes "same_role c c'"
  shows "readFrame c' = readFrame c"
proof -
  have eqs: "config c' = config c" "isServer c' = isServer c" "isClient c' = isClient c"
    using assms by (simp_all add: same_role_def)
  have "readBody c' = readBody c"
    unfolding readBody_def eqs ..
  then show ?thesis
    unfolding readFrame_def eqs by (rule arg_cong)
qed

lemma readMessageLoop_same_role:
  "same_role c c' \<Longrightarrow> readMessageLoop c' mt buf r = readMessageLoop c mt buf r"
proof (induction c mt buf r rule: readMessageLoop.induct)
  case (1 c mt buf r)
  have eq: "readFrame c' = readFrame c" "config c' = config c"
    using readFrame_same_role [OF "1.prems"] "1.prems" by (auto simp: same_role_def)
  obtain res r1 where rf: "readFrame c r = (res, r1)" by fastforce
  show ?case
  proof (cases res)
    case (Inl e)
    with rf eq show ?thesis
      unfolding readMessageLoop.simps [of c mt buf r] readMessageLoop.simps [of c' mt buf r] by simp
  next
    case (Inr f)
    with rf have f: "readFrame c r = (Inr f, r1)" by simp
    let ?mt = "if Opcode f = OpcodeContinuation then mt else int (unat (Opcode f))"
    show ?thesis
    proof (cases "unat (Opcode f) \<ge> 8 \<or> Opcode f = OpcodeContinuation \<and> mt = 0 \<or>
        int (length (buf @ Payload f)) > MaxMessageSize (config c) \<or> FIN f")
      case True
      with f eq show ?thesis
        unfolding readMessageLoop.simps [of c mt buf r] readMessageLoop.simps [of c' mt buf r]
        by (auto simp: Let_def)
    next
      case False
      then have "readMessageLoop c' ?mt (buf @ Payload f) r1 = readMessageLoop c ?mt (buf @ Payload f) r1"
        by (intro "1.IH" [OF f [symmetric] refl _ _ refl refl]) (use "1.prems" in auto)
      with False f eq show ?thesis
        unfolding readMessageLoop.simps [of c mt buf r] readMessageLoop.simps [of c' mt buf r]
        by (auto simp: Let_def)
    qed
  qed
qed

lemma same_role_closed [simp]: "same_role c (c\<lparr>closed := b\<rparr>)"
  by (simp add: same_role_def)

text \<open>
  \<open>wireMessages c r\<close> cuts the bytes of \<open>r\<close> into messages, each with the reader at which waiting
  for it began, up to the error that ends the stream. It looks only at the role and the
  configuration of \<open>c\<close>. \<open>dispatch\<close> is the loop of \<^verbatim>\<open>handleConnection\<close> without any bytes.
\<close>

function wireMessages ::
  "'a conn_scheme \<Rightarrow> breader \<Rightarrow>
   (breader \<times> MessageType \<times> byte list) list \<times> breader \<times> ws_error" where
  "wireMessages c r =
     (case readMessageLoop c 0 [] r of
        (Inl err, r') \<Rightarrow> ([], r, err)
      | (Inr m, r') \<Rightarrow> (case wireMessages c r' of (ms, e) \<Rightarrow> ((r, m) # ms, e)))"
  by pat_completeness auto
termination
proof (relation "measure (\<lambda>(c, r). length (rbytes r))", goal_cases)
  case 1
  then show ?case by simp
next
  case (2 c r res r' m)
  then have "ReadMessage (c\<lparr>closed := False\<rparr>) r = (Inr m, r')"
    by (simp add: ReadMessage_def readMessageLoop_same_role [of c])
  then show ?case by (auto dest: ReadMessage_shrinks)
qed

declare wireMessages.simps [simp del]

fun dispatch ::
  "(breader \<Rightarrow> 'a conn_scheme \<Rightarrow> 'a conn_scheme) \<Rightarrow> 'a conn_scheme handlers \<Rightarrow>
   (breader \<times> MessageType \<times> byte list) list \<Rightarrow> breader \<times> ws_error \<Rightarrow>
   'a conn_scheme \<Rightarrow> 'a conn_scheme" where
  "dispatch env h [] (r, err) c =
     (if closed c then c
      else let c' = env r c in if closed c' then c' else opt_call (onError h) err c')"
| "dispatch env h ((r, mt, data) # ms) e c =
     (if closed c then c
      else let c' = handleControl h mt data (env r c)
           in if mt = CloseMessage then c' else dispatch env h ms e c')"

definition keeps_role :: "('a conn_scheme \<Rightarrow> 'a conn_scheme) \<Rightarrow> bool" where
  "keeps_role f \<longleftrightarrow> (\<forall>c. same_role c (f c))"

definition handlers_keep_role :: "'a conn_scheme handlers \<Rightarrow> bool" where
  "handlers_keep_role h \<longleftrightarrow> (\<forall>mt data. keeps_role (handleControl h mt data)) \<and>
     (\<forall>err. keeps_role (opt_call (onError h) err))"

lemma wireMessages_same_role: "same_role c c' \<Longrightarrow> wireMessages c' r = wireMessages c r"
proof (induction c r rule: wireMessages.induct)
  case (1 c r)
  obtain res r' where "readMessageLoop c 0 [] r = (res, r')" by fastforce
  with 1 show ?case
    by (cases res) (simp_all add: wireMessages.simps [of c r] wireMessages.simps [of c' r]
        readMessageLoop_same_role)
qed

text \<open>One turn of the loop, and the same turn on the messages.\<close>

lemma loop_message:
  assumes "\<not> closed c" and "readMessageLoop c 0 [] r = (Inr (mt, data), r')"
  shows "messageLoop env h c r =
      (if mt = CloseMessage then (handleControl h mt data (env r c), r')
       else messageLoop env h (handleControl h mt data (env r c)) r')"
    and "wireMessages c r = ((r, mt, data) # fst (wireMessages c r'), snd (wireMessages c r'))"
  using assms
  by (simp_all add: messageLoop.simps [of env h c r] wireMessages.simps [of c r] isClosed_def
      ReadMessage_def Let_def split: prod.split)

lemma loop_ends:
  assumes "closed c \<or> readMessageLoop c 0 [] r = (Inl err, r')"
  shows "fst (messageLoop env h c r) = dispatch env h (fst (wireMessages c r)) (snd (wireMessages c r)) c"
proof (cases "closed c")
  case True
  then show ?thesis
    by (cases "fst (wireMessages c r)"; cases "snd (wireMessages c r)")
      (auto simp: messageLoop.simps [of env h c r] isClosed_def)
next
  case False
  with assms show ?thesis
    by (simp add: messageLoop.simps [of env h c r] wireMessages.simps [of c r] isClosed_def
        ReadMessage_def Let_def)
qed

text \<open>
  C8. The message loop refines the dispatcher: whatever handlers are set and whatever the other
  goroutines do in between, the loop decodes the bytes into the same messages and runs the
  handlers on them in order, until a close frame, a read error or a closed connection ends it.
\<close>

theorem messageLoop_refines_dispatch:
  assumes "handlers_keep_role h" and "\<forall>r. keeps_role (env r)"
  shows "fst (messageLoop env h c r) =
    dispatch env h (fst (wireMessages c r)) (snd (wireMessages c r)) c"
  using assms
proof (induction env h c r rule: messageLoop.induct)
  case (1 env h c r)
  obtain res r' where res: "readMessageLoop c 0 [] r = (res, r')" by fastforce
  show ?case
  proof (cases "\<exists>m. res = Inr m \<and> \<not> closed c")
    case False
    with res have "closed c \<or> (\<exists>err. readMessageLoop c 0 [] r = (Inl err, r'))" by (cases res) auto
    then show ?thesis using loop_ends [of c r _ r'] by blast
  next
    case True
    with res obtain mt data where notclosed: "\<not> closed c"
      and rm: "readMessageLoop c 0 [] r = (Inr (mt, data), r')" by auto
    let ?c = "handleControl h mt data (env r c)"
    have role: "same_role c ?c"
      using 1(2,3) unfolding handlers_keep_role_def keeps_role_def by (blast intro: same_role_trans)
    have "fst (messageLoop env h ?c r') =
        dispatch env h (fst (wireMessages ?c r')) (snd (wireMessages ?c r')) ?c" if "mt \<noteq> CloseMessage"
      by (rule 1(1) [OF _ _ refl refl refl that 1(2,3)])
        (use notclosed rm in \<open>simp_all add: isClosed_def ReadMessage_def\<close>)
    then show ?thesis
      unfolding wireMessages_same_role [OF role] loop_message [OF notclosed rm]
      using notclosed by simp
  qed
qed

text \<open>A wait in which the other goroutines do nothing.\<close>

definition quiet :: "breader \<Rightarrow> 'a conn_scheme \<Rightarrow> 'a conn_scheme" where
  "quiet r c = c"

lemma writeFrame_effect:
  "config (snd (writeFrame deflate f c)) = config c"
  "isServer (snd (writeFrame deflate f c)) = isServer c"
  "isClient (snd (writeFrame deflate f c)) = isClient c"
  "closed (snd (writeFrame deflate f c)) = closed c"
  "pongCh (snd (writeFrame deflate f c)) = pongCh c"
  by (auto simp: writeFrame_def randRead_def Let_def split: option.split)

lemma default_handlers_keep_role: "handlers_keep_role (setDefaultHandlers deflate noHandlers)"
  by (auto simp: handlers_keep_role_def keeps_role_def same_role_def handleControl_def opt_call_def
      setDefaultHandlers_def noHandlers_def WritePong_def signalPong_def writeFrame_effect
      closeConn_effect split: prod.split)

theorem messageLoop_refines_dispatch_witness:
  "fst (messageLoop quiet (setDefaultHandlers id noHandlers) demo_conn \<lparr>rbytes = [0x89, 0x80], rerr = EOF\<rparr>) =
    dispatch quiet (setDefaultHandlers id noHandlers)
      (fst (wireMessages demo_conn \<lparr>rbytes = [0x89, 0x80], rerr = EOF\<rparr>))
      (snd (wireMessages demo_conn \<lparr>rbytes = [0x89, 0x80], rerr = EOF\<rparr>)) demo_conn"
  by (rule messageLoop_refines_dispatch)
    (simp_all add: default_handlers_keep_role quiet_def keeps_role_def same_role_def)

section \<open>The closing handshake\<close>

lemma write_control:
  assumes "werr c = None" and "opc \<noteq> OpcodeText" and "opc \<noteq> OpcodeBinary"
  shows "\<exists>key r'. length key = 4 \<and> writeFrame deflate (dataFrame c True opc d) c =
    (None, c\<lparr>sent := sent c @ frame_wire (dataFrame c True opc d) key, rnd := r'\<rparr>)"
  using assms writeFrame_ok [of c deflate "dataFrame c True opc d"]
  by (auto simp: compressFrame_def)

lemma ReadMessage_control:
  assumes "peers p c" and "opc = OpcodePing \<or> opc = OpcodePong \<or> opc = OpcodeClose" and "\<not> closed c"
    and "int (length d) \<le> MaxFrameSize (config c)" and "length d < 2 ^ 63" and "length k = 4"
  shows "ReadMessage c \<lparr>rbytes = frame_wire (dataFrame p True opc d) k @ rest, rerr = e\<rparr> =
    (Inr (int (unat opc), d), \<lparr>rbytes = rest, rerr = e\<rparr>)"
proof -
  have "readable c (dataFrame p True opc d)"
    using assms readable_dataFrame [OF assms(1)] by (auto simp: isValidOpcode_def)
  from readMessageLoop_wire [OF this assms(6)] assms(2,3) show ?thesis
    by (auto simp: ReadMessage_def opcode_defs)
qed

lemma pings_are_answered:
  assumes "peers p c" and "\<not> closed c" and "werr c = None"
    and "keys_for (map (dataFrame p True OpcodePing) ps) ks"
    and "\<forall>d \<in> set ps. int (length d) \<le> MaxFrameSize (config c) \<and> length d < 2 ^ 63"
  shows "\<exists>ks' r'. keys_for (map (dataFrame c True OpcodePong) ps) ks' \<and>
    messageLoop quiet (setDefaultHandlers deflate h) c
      \<lparr>rbytes = keyed_wire (map (dataFrame p True OpcodePing) ps) ks @ bs, rerr = e\<rparr> =
    messageLoop quiet (setDefaultHandlers deflate h)
      (c\<lparr>sent := sent c @ keyed_wire (map (dataFrame c True OpcodePong) ps) ks', rnd := r'\<rparr>)
      \<lparr>rbytes = bs, rerr = e\<rparr>"
  using assms
proof (induction ps arbitrary: c ks)
  case Nil
  then show ?case by (intro exI [of _ "[]"] exI [of _ "rnd c"]) simp
next
  case (Cons d ps)
  from Cons.prems(4) obtain k ks1 where k: "ks = k # ks1" "length k = 4"
    and ks1: "keys_for (map (dataFrame p True OpcodePing) ps) ks1"
    by (auto simp: keys_for_Cons)
  obtain key r1 where key: "length key = 4"
    and w: "writeFrame deflate (dataFrame c True OpcodePong d) c =
      (None, c\<lparr>sent := sent c @ frame_wire (dataFrame c True OpcodePong d) key, rnd := r1\<rparr>)"
      (is "_ = (None, ?c)")
    using write_control [OF Cons.prems(3), of OpcodePong deflate d] by (auto simp: opcode_defs)
  let ?rest = "\<lparr>rbytes = keyed_wire (map (dataFrame p True OpcodePing) ps) ks1 @ bs, rerr = e\<rparr>"
  have rm: "ReadMessage c
      \<lparr>rbytes = frame_wire (dataFrame p True OpcodePing d) k @
         keyed_wire (map (dataFrame p True OpcodePing) ps) ks1 @ bs, rerr = e\<rparr> =
      (Inr (PingMessage, d), ?rest)"
    using ReadMessage_control [OF Cons.prems(1), of OpcodePing d k] Cons.prems k
    by (simp add: opcode_defs message_type_defs)
  have step: "messageLoop quiet (setDefaultHandlers deflate h) c
      \<lparr>rbytes = keyed_wire (map (dataFrame p True OpcodePing) (d # ps)) ks @ bs, rerr = e\<rparr> =
    messageLoop quiet (setDefaultHandlers deflate h) ?c ?rest"
    using rm w k(1) Cons.prems(2)
    by (subst messageLoop.simps) (simp add: isClosed_def quiet_def handleControl_def opt_call_def
        setDefaultHandlers_def WritePong_def message_type_defs)
  have "\<exists>ks' r'. keys_for (map (dataFrame ?c True OpcodePong) ps) ks' \<and>
    messageLoop quiet (setDefaultHandlers deflate h) ?c ?rest =
    messageLoop quiet (setDefaultHandlers deflate h)
      (?c\<lparr>sent := sent ?c @ keyed_wire (map (dataFrame ?c True OpcodePong) ps) ks', rnd := r'\<rparr>)
      \<lparr>rbytes = bs, rerr = e\<rparr>"
    using Cons.prems ks1 by (intro Cons.IH) (auto simp: peers_def)
  moreover have "dataFrame ?c = dataFrame c"
    by (simp add: dataFrame_def fun_eq_iff)
  ultimately obtain ks' r' where "keys_for (map (dataFrame c True OpcodePong) ps) ks'"
    and "messageLoop quiet (setDefaultHandlers deflate h) ?c ?rest =
    messageLoop quiet (setDefaultHandlers deflate h)
      (?c\<lparr>sent := sent ?c @ keyed_wire (map (dataFrame c True OpcodePong) ps) ks', rnd := r'\<rparr>)
      \<lparr>rbytes = bs, rerr = e\<rparr>"
    by auto
  with step key show ?case
    by (intro exI [of _ "key # ks'"] exI [of _ r']) (simp add: keys_for_Cons)
qed

lemma parseClose_payload:
  assumes "0 \<le> code" and "code < 2 ^ 16"
  shows "parseClose (closePayload code reason) = (code, reason)"
  using assms by (simp add: parseClose_def closePayload_def be_get_put)

text \<open>The turn of the loop that meets a close frame.\<close>

lemma close_frame_is_echoed:
  assumes "peers p c" and "\<not> closed c" and "werr c = None" and "length k = 4"
    and "int (length (closePayload code reason)) \<le> MaxFrameSize (config c)"
    and "length (closePayload code reason) < 2 ^ 63" and "0 \<le> code" and "code < 2 ^ 16"
  shows "\<exists>k' r'. length k' = 4 \<and> messageLoop quiet (setDefaultHandlers deflate h) c
      \<lparr>rbytes = frame_wire (closeFrame p code reason) k @ rest, rerr = e\<rparr> =
    (c\<lparr>closed := True, closeReason := code, closeText := reason,
       sent := sent c @ frame_wire (closeFrame c code reason) k', rnd := r', werr := Some net_closed\<rparr>,
     \<lparr>rbytes = rest, rerr = e\<rparr>)"
proof -
  have rm: "ReadMessage c \<lparr>rbytes = frame_wire (closeFrame p code reason) k @ rest, rerr = e\<rparr> =
      (Inr (CloseMessage, closePayload code reason), \<lparr>rbytes = rest, rerr = e\<rparr>)"
    unfolding closeFrame_def
    using ReadMessage_control [OF assms(1), of OpcodeClose "closePayload code reason" k rest e]
      assms by (simp add: opcode_defs message_type_defs)
  obtain k' r' where k': "length k' = 4" and cl: "closeConn deflate code reason c =
      (map_option ErrIO (nclose c),
       c\<lparr>closed := True, closeReason := code, closeText := reason,
         sent := sent c @ frame_wire (closeFrame c code reason) k', rnd := r', werr := Some net_closed\<rparr>)"
    using closeConn_open [OF assms(2,3), of deflate code reason] by blast
  from k' rm cl assms(2) parseClose_payload [OF assms(7,8), of reason] show ?thesis
    by (intro exI [of _ k'] exI [of _ r'], subst messageLoop.simps)
      (simp add: isClosed_def quiet_def handleControl_def opt_call_def setDefaultHandlers_def message_type_defs)
qed

lemma closeFrame_same: "isClient c' = isClient c \<Longrightarrow> closeFrame c' = closeFrame c"
  by (simp add: closeFrame_def dataFrame_def fun_eq_iff)

text \<open>
  C28. The closing handshake of the default handlers. A peer sends any number of pings and then a
  close frame: the connection answers every ping, in order, with a pong carrying the same data,
  then sends back one close frame with the peer's code and reason, ends closed with that code and
  reason, and does not touch the bytes after the close frame.
\<close>

theorem closing_handshake:
  assumes "peers p c" and "\<not> closed c" and "werr c = None" and "onOpen h = None"
    and "keys_for (map (dataFrame p True OpcodePing) ps) ks" and "length k = 4"
    and "\<forall>d \<in> set (closePayload code reason # ps).
      int (length d) \<le> MaxFrameSize (config c) \<and> length d < 2 ^ 63"
    and "0 \<le> code" and "code < 2 ^ 16"
  shows "\<exists>ks' k' c'. keys_for (map (dataFrame c True OpcodePong) ps) ks' \<and> length k' = 4 \<and>
    handleConnection quiet (setDefaultHandlers deflate h) c
      \<lparr>rbytes = keyed_wire (map (dataFrame p True OpcodePing) ps) ks @
         frame_wire (closeFrame p code reason) k @ rest, rerr = e\<rparr> =
    (c', \<lparr>rbytes = rest, rerr = e\<rparr>) \<and>
    sent c' = sent c @ keyed_wire (map (dataFrame c True OpcodePong) ps) ks' @
      frame_wire (closeFrame c code reason) k' \<and>
    closed c' \<and> closeReason c' = code \<and> closeText c' = reason"
proof -
  let ?H = "setDefaultHandlers deflate h"
  define c0 where "c0 = (if EnablePingPong (config c) \<and> isServer c then startKeepAlive c else c)"
  have same: "peers p c0" "\<not> closed c0" "werr c0 = None" "sent c0 = sent c" "config c0 = config c"
    "dataFrame c0 = dataFrame c" "closeFrame c0 = closeFrame c"
    using assms(1-3) by (auto simp: c0_def startKeepAlive_def peers_def dataFrame_def closeFrame_def fun_eq_iff)
  then have pings: "\<forall>d \<in> set ps. int (length d) \<le> MaxFrameSize (config c0) \<and> length d < 2 ^ 63"
    using assms(7) by simp
  obtain ks' r' where ks': "keys_for (map (dataFrame c True OpcodePong) ps) ks'"
    and loop: "messageLoop quiet ?H c0
      \<lparr>rbytes = keyed_wire (map (dataFrame p True OpcodePing) ps) ks @
         frame_wire (closeFrame p code reason) k @ rest, rerr = e\<rparr> =
    messageLoop quiet ?H
      (c0\<lparr>sent := sent c @ keyed_wire (map (dataFrame c True OpcodePong) ps) ks', rnd := r'\<rparr>)
      \<lparr>rbytes = frame_wire (closeFrame p code reason) k @ rest, rerr = e\<rparr>"
      (is "_ = messageLoop quiet ?H ?c1 ?r1")
    using pings_are_answered [OF same(1-3) assms(5) pings, where deflate = deflate and h = h
        and e = e and bs = "frame_wire (closeFrame p code reason) k @ rest"]
    unfolding same(4,6) by blast
  have c1: "peers p ?c1" "\<not> closed ?c1" "werr ?c1 = None" "closeFrame ?c1 = closeFrame c"
    using same closeFrame_same [of ?c1 c0] by (auto simp: peers_def)
  obtain k' r2 where k': "length k' = 4" and close: "messageLoop quiet ?H ?c1 ?r1 =
      (?c1\<lparr>closed := True, closeReason := code, closeText := reason,
         sent := sent ?c1 @ frame_wire (closeFrame c code reason) k', rnd := r2, werr := Some net_closed\<rparr>,
       \<lparr>rbytes = rest, rerr = e\<rparr>)" (is "_ = (?c2, _)")
    using close_frame_is_echoed [OF c1(1-3) assms(6), of code reason deflate h rest e] assms(7-9) same(5)
    unfolding c1(4) by auto
  with loop have "handleConnection quiet ?H c
      \<lparr>rbytes = keyed_wire (map (dataFrame p True OpcodePing) ps) ks @
         frame_wire (closeFrame p code reason) k @ rest, rerr = e\<rparr> =
    (cleanup ?c2, \<lparr>rbytes = rest, rerr = e\<rparr>)"
    using assms(4) by (simp add: handleConnection_def setDefaultHandlers_def c0_def Let_def)
  with ks' k' show ?thesis
    by (intro exI [of _ ks'] exI [of _ k'] exI [of _ "cleanup ?c2"]) (simp add: cleanup_def)
qed

theorem closing_handshake_witness:
  "\<exists>ks' k' c'. keys_for (map (dataFrame demo_conn True OpcodePong) [[1], [2, 3]]) ks' \<and> length k' = 4 \<and>
    handleConnection quiet (setDefaultHandlers id noHandlers) demo_conn
      \<lparr>rbytes = keyed_wire (map (dataFrame demo_client True OpcodePing) [[1], [2, 3]]) [[1, 2, 3, 4], [5, 6, 7, 8]] @
         frame_wire (closeFrame demo_client 1001 ''bye'') [9, 9, 9, 9] @ [0xFF], rerr = EOF\<rparr> =
    (c', \<lparr>rbytes = [0xFF], rerr = EOF\<rparr>) \<and>
    sent c' = sent demo_conn @ keyed_wire (map (dataFrame demo_conn True OpcodePong) [[1], [2, 3]]) ks' @
      frame_wire (closeFrame demo_conn 1001 ''bye'') k' \<and>
    closed c' \<and> closeReason c' = 1001 \<and> closeText c' = ''bye''"
  by (rule closing_handshake)
    (simp_all add: demo_client_def demo_defs peers_def noHandlers_def keys_for_def closePayload_def)

section \<open>Custom events\<close>

text \<open>
  \<^verbatim>\<open>On\<close> and \<^verbatim>\<open>Emit\<close>. The handler map holds values of any type; the type switch of \<^verbatim>\<open>Emit\<close> calls
  the three function types it knows and ignores the rest. A handler returns the connection and,
  when it panicked, the text of the panic, which \<^verbatim>\<open>Emit\<close> recovers.
\<close>

datatype ('c, 'd) EventHandler =
    ConnData "'c \<Rightarrow> 'd \<Rightarrow> 'c \<times> string option"
  | OnlyData "'c \<Rightarrow> 'd \<Rightarrow> 'c \<times> string option"
  | NoArgs "'c \<Rightarrow> 'c \<times> string option"
  | OtherValue

type_synonym ('c, 'd) event_map = "(string, ('c, 'd) EventHandler) gomap"

definition On :: "string \<Rightarrow> ('c, 'd) EventHandler \<Rightarrow> ('c, 'd) event_map \<Rightarrow> ('c, 'd) event_map" where
  "On event handler m = m_put event handler m"

definition callHandler :: "('c, 'd) EventHandler \<Rightarrow> 'd \<Rightarrow> 'c \<Rightarrow> 'c \<times> string option" where
  "callHandler h d c = (case h of ConnData f \<Rightarrow> f c d | OnlyData f \<Rightarrow> f c d | NoArgs f \<Rightarrow> f c
     | OtherValue \<Rightarrow> (c, None))"

text \<open>The error that \<^verbatim>\<open>fmt.Errorf("panic in event handler for '%s': %v", event, r)\<close> makes.\<close>

definition emitError :: "string \<Rightarrow> string \<Rightarrow> ws_error" where
  "emitError event r = ErrText (''panic in event handler for '' @ CHR 0x27 # event @ CHR 0x27 # '': '' @ r)"

definition Emit ::
  "'c handlers \<Rightarrow> ('c, 'd) event_map \<Rightarrow> string \<Rightarrow> 'd \<Rightarrow> 'c \<Rightarrow> 'c" where
  "Emit hs m event data c =
     (case map_of m event of
        None \<Rightarrow> c
      | Some h \<Rightarrow> (case callHandler h data c of
            (c', None) \<Rightarrow> c'
          | (c', Some r) \<Rightarrow> opt_call (onError hs) (emitError event r) c'))"

text \<open>
  \<^verbatim>\<open>Emit\<close> runs the handler that was registered last for the event and no other; a panic of
  the handler goes to \<^verbatim>\<open>onError\<close> and not to the caller, and an event nobody registered does
  nothing.
\<close>

lemma Emit_On:
  "Emit hs (On event h m) event' data c =
    (if event' = event
     then (case callHandler h data c of (c', None) \<Rightarrow> c'
           | (c', Some r) \<Rightarrow> opt_call (onError hs) (emitError event r) c')
     else Emit hs m event' data c)"
  by (simp add: Emit_def On_def map_of_put cong: option.case_cong)

section \<open>The keep-alive goroutine\<close>

text \<open>
  One step of the goroutine that \<^verbatim>\<open>startKeepAlive\<close> starts, or of the message loop beside it. The
  loop hands a pong to the goroutine (\<open>LoopPong\<close>), may change anything else but the keep-alive
  machinery, and ends once with \<^verbatim>\<open>cleanup\<close> (\<open>LoopEnds\<close>). The goroutine waits in the outer
  \<^verbatim>\<open>select\<close> (\<open>Idle\<close>) or in the inner one (\<open>Waiting\<close>). When several cases of a \<^verbatim>\<open>select\<close> are
  ready Go picks any: each is a rule.
\<close>

datatype ka_label = Tick | PongSeen | PongTimedOut | StopSeen | CtxSeen | LoopPong | LoopEnds

text \<open>A state: is the message loop still running, and the connection.\<close>

type_synonym 'a ka_state = "bool \<times> 'a conn_scheme"

text \<open>What the goroutine does on a tick of \<^verbatim>\<open>pingTicker\<close>.\<close>

definition onTick ::
  "(byte list \<Rightarrow> byte list) \<Rightarrow> 'a conn_scheme handlers \<Rightarrow> 'a conn_scheme \<Rightarrow> 'a conn_scheme" where
  "onTick deflate h c =
     (if isClosed c then c\<lparr>pingTicker := Some False, keepAlive := Ended\<rparr>
      else case WritePing deflate [] c of
          (Some err, c') \<Rightarrow> (opt_call (onError h) err c')\<lparr>pingTicker := Some False, keepAlive := Ended\<rparr>
        | (None, c') \<Rightarrow>
            if PongTimeout (config c') > 0 then c'\<lparr>pongTimer := Some True, keepAlive := Waiting\<rparr>
            else c')"

inductive ka_step ::
  "(byte list \<Rightarrow> byte list) \<Rightarrow> 'a conn_scheme handlers \<Rightarrow>
   'a ka_state \<Rightarrow> ka_label \<Rightarrow> 'a ka_state \<Rightarrow> bool"
  for deflate and h where
  tick: "keepAlive c = Idle \<Longrightarrow> pingTicker c = Some True \<Longrightarrow>
    ka_step deflate h (l, c) Tick (l, onTick deflate h c)"
| pong_seen: "keepAlive c = Waiting \<Longrightarrow> pongCh c > 0 \<Longrightarrow>
    ka_step deflate h (l, c) PongSeen
      (l, c\<lparr>pongCh := pongCh c - 1, pongTimer := Some False, keepAlive := Idle\<rparr>)"
| pong_timed_out: "keepAlive c = Waiting \<Longrightarrow> pongTimer c = Some True \<Longrightarrow>
    ka_step deflate h (l, c) PongTimedOut
      (l, (snd (closeConn deflate CloseGoingAway ''pong timeout'' c))
            \<lparr>pingTicker := Some False, keepAlive := Ended\<rparr>)"
| stop_seen: "keepAlive c = Idle \<Longrightarrow> keepAliveStopCh c = Some True \<Longrightarrow>
    ka_step deflate h (l, c) StopSeen (l, c\<lparr>pingTicker := Some False, keepAlive := Ended\<rparr>)"
| ctx_seen: "keepAlive c = Idle \<or> keepAlive c = Waiting \<Longrightarrow> ctxDone c \<Longrightarrow>
    ka_step deflate h (l, c) CtxSeen (l, c\<lparr>pingTicker := Some False, keepAlive := Ended\<rparr>)"
| loop_pong: "ka_step deflate h (True, c) LoopPong (True, signalPong c)"
| loop_ends: "ka_step deflate h (True, c) LoopEnds (False, cleanup c)"

inductive_cases ka_stepE: "ka_step deflate h (l, c) a (l', c')"

inductive ka_steps ::
  "(byte list \<Rightarrow> byte list) \<Rightarrow> 'a conn_scheme handlers \<Rightarrow>
   'a ka_state \<Rightarrow> ka_label list \<Rightarrow> 'a ka_state \<Rightarrow> bool"
  for deflate and h where
  ka_refl: "ka_steps deflate h s [] s"
| ka_snoc: "ka_steps deflate h s as s' \<Longrightarrow> ka_step deflate h s' a s'' \<Longrightarrow>
    ka_steps deflate h s (as @ [a]) s''"

lemma closeConn_goroutine:
  "keepAlive (snd (closeConn deflate code reason c)) = keepAlive c"
  "pongTimer (snd (closeConn deflate code reason c)) = pongTimer c"
  "ctxDone (snd (closeConn deflate code reason c)) = ctxDone c"
  "keepAliveStopCh (snd (closeConn deflate code reason c)) = keepAliveStopCh c"
  by (auto simp: closeConn_def WriteClose_def writeFrame_def randRead_def Let_def split: option.split prod.splits)

text \<open>
  The state in which the goroutine hangs: the loop is gone, the timer was stopped by \<^verbatim>\<open>cleanup\<close>, no
  pong is left, and the stop channel, though closed, is not a case of the inner \<^verbatim>\<open>select\<close>.
\<close>

definition ka_hangs :: "'a ka_state \<Rightarrow> bool" where
  "ka_hangs s \<longleftrightarrow> (case s of (l, c) \<Rightarrow> \<not> l \<and> keepAlive c = Waiting \<and> pongTimer c \<noteq> Some True \<and>
     pongCh c = 0 \<and> \<not> ctxDone c)"

text \<open>
  C40. The keep-alive goroutine leaks. If the message loop ends while the goroutine waits for a pong
  (nothing cancels the connection's context), then after \<^verbatim>\<open>cleanup\<close> no step is possible any more:
  the goroutine never ends, although its stop channel was closed.
\<close>

theorem keepAlive_leaks:
  assumes "keepAlive c = Waiting" and "pongCh c = 0" and "\<not> ctxDone c"
    and "ka_steps deflate h (False, cleanup c) as (l', c')"
  shows "as = [] \<and> keepAlive c' = Waiting \<and> keepAliveStopCh c' = map_option (\<lambda>_. True) (keepAliveStopCh c)"
proof -
  have stuck: "ka_hangs s \<Longrightarrow> \<not> ka_step deflate h s a s'" for s a s'
    by (auto simp: ka_hangs_def elim: ka_step.cases)
  have "ka_hangs (False, cleanup c)"
    using assms(1-3) by (cases "pongTimer c") (auto simp: ka_hangs_def cleanup_def)
  with assms(4) have "as = [] \<and> (l', c') = (False, cleanup c)"
    by (induction "(False, cleanup c)" "as" "(l', c')" arbitrary: l' c' rule: ka_steps.induct)
      (auto dest: stuck)
  with assms(1) show ?thesis by (simp add: cleanup_def)
qed

text \<open>
  What holds from the start of the goroutine on: the ticker and the stop channel exist, the channel
  is closed exactly when the loop has ended, and while the loop runs a waiting goroutine has a
  running timer.
\<close>

definition ka_inv :: "'a ka_state \<Rightarrow> bool" where
  "ka_inv s \<longleftrightarrow> (case s of (l, c) \<Rightarrow>
     pongCh c \<le> 1 \<and> keepAliveStopCh c = Some (\<not> l) \<and> keepAlive c \<noteq> NotStarted \<and>
     (l \<longrightarrow> keepAlive c = Waiting \<longrightarrow> pongTimer c = Some True))"

text \<open>The error handler does not meddle with the keep-alive machinery.\<close>

definition ka_neutral :: "'a conn_scheme handlers \<Rightarrow> bool" where
  "ka_neutral h \<longleftrightarrow> (\<forall>err c. pongCh (opt_call (onError h) err c) = pongCh c \<and>
     keepAliveStopCh (opt_call (onError h) err c) = keepAliveStopCh c)"

lemma WritePing_goroutine:
  assumes "WritePing deflate d c = (err, c')"
  shows "keepAlive c' = keepAlive c" "pongTimer c' = pongTimer c"
    "keepAliveStopCh c' = keepAliveStopCh c" "pongCh c' = pongCh c"
  using assms by (auto simp: WritePing_def writeFrame_def randRead_def Let_def split: option.splits if_splits)

lemma onTick_inv:
  assumes "ka_neutral h" and "ka_inv (l, c)" and "keepAlive c = Idle"
  shows "ka_inv (l, onTick deflate h c)"
proof (cases "isClosed c")
  case True
  with assms show ?thesis by (simp add: onTick_def ka_inv_def)
next
  case False
  obtain err c' where w: "WritePing deflate [] c = (err, c')" by fastforce
  note same = WritePing_goroutine [OF w]
  from False w same assms show ?thesis
    by (cases err) (auto simp: onTick_def ka_inv_def ka_neutral_def)
qed

lemma ka_step_inv:
  assumes "ka_step deflate h s a s'" and "ka_neutral h" and "ka_inv s"
  shows "ka_inv s'"
  using assms
proof cases
  case (tick c l)
  with assms show ?thesis by (auto intro: onTick_inv)
next
  case (pong_timed_out c l)
  with assms show ?thesis by (auto simp: ka_inv_def closeConn_goroutine closeConn_effect)
next
  case (loop_pong c)
  with assms show ?thesis by (auto simp: ka_inv_def signalPong_def)
next
  case (loop_ends c)
  with assms show ?thesis by (auto simp: ka_inv_def cleanup_def)
qed (auto simp: ka_inv_def)

lemma ka_steps_inv: "ka_steps deflate h s as s' \<Longrightarrow> ka_neutral h \<Longrightarrow> ka_inv s \<Longrightarrow> ka_inv s'"
  by (induction rule: ka_steps.induct) (auto intro: ka_step_inv)

text \<open>
  While the message loop runs, a peer that leaves a ping unanswered is closed: in every state
  that can be reached from \<^verbatim>\<open>startKeepAlive\<close> in which the goroutine waits and no pong has come, the
  timeout is the only step the goroutine can take (the context is not cancelled), it can be
  taken, and it leaves a closed connection, with code 1001 unless it was closed before, and an
  ended goroutine. There is never more than one pong waiting.
\<close>

theorem keepAlive_closes_silent_peer:
  assumes "PingInterval (config c0) > 0" and "pongCh c0 \<le> 1" and "ka_neutral h"
    and "ka_steps deflate h (True, startKeepAlive c0) as (True, c)"
    and "keepAlive c = Waiting" and "pongCh c = 0" and "\<not> ctxDone c"
  shows "(\<exists>s. ka_step deflate h (True, c) PongTimedOut s) \<and>
    (\<forall>a s. ka_step deflate h (True, c) a s \<longrightarrow> a \<in> {PongTimedOut, LoopPong, LoopEnds}) \<and>
    (\<forall>l c'. ka_step deflate h (True, c) PongTimedOut (l, c') \<longrightarrow>
       closed c' \<and> keepAlive c' = Ended \<and>
       (\<not> closed c \<longrightarrow> closeReason c' = CloseGoingAway \<and> closeText c' = ''pong timeout''))"
proof -
  have "ka_inv (True, startKeepAlive c0)"
    using assms(1,2) by (simp add: ka_inv_def startKeepAlive_def)
  with assms(3,4) have "ka_inv (True, c)" by (blast intro: ka_steps_inv)
  with assms(5) have timer: "pongTimer c = Some True" by (simp add: ka_inv_def)
  have enabled: "\<exists>s. ka_step deflate h (True, c) PongTimedOut s"
    using assms(5) timer by (blast intro: pong_timed_out)
  have reason: "\<not> closed c \<longrightarrow> closeReason (snd (closeConn deflate code t c)) = code \<and>
      closeText (snd (closeConn deflate code t c)) = t" for code t
    by (auto simp: closeConn_def WriteClose_def writeFrame_def randRead_def Let_def
        split: option.split prod.splits)
  from enabled show ?thesis
    using assms(5-7) reason by (auto elim: ka_step.cases simp: closeConn_effect)
qed

text \<open>A run that reaches such a state: the goroutine starts, the ticker fires, the ping goes out.\<close>

definition demo_ka :: conn where
  "demo_ka = onTick id noHandlers (startKeepAlive demo_conn)"

lemma demo_waiting:
  "ka_steps id noHandlers (True, startKeepAlive demo_conn) [Tick]
     (True, demo_ka)"
proof -
  have "ka_step id noHandlers (True, startKeepAlive demo_conn) Tick (True, demo_ka)"
    unfolding demo_ka_def by (rule tick) (simp_all add: startKeepAlive_def demo_defs)
  from ka_snoc [OF ka_refl this] show ?thesis by simp
qed

lemma demo_waiting_state:
  "keepAlive demo_ka = Waiting"
  "pongCh demo_ka = 0"
  "\<not> ctxDone demo_ka"
  by (simp_all add: demo_ka_def onTick_def isClosed_def startKeepAlive_def demo_defs WritePing_def writeFrame_def
      compressFrame_def dataFrame_def opcode_defs)

theorem keepAlive_closes_silent_peer_witness:
  "\<exists>l c'. ka_step id noHandlers (True, demo_ka) PongTimedOut (l, c') \<and> closed c' \<and> keepAlive c' = Ended \<and>
    closeReason c' = CloseGoingAway \<and> closeText c' = ''pong timeout''"
proof -
  have pre: "PingInterval (config demo_conn) > 0" "pongCh demo_conn \<le> 1" "ka_neutral (noHandlers :: conn handlers)"
    by (simp_all add: demo_defs ka_neutral_def noHandlers_def opt_call_def)
  have "\<not> closed demo_ka"
    by (simp add: demo_ka_def onTick_def isClosed_def startKeepAlive_def demo_defs WritePing_def
        writeFrame_def compressFrame_def dataFrame_def opcode_defs)
  with keepAlive_closes_silent_peer [OF pre demo_waiting demo_waiting_state] show ?thesis
    by (metis surj_pair)
qed

theorem keepAlive_leaks_witness:
  "([] :: ka_label list) = [] \<and>
    keepAlive (cleanup demo_ka) = Waiting \<and>
    keepAliveStopCh (cleanup demo_ka) =
      map_option (\<lambda>_. True) (keepAliveStopCh demo_ka)"
  by (rule keepAlive_leaks [OF demo_waiting_state ka_refl])

end
