(* ===== verification/WsHandshake.thy ===== *)
theory WsHandshake
  imports WsConn GoStrings Sha1
begin

text \<open>
  The opening handshake of \<^verbatim>\<open>websocket/websocket.go\<close>, server and client side: \<^verbatim>\<open>validateHandshake\<close>,
  \<^verbatim>\<open>generateAcceptKey\<close>, the negotiation of subprotocol and extensions, \<^verbatim>\<open>upgrade\<close>,
  \<^verbatim>\<open>writeHandshakeError\<close>, the client's request and \<^verbatim>\<open>validateResponse\<close>. Requests and responses are
  text on the wire; the part of \<^verbatim>\<open>net/http\<close> that reads them is modelled on lines without folding.
  Main result: a server accepts the request the client writes, the client accepts the server's
  answer, and both agree on the subprotocol.
\<close>

section \<open>HTTP messages\<close>

definition CRLF :: string where
  "CRLF = [CHR 0x0D, CHR 0x0A]"

type_synonym headers = "(string, string list) gomap"

text \<open>\<^verbatim>\<open>textproto.CanonicalMIMEHeaderKey\<close>: upper case at the start and after each hyphen.\<close>

fun canonicalFrom :: "bool \<Rightarrow> string \<Rightarrow> string" where
  "canonicalFrom upper [] = []"
| "canonicalFrom upper (c # s) =
     (if upper then upperChar c else lowerChar c) # canonicalFrom (c = CHR ''-'') s"

definition canonicalKey :: "string \<Rightarrow> string" where
  "canonicalKey s = canonicalFrom True s"

text \<open>\<^verbatim>\<open>Header.Get\<close> and \<^verbatim>\<open>Header.Add\<close>.\<close>

definition headerGet :: "headers \<Rightarrow> string \<Rightarrow> string" where
  "headerGet h k = (case map_of h (canonicalKey k) of Some (v # vs) \<Rightarrow> v | _ \<Rightarrow> [])"

definition headerAdd :: "string \<Rightarrow> string \<Rightarrow> headers \<Rightarrow> headers" where
  "headerAdd k v h = (let key = canonicalKey k in
     m_put key ((case map_of h key of None \<Rightarrow> [] | Some vs \<Rightarrow> vs) @ [v]) h)"

record Request =
  Method :: string
  RequestURI :: string
  Header :: headers

record Response =
  StatusCode :: string
  RespHeader :: headers

text \<open>
  Reading a head: a line ends at a line feed, of which a carriage return before it is dropped; the
  head ends at the empty line. A line without end is an unexpected end of file.
\<close>

definition dropCR :: "string \<Rightarrow> string" where
  "dropCR l = (if l \<noteq> [] \<and> last l = CHR 0x0D then butlast l else l)"

definition readLine :: "string \<Rightarrow> (string \<times> string) option" where
  "readLine s = map_option (\<lambda>(l, rest). (dropCR l, rest)) (cutAt CHR 0x0A s)"

lemma readLine_shorter: "readLine s = Some (l, rest) \<Longrightarrow> length rest < length s"
  by (auto simp: readLine_def dest!: cutAt_Some)

function readHeaders :: "string \<Rightarrow> headers \<Rightarrow> (headers \<times> string) option" where
  "readHeaders s h =
     (case readLine s of
        None \<Rightarrow> None
      | Some (l, rest) \<Rightarrow>
          if l = [] then Some (h, rest)
          else (case cutAt CHR '':'' l of
              None \<Rightarrow> None
            | Some (k, v) \<Rightarrow> readHeaders rest (headerAdd k (trimSpace v) h)))"
  by pat_completeness auto
termination
  by (relation "measure (\<lambda>(s, h). length s)") (auto dest: readLine_shorter)

declare readHeaders.simps [simp del]

text \<open>\<^verbatim>\<open>http.ReadRequest\<close> moves the \<^verbatim>\<open>Host\<close> header out of the map.\<close>

definition ReadRequest :: "string \<Rightarrow> (Request \<times> string) option" where
  "ReadRequest s =
     (case readLine s of
        None \<Rightarrow> None
      | Some (l, rest) \<Rightarrow> (case cutAt CHR '' '' l of
          None \<Rightarrow> None
        | Some (m, r) \<Rightarrow> (case cutAt CHR '' '' r of
            None \<Rightarrow> None
          | Some (uri, proto) \<Rightarrow>
              if m = [] \<or> proto \<notin> {''HTTP/1.1'', ''HTTP/1.0''} then None
              else map_option (\<lambda>(h, rest'). (\<lparr>Method = m, RequestURI = uri, Header = m_del ''Host'' h\<rparr>, rest'))
                (readHeaders rest []))))"

definition ReadResponse :: "string \<Rightarrow> (Response \<times> string) option" where
  "ReadResponse s =
     (case readLine s of
        None \<Rightarrow> None
      | Some (l, rest) \<Rightarrow> (case cutAt CHR '' '' l of
          None \<Rightarrow> None
        | Some (proto, status) \<Rightarrow>
            let code = (case cutAt CHR '' '' status of None \<Rightarrow> status | Some (a, b) \<Rightarrow> a)
            in if proto \<notin> {''HTTP/1.1'', ''HTTP/1.0''} \<or> length code \<noteq> 3 then None
               else map_option (\<lambda>(h, rest'). (\<lparr>StatusCode = code, RespHeader = h\<rparr>, rest'))
                 (readHeaders rest [])))"

section \<open>The server\<close>

text \<open>The parts of the configuration that only the handshake reads.\<close>

record ServerConfig = Config +
  CheckOrigin :: "(Request \<Rightarrow> bool) option"
  CheckAuth :: "(Request \<Rightarrow> bool) option"

definition websocketMagicString :: string where
  "websocketMagicString = ''258EAFA5-E914-47DA-95CA-C5AB0DC85B11''"

definition validateHandshake :: "ServerConfig \<Rightarrow> Request \<Rightarrow> ws_error option" where
  "validateHandshake s req =
     (if Method req \<noteq> ''GET'' then Some ErrInvalidHandshake
      else if headerGet (Header req) ''Upgrade'' \<noteq> ''websocket'' then Some ErrInvalidHandshake
      else if \<not> containsStr (toLower (headerGet (Header req) ''Connection'')) ''upgrade''
        then Some ErrInvalidHandshake
      else if headerGet (Header req) ''Sec-WebSocket-Version'' \<noteq> ''13'' then Some ErrInvalidHandshake
      else if headerGet (Header req) ''Sec-WebSocket-Key'' = [] then Some ErrInvalidHandshake
      else if (case CheckOrigin s of None \<Rightarrow> False | Some f \<Rightarrow> \<not> f req) then Some ErrOriginNotAllowed
      else if (case CheckAuth s of None \<Rightarrow> False | Some f \<Rightarrow> \<not> f req) then Some ErrInvalidHandshake
      else None)"

definition IsWebSocketUpgrade :: "Request \<Rightarrow> bool" where
  "IsWebSocketUpgrade req \<longleftrightarrow>
     headerGet (Header req) ''Upgrade'' = ''websocket'' \<and>
     containsStr (toLower (headerGet (Header req) ''Connection'')) ''upgrade'' \<and>
     headerGet (Header req) ''Sec-WebSocket-Version'' = ''13'' \<and>
     headerGet (Header req) ''Sec-WebSocket-Key'' \<noteq> []"

definition generateAcceptKey :: "string \<Rightarrow> string" where
  "generateAcceptKey key = b64_encode (sha1_sum (bytes_of (key @ websocketMagicString)))"

text \<open>The three nested loops of \<^verbatim>\<open>negotiateSubprotocol\<close>; the innermost is a membership test.\<close>

definition negotiateSubprotocol :: "string list \<Rightarrow> Request \<Rightarrow> string" where
  "negotiateSubprotocol serverProtos req =
     (if serverProtos = [] then []
      else let clientProtocols = (case map_of (Header req) ''Sec-Websocket-Protocol'' of
                 None \<Rightarrow> [] | Some vs \<Rightarrow> vs);
               offered = concat (map (\<lambda>clientProto. map trimSpace (splitOn CHR '','' clientProto)) clientProtocols)
           in case find (\<lambda>proto. proto \<in> set serverProtos) offered of None \<Rightarrow> [] | Some proto \<Rightarrow> proto)"

text \<open>The first extension of the header that begins with \<^verbatim>\<open>permessage-deflate\<close>, if compression is on.\<close>

definition negotiateExtension :: "Config \<Rightarrow> Request \<Rightarrow> string option" where
  "negotiateExtension cfg req =
     (let extHeader = headerGet (Header req) ''Sec-WebSocket-Extensions''
      in if EnableCompression cfg \<and> extHeader \<noteq> []
         then find (\<lambda>ext. hasPrefix ext ''permessage-deflate'') (map trimSpace (splitOn CHR '','' extHeader))
         else None)"

definition handshakeResponse :: "string \<Rightarrow> string \<Rightarrow> bool \<Rightarrow> string" where
  "handshakeResponse acceptKey subprotocol compressionOn =
     ''HTTP/1.1 101 Switching Protocols'' @ CRLF @
     ''Upgrade: websocket'' @ CRLF @
     ''Connection: Upgrade'' @ CRLF @
     ''Sec-WebSocket-Accept: '' @ acceptKey @ CRLF @
     (if subprotocol \<noteq> [] then ''Sec-WebSocket-Protocol: '' @ subprotocol @ CRLF else []) @
     (if compressionOn then ''Sec-WebSocket-Extensions: permessage-deflate'' @ CRLF else []) @
     CRLF"

definition writeHandshakeError :: "ws_error \<Rightarrow> string" where
  "writeHandshakeError err =
     ''HTTP/1.1 '' @ (if err = ErrOriginNotAllowed then ''403 Forbidden''
                    else if err = ErrSubprotocolMismatch then ''400 Bad Request''
                    else ''400 Bad Request'') @ CRLF @ ''Content-Length: 0'' @ CRLF @ CRLF"

definition newServerConn :: "Config \<Rightarrow> string \<Rightarrow> string option \<Rightarrow> (nat \<Rightarrow> byte) \<Rightarrow> conn" where
  "newServerConn cfg subprotocol ext random =
     \<lparr>config = cfg, isServer = True, isClient = False, closed = False, closeReason = 0, closeText = [],
      compressionEnabled = (ext \<noteq> None),
      negotiatedExtensions = (case ext of None \<Rightarrow> [] | Some e \<Rightarrow> [(''permessage-deflate'', e)]),
      negotiatedSubprotocol = subprotocol, fragmentedWriteInProgress = False, pongCh = 0,
      pingTicker = None, pongTimer = None, keepAliveStopCh = None, ctxDone = False,
      keepAlive = NotStarted, sent = [], werr = None, nclose = None, rnd = random\<rparr>"

text \<open>
  \<^verbatim>\<open>upgrade\<close> on the bytes that arrive: the result, the text written to the network, and what the
  buffered reader still holds. \<open>wr\<close> is the error of the network's \<^verbatim>\<open>Write\<close>, if it has one.
\<close>

definition upgrade ::
  "ServerConfig \<Rightarrow> io_error option \<Rightarrow> (nat \<Rightarrow> byte) \<Rightarrow> string \<Rightarrow>
   (ws_error + conn) \<times> string \<times> string" where
  "upgrade s wr random input =
     (case ReadRequest input of
        None \<Rightarrow> (Inl (ErrText ''failed to read HTTP request''), [], [])
      | Some (req, rest) \<Rightarrow>
          (case validateHandshake s req of
             Some err \<Rightarrow> (Inl err, (case wr of None \<Rightarrow> writeHandshakeError err | Some _ \<Rightarrow> []), rest)
           | None \<Rightarrow>
               let acceptKey = generateAcceptKey (headerGet (Header req) ''Sec-WebSocket-Key'');
                   subprotocol = negotiateSubprotocol (Subprotocols s) req;
                   ext = negotiateExtension (Config.truncate s) req;
                   response = handshakeResponse acceptKey subprotocol (ext \<noteq> None)
               in case wr of
                    Some e \<Rightarrow> (Inl (ErrIO e), [], rest)
                  | None \<Rightarrow> (Inr (newServerConn (Config.truncate s) subprotocol ext random), response, rest)))"

section \<open>The client\<close>

definition clientRequest :: "Config \<Rightarrow> string \<Rightarrow> string \<Rightarrow> string \<Rightarrow> (string \<times> string list) list \<Rightarrow> string" where
  "clientRequest cfg uri host key extra =
     ''GET '' @ uri @ '' HTTP/1.1'' @ CRLF @
     ''Host: '' @ host @ CRLF @
     ''Upgrade: websocket'' @ CRLF @
     ''Connection: Upgrade'' @ CRLF @
     ''Sec-WebSocket-Key: '' @ key @ CRLF @
     ''Sec-WebSocket-Version: 13'' @ CRLF @
     (if Subprotocols cfg \<noteq> []
      then ''Sec-WebSocket-Protocol: '' @ joinWith '', '' (Subprotocols cfg) @ CRLF else []) @
     concat (map (\<lambda>(name, values). concat (map (\<lambda>v. name @ '': '' @ v @ CRLF) values)) extra) @
     CRLF"

definition generateKey :: "(nat \<Rightarrow> byte) \<Rightarrow> string" where
  "generateKey random = b64_encode (map random [0..<16])"

definition validateResponse :: "Response \<Rightarrow> string \<Rightarrow> ws_error option" where
  "validateResponse resp key =
     (if StatusCode resp \<noteq> ''101'' then Some ErrInvalidHandshake
      else if headerGet (RespHeader resp) ''Upgrade'' \<noteq> ''websocket'' then Some ErrInvalidHandshake
      else if \<not> containsStr (toLower (headerGet (RespHeader resp) ''Connection'')) ''upgrade''
        then Some ErrInvalidHandshake
      else if headerGet (RespHeader resp) ''Sec-WebSocket-Accept'' \<noteq> generateAcceptKey key
        then Some ErrInvalidHandshake
      else None)"

definition newClientConn :: "Config \<Rightarrow> (nat \<Rightarrow> byte) \<Rightarrow> conn" where
  "newClientConn cfg random =
     \<lparr>config = cfg, isServer = False, isClient = True, closed = False, closeReason = 0, closeText = [],
      compressionEnabled = False, negotiatedExtensions = [], negotiatedSubprotocol = [],
      fragmentedWriteInProgress = False, pongCh = 0, pingTicker = None, pongTimer = None,
      keepAliveStopCh = None, ctxDone = False, keepAlive = NotStarted, sent = [], werr = None,
      nclose = None, rnd = random\<rparr>"

text \<open>
  \<^verbatim>\<open>Client.handshake\<close>: the request it writes, and what it makes of \<open>input\<close>, the bytes the server
  sends back; the new connection reads on behind the response. \<open>wr\<close> is the error of the write.
\<close>

definition clientHandshake ::
  "Config \<Rightarrow> io_error option \<Rightarrow> (nat \<Rightarrow> byte) \<Rightarrow> string \<Rightarrow> (ws_error + conn) \<times> string" where
  "clientHandshake cfg wr random input =
     (let key = generateKey random
      in case wr of
           Some e \<Rightarrow> (Inl (ErrIO e), input)
         | None \<Rightarrow> (case ReadResponse input of
             None \<Rightarrow> (Inl (ErrText ''malformed HTTP response''), [])
           | Some (resp, rest) \<Rightarrow>
               (case validateResponse resp key of
                  Some err \<Rightarrow> (Inl err, rest)
                | None \<Rightarrow> (Inr (newClientConn cfg (\<lambda>i. random (i + 16))), rest))))"

section \<open>Reading back what was written\<close>

definition headerLine :: "string \<Rightarrow> string \<Rightarrow> string" where
  "headerLine k v = k @ '': '' @ v @ CRLF"

definition one_line :: "string \<Rightarrow> bool" where
  "one_line v \<longleftrightarrow> CHR 0x0A \<notin> set v"

lemma readLine_CRLF [simp]: "one_line l \<Longrightarrow> readLine (l @ CRLF @ rest) = Some (l, rest)"
  using cutAt_append [of "CHR 0x0A" "l @ [CHR 0x0D]" rest]
  by (simp add: readLine_def one_line_def CRLF_def dropCR_def)

lemma readHeaders_end: "readHeaders (CRLF @ rest) h = Some (h, rest)"
  using readLine_CRLF [of "[]" rest] by (subst readHeaders.simps) (simp add: one_line_def)

lemma readHeaders_line:
  assumes "CHR '':'' \<notin> set k" and "one_line k" and "one_line v"
  shows "readHeaders (headerLine k v @ rest) h = readHeaders rest (headerAdd k (trimSpace v) h)"
proof -
  have "readLine (headerLine k v @ rest) = Some (k @ CHR '':'' # CHR '' '' # v, rest)"
    using readLine_CRLF [of "k @ CHR '':'' # CHR '' '' # v" rest] assms
    by (simp add: headerLine_def one_line_def)
  then show ?thesis
    using assms(1) by (subst readHeaders.simps) (simp add: cutAt_append trimSpace_blank)
qed

lemma plain_token:
  assumes "list_all plain_char v"
  shows "one_line v" "trimSpace v = v" "CHR '','' \<notin> set v" "CHR '' '' \<notin> set v"
proof -
  have no: "\<not> plain_char c \<Longrightarrow> c \<notin> set v" for c
    using assms by (auto simp: list_all_iff)
  show "one_line v" "CHR '','' \<notin> set v" "CHR '' '' \<notin> set v"
    unfolding one_line_def by (rule no; simp add: plain_char_def code_of_def)+
  have "\<not> isSpace c" if "plain_char c" for c
    using that by (auto simp: plain_char_def isSpace_def)
  with assms have "v = [] \<or> \<not> isSpace (hd v) \<and> \<not> isSpace (last v)"
    by (auto simp: list_all_iff)
  then show "trimSpace v = v" by (rule trimSpace_id)
qed

lemma plain_accept: "list_all plain_char (generateAcceptKey k)" and plain_key: "list_all plain_char (generateKey r)"
  by (simp_all add: generateAcceptKey_def generateKey_def b64_encode_plain)

definition plain_tokens :: "string list \<Rightarrow> bool" where
  "plain_tokens ps \<longleftrightarrow> (\<forall>p \<in> set ps. p \<noteq> [] \<and> list_all plain_char p)"

lemma joinWith_ends:
  assumes "plain_tokens ps" and "ps \<noteq> []"
  shows "joinWith '', '' ps \<noteq> [] \<and> hd (joinWith '', '' ps) = hd (hd ps) \<and>
    last (joinWith '', '' ps) = last (last ps) \<and> one_line (joinWith '', '' ps)"
  using assms
proof (induction "'', ''" ps rule: joinWith.induct)
  case (2 w)
  then show ?case by (simp add: plain_tokens_def plain_token)
next
  case (3 w v ws)
  then show ?case by (auto simp: plain_tokens_def plain_token(1) one_line_def [symmetric])
      (auto simp: one_line_def dest: plain_token(1))
qed simp

lemma trim_join:
  assumes "plain_tokens ps"
  shows "trimSpace (joinWith '', '' ps) = joinWith '', '' ps"
proof (cases "ps = []")
  case False
  have sp: "\<not> isSpace c" if "plain_char c" for c
    using that by (auto simp: plain_char_def isSpace_def)
  have "hd ps \<in> set ps" "last ps \<in> set ps" using False by auto
  with assms have "\<not> isSpace (hd (hd ps))" "\<not> isSpace (last (last ps))"
    by (auto simp: plain_tokens_def list_all_iff intro!: sp)
  with joinWith_ends [OF assms False] show ?thesis by (intro trimSpace_id) simp
qed (simp add: trimSpace_def)

lemma split_join_tokens:
  assumes "plain_tokens ps" and "ps \<noteq> []"
  shows "map trimSpace (splitOn CHR '','' (joinWith '', '' ps)) = ps"
proof -
  have "splitOn CHR '','' (joinWith '', '' ps) = hd ps # map (\<lambda>w. CHR '' '' # w) (tl ps)"
    using assms by (intro splitOn_join) (auto simp: plain_tokens_def plain_token)
  moreover have "\<forall>p \<in> set ps. trimSpace p = p"
    using assms(1) by (auto simp: plain_tokens_def plain_token)
  ultimately show ?thesis
    using assms(2) by (cases ps) (auto simp: trimSpace_blank intro!: map_idI)
qed

lemma lower_S: "char_of (115 :: nat) = CHR ''s''"
  by code_simp

lemma canonical_names [simp]:
  "canonicalKey ''Host'' = ''Host''" "canonicalKey ''Upgrade'' = ''Upgrade''"
  "canonicalKey ''Connection'' = ''Connection''"
  "canonicalKey ''Sec-WebSocket-Key'' = ''Sec-Websocket-Key''"
  "canonicalKey ''Sec-WebSocket-Version'' = ''Sec-Websocket-Version''"
  "canonicalKey ''Sec-WebSocket-Protocol'' = ''Sec-Websocket-Protocol''"
  "canonicalKey ''Sec-WebSocket-Extensions'' = ''Sec-Websocket-Extensions''"
  "canonicalKey ''Sec-WebSocket-Accept'' = ''Sec-Websocket-Accept''"
  by (simp_all add: canonicalKey_def upperChar_def lowerChar_def code_of_def lower_S)

section \<open>The handshake completes\<close>

lemma clientRequest_lines:
  "clientRequest cfg uri host key [] @ rest =
     ''GET '' @ uri @ '' HTTP/1.1'' @ CRLF @ headerLine ''Host'' host @ headerLine ''Upgrade'' ''websocket'' @
     headerLine ''Connection'' ''Upgrade'' @ headerLine ''Sec-WebSocket-Key'' key @
     headerLine ''Sec-WebSocket-Version'' ''13'' @
     (if Subprotocols cfg \<noteq> []
      then headerLine ''Sec-WebSocket-Protocol'' (joinWith '', '' (Subprotocols cfg)) else []) @ CRLF @ rest"
  by (simp add: clientRequest_def headerLine_def)

lemma handshakeResponse_lines:
  "handshakeResponse accept sub False @ rest =
     ''HTTP/1.1 101 Switching Protocols'' @ CRLF @ headerLine ''Upgrade'' ''websocket'' @
     headerLine ''Connection'' ''Upgrade'' @ headerLine ''Sec-WebSocket-Accept'' accept @
     (if sub \<noteq> [] then headerLine ''Sec-WebSocket-Protocol'' sub else []) @ CRLF @ rest"
  by (simp add: handshakeResponse_def headerLine_def)

lemma literal_values:
  "trimSpace ''websocket'' = ''websocket''" "trimSpace ''Upgrade'' = ''Upgrade''"
  "trimSpace ''13'' = ''13''"
  by (simp_all add: trimSpace_def isSpace_def code_of_def)

lemma upgrade_token: "containsStr (toLower ''Upgrade'') ''upgrade''"
proof -
  have "char_of (117 :: nat) = CHR ''u''" by code_simp
  then show ?thesis by (simp add: toLower_def lowerChar_def code_of_def hasPrefix_def)
qed

lemma headerAdd_fresh:
  "map_of h (canonicalKey k) = None \<Longrightarrow> headerAdd k v h = m_put (canonicalKey k) [v] h"
  by (simp add: headerAdd_def Let_def)

lemma headerGet_headerAdd:
  "headerGet (headerAdd k v h) k' =
    (if canonicalKey k' = canonicalKey k
     then (case map_of h (canonicalKey k) of Some (w # ws) \<Rightarrow> w | _ \<Rightarrow> v) else headerGet h k')"
  by (auto simp: headerGet_def headerAdd_def Let_def map_of_put split: option.split list.split)

lemma headerGet_del: "canonicalKey k \<noteq> d \<Longrightarrow> headerGet (m_del d h) k = headerGet h k"
  by (simp add: headerGet_def map_of_del)

lemma headerGet_Nil: "headerGet [] k = []"
  by (simp add: headerGet_def)

lemma map_of_headerAdd:
  "map_of (headerAdd k v h) = (map_of h)(canonicalKey k \<mapsto>
     (case map_of h (canonicalKey k) of None \<Rightarrow> [] | Some vs \<Rightarrow> vs) @ [v])"
  by (simp add: headerAdd_def Let_def map_of_put)

lemmas header_simps = headerGet_headerAdd headerGet_del headerGet_Nil map_of_headerAdd map_of_del

lemma one_line_names:
  "one_line ''Host''" "one_line ''Upgrade''" "one_line ''Connection''" "one_line ''websocket''"
  "one_line ''Sec-WebSocket-Key''" "one_line ''Sec-WebSocket-Version''" "one_line ''13''"
  "one_line ''Sec-WebSocket-Protocol''" "one_line ''Sec-WebSocket-Accept''"
  by (simp_all add: one_line_def)

lemma no_colon:
  "CHR '':'' \<notin> set ''Host''" "CHR '':'' \<notin> set ''Upgrade''" "CHR '':'' \<notin> set ''Connection''"
  "CHR '':'' \<notin> set ''Sec-WebSocket-Key''" "CHR '':'' \<notin> set ''Sec-WebSocket-Version''"
  "CHR '':'' \<notin> set ''Sec-WebSocket-Protocol''" "CHR '':'' \<notin> set ''Sec-WebSocket-Accept''"
  by simp_all

lemmas read_lines = readHeaders_line [OF no_colon(1) one_line_names(1)]
  readHeaders_line [OF no_colon(2) one_line_names(2)]
  readHeaders_line [OF no_colon(3) one_line_names(3)]
  readHeaders_line [OF no_colon(4) one_line_names(5)]
  readHeaders_line [OF no_colon(5) one_line_names(6)]
  readHeaders_line [OF no_colon(6) one_line_names(8)]
  readHeaders_line [OF no_colon(7) one_line_names(9)]

text \<open>The header map that the server reads from the client's request, and the client from the answer.\<close>

definition clientHeaders :: "Config \<Rightarrow> string \<Rightarrow> string \<Rightarrow> headers" where
  "clientHeaders cfg host key =
     (let h = headerAdd ''Sec-WebSocket-Version'' ''13'' (headerAdd ''Sec-WebSocket-Key'' key
           (headerAdd ''Connection'' ''Upgrade'' (headerAdd ''Upgrade'' ''websocket''
             (headerAdd ''Host'' (trimSpace host) []))))
      in m_del ''Host'' (if Subprotocols cfg = [] then h
           else headerAdd ''Sec-WebSocket-Protocol'' (joinWith '', '' (Subprotocols cfg)) h))"

definition answerHeaders :: "string \<Rightarrow> string \<Rightarrow> headers" where
  "answerHeaders accept sub =
     (let h = headerAdd ''Sec-WebSocket-Accept'' accept
           (headerAdd ''Connection'' ''Upgrade'' (headerAdd ''Upgrade'' ''websocket'' []))
      in if sub = [] then h else headerAdd ''Sec-WebSocket-Protocol'' sub h)"

lemma ReadRequest_client:
  assumes "one_line host" and "list_all plain_char key" and "plain_tokens (Subprotocols cfg)"
    and "one_line uri" and "CHR '' '' \<notin> set uri"
  shows "ReadRequest (clientRequest cfg uri host key [] @ rest) =
    Some (\<lparr>Method = ''GET'', RequestURI = uri, Header = clientHeaders cfg host key\<rparr>, rest)"
proof -
  let ?prot = "joinWith '', '' (Subprotocols cfg)"
  let ?lines = "headerLine ''Host'' host @ headerLine ''Upgrade'' ''websocket'' @
     headerLine ''Connection'' ''Upgrade'' @ headerLine ''Sec-WebSocket-Key'' key @
     headerLine ''Sec-WebSocket-Version'' ''13'' @
     (if Subprotocols cfg \<noteq> [] then headerLine ''Sec-WebSocket-Protocol'' ?prot else []) @ CRLF @ rest"
  have prot: "Subprotocols cfg \<noteq> [] \<Longrightarrow> one_line ?prot" "trimSpace ?prot = ?prot"
    using joinWith_ends [OF assms(3)] trim_join [OF assms(3)] by auto
  have line: "readLine (''GET '' @ uri @ '' HTTP/1.1'' @ CRLF @ x) = Some (''GET '' @ uri @ '' HTTP/1.1'', x)" for x
    using readLine_CRLF [of "''GET '' @ uri @ '' HTTP/1.1''" x] assms(4) by (simp add: one_line_def)
  have "cutAt CHR '' '' (uri @ '' HTTP/1.1'') = Some (uri, ''HTTP/1.1'')"
    using cutAt_append [OF assms(5), of "''HTTP/1.1''"] by simp
  then have req: "ReadRequest (''GET '' @ uri @ '' HTTP/1.1'' @ CRLF @ ?lines) =
      map_option (\<lambda>(h, rest'). (\<lparr>Method = ''GET'', RequestURI = uri, Header = m_del ''Host'' h\<rparr>, rest'))
        (readHeaders ?lines [])"
    unfolding ReadRequest_def line by simp
  show ?thesis
    unfolding clientRequest_lines req
    using assms(1) plain_token(1,2) [OF assms(2)] prot
    by (cases "Subprotocols cfg = []")
      (simp_all only: read_lines one_line_names readHeaders_end literal_values clientHeaders_def Let_def
        if_True if_False not_False_eq_True not_True_eq_False append_Nil option.map prod.case simp_thms)
qed

lemma ReadResponse_answer:
  assumes "list_all plain_char accept" and "list_all plain_char sub"
  shows "ReadResponse (handshakeResponse accept sub False @ rest) =
    Some (\<lparr>StatusCode = ''101'', RespHeader = answerHeaders accept sub\<rparr>, rest)"
proof -
  let ?lines = "headerLine ''Upgrade'' ''websocket'' @
     headerLine ''Connection'' ''Upgrade'' @ headerLine ''Sec-WebSocket-Accept'' accept @
     (if sub \<noteq> [] then headerLine ''Sec-WebSocket-Protocol'' sub else []) @ CRLF @ rest"
  have line: "readLine (''HTTP/1.1 101 Switching Protocols'' @ CRLF @ x) = Some (''HTTP/1.1 101 Switching Protocols'', x)" for x
    by (rule readLine_CRLF) (simp add: one_line_def)
  have resp: "ReadResponse (''HTTP/1.1 101 Switching Protocols'' @ CRLF @ ?lines) =
      map_option (\<lambda>(h, rest'). (\<lparr>StatusCode = ''101'', RespHeader = h\<rparr>, rest')) (readHeaders ?lines [])"
    unfolding ReadResponse_def line by simp
  show ?thesis
    unfolding handshakeResponse_lines resp
    using plain_token(1,2) [OF assms(1)] plain_token(1,2) [OF assms(2)]
    by (cases "sub = []")
      (simp_all only: read_lines one_line_names readHeaders_end literal_values answerHeaders_def Let_def
        if_True if_False not_False_eq_True not_True_eq_False append_Nil option.map prod.case simp_thms)
qed

lemma client_lookups:
  "headerGet (clientHeaders cfg host key) ''Upgrade'' = ''websocket''"
  "headerGet (clientHeaders cfg host key) ''Connection'' = ''Upgrade''"
  "headerGet (clientHeaders cfg host key) ''Sec-WebSocket-Key'' = key"
  "headerGet (clientHeaders cfg host key) ''Sec-WebSocket-Version'' = ''13''"
  "headerGet (clientHeaders cfg host key) ''Sec-WebSocket-Extensions'' = []"
  "map_of (clientHeaders cfg host key) ''Sec-Websocket-Protocol'' =
    (if Subprotocols cfg = [] then None else Some [joinWith '', '' (Subprotocols cfg)])"
  by (simp_all add: clientHeaders_def header_simps Let_def)

lemma answer_lookups:
  "headerGet (answerHeaders accept sub) ''Upgrade'' = ''websocket''"
  "headerGet (answerHeaders accept sub) ''Connection'' = ''Upgrade''"
  "headerGet (answerHeaders accept sub) ''Sec-WebSocket-Accept'' = accept"
  by (simp_all add: answerHeaders_def header_simps Let_def)

text \<open>What the server chooses: the client's first protocol that it knows.\<close>

definition chosenProtocol :: "string list \<Rightarrow> string list \<Rightarrow> string" where
  "chosenProtocol server client =
     (case find (\<lambda>p. p \<in> set server) client of None \<Rightarrow> [] | Some p \<Rightarrow> p)"

lemma negotiate_client:
  assumes "plain_tokens (Subprotocols cfg)"
  shows "negotiateSubprotocol server \<lparr>Method = m, RequestURI = uri, Header = clientHeaders cfg host key\<rparr> =
    chosenProtocol server (Subprotocols cfg)"
  using split_join_tokens [OF assms]
  by (auto simp: negotiateSubprotocol_def chosenProtocol_def client_lookups find_Some_iff split: option.split)

lemma chosen_plain: "plain_tokens client \<Longrightarrow> list_all plain_char (chosenProtocol server client)"
  by (auto simp: chosenProtocol_def plain_tokens_def find_Some_iff split: option.split)

text \<open>What each side makes of the other's text.\<close>

lemma upgrade_client:
  assumes "one_line host" and "one_line uri" and "CHR '' '' \<notin> set uri" and "plain_tokens (Subprotocols cfg)"
    and "\<forall>f req. CheckOrigin s = Some f \<longrightarrow> f req" and "\<forall>f req. CheckAuth s = Some f \<longrightarrow> f req"
  shows "upgrade s None rs (clientRequest cfg uri host (generateKey rc) [] @ rest) =
    (Inr (newServerConn (Config.truncate s) (chosenProtocol (Subprotocols s) (Subprotocols cfg)) None rs),
     handshakeResponse (generateAcceptKey (generateKey rc)) (chosenProtocol (Subprotocols s) (Subprotocols cfg)) False,
     rest)"
proof -
  let ?key = "generateKey rc"
  let ?req = "\<lparr>Method = ''GET'', RequestURI = uri, Header = clientHeaders cfg host ?key\<rparr>"
  have key: "?key \<noteq> []"
    by (simp add: generateKey_def upt_conv_Cons)
  have valid: "validateHandshake s ?req = None"
    using assms(5,6) key upgrade_token
    by (auto simp: validateHandshake_def client_lookups split: option.split)
  have noext: "negotiateExtension (Config.truncate s) ?req = None"
    by (simp add: negotiateExtension_def client_lookups)
  show ?thesis
    unfolding upgrade_def ReadRequest_client [OF assms(1) plain_key assms(4,2,3)]
    using valid noext by (simp add: negotiate_client [OF assms(4)] client_lookups Let_def)
qed

lemma client_accepts:
  assumes "list_all plain_char sub"
  shows "clientHandshake cfg None rc (handshakeResponse (generateAcceptKey (generateKey rc)) sub False @ rest) =
    (Inr (newClientConn cfg (\<lambda>i. rc (i + 16))), rest)"
  using ReadResponse_answer [OF plain_accept assms] upgrade_token
  by (simp add: clientHandshake_def validateResponse_def answer_lookups)

text \<open>
  C6. The handshake completes. For any random key, the server accepts the request that the client
  writes (its own origin and authentication checks permitting) and reads on behind it; the
  client accepts the server's answer and reads on behind that; the server's connection speaks
  the first of the client's subprotocols that the server lists (or none), without compression.
\<close>

theorem handshake_completes:
  assumes "one_line host" and "one_line uri" and "CHR '' '' \<notin> set uri" and "plain_tokens (Subprotocols cfg)"
    and "\<forall>f req. CheckOrigin s = Some f \<longrightarrow> f req" and "\<forall>f req. CheckAuth s = Some f \<longrightarrow> f req"
  shows "\<exists>c answer. upgrade s None rs (clientRequest cfg uri host (generateKey rc) [] @ rest) = (Inr c, answer, rest) \<and>
    clientHandshake cfg None rc (answer @ after) = (Inr (newClientConn cfg (\<lambda>i. rc (i + 16))), after) \<and>
    isServer c \<and> \<not> compressionEnabled c \<and>
    negotiatedSubprotocol c = chosenProtocol (Subprotocols s) (Subprotocols cfg)"
  unfolding upgrade_client [OF assms]
  using client_accepts [OF chosen_plain [OF assms(4)], of cfg rc "Subprotocols s"]
  by (simp add: newServerConn_def)

definition demo_server :: ServerConfig where
  "demo_server = Config.extend (DefaultConfig\<lparr>Subprotocols := [''chat'', ''v2'']\<rparr>)
     \<lparr>CheckOrigin = Some (\<lambda>r. True), CheckAuth = None\<rparr>"

theorem handshake_completes_witness:
  "\<exists>c answer. upgrade demo_server None of_nat
      (clientRequest (DefaultConfig\<lparr>Subprotocols := [''v2'', ''chat'']\<rparr>) ''/ws'' ''example.org'' (generateKey of_nat) [] @ ''x'') =
      (Inr c, answer, ''x'') \<and>
    clientHandshake (DefaultConfig\<lparr>Subprotocols := [''v2'', ''chat'']\<rparr>) None of_nat (answer @ ''y'') =
      (Inr (newClientConn (DefaultConfig\<lparr>Subprotocols := [''v2'', ''chat'']\<rparr>) (\<lambda>i. of_nat (i + 16))), ''y'') \<and>
    isServer c \<and> \<not> compressionEnabled c \<and>
    negotiatedSubprotocol c = chosenProtocol (Subprotocols demo_server)
      (Subprotocols (DefaultConfig\<lparr>Subprotocols := [''v2'', ''chat'']\<rparr>))"
  by (rule handshake_completes)
    (simp_all add: one_line_def plain_tokens_def plain_char_def code_of_def demo_server_def Config.defs)

section \<open>What the server lets in\<close>

text \<open>
  C7. A connection is only made for a request that asks for it: \<^verbatim>\<open>upgrade\<close> returns a connection
  exactly when the bytes are a request that \<^verbatim>\<open>IsWebSocketUpgrade\<close> accepts, sent with \<^verbatim>\<open>GET\<close>, that the
  origin and authentication checks accept, and the answer could be written; a request that fails
  a check is answered with 403 if it was the origin and with 400 otherwise; and compression is on
  exactly when the configuration enables it and the client offers \<^verbatim>\<open>permessage-deflate\<close>.
\<close>

theorem upgrade_sound:
  assumes "ReadRequest input = Some (req, rest)"
  shows "((\<exists>c. fst (upgrade s wr random input) = Inr c) \<longleftrightarrow>
      Method req = ''GET'' \<and> IsWebSocketUpgrade req \<and> wr = None \<and>
      (\<forall>f. CheckOrigin s = Some f \<longrightarrow> f req) \<and> (\<forall>f. CheckAuth s = Some f \<longrightarrow> f req)) \<and>
    (\<forall>c. fst (upgrade s wr random input) = Inr c \<longrightarrow>
      (compressionEnabled c \<longleftrightarrow> EnableCompression s \<and>
        (\<exists>ext \<in> set (splitOn CHR '','' (headerGet (Header req) ''Sec-WebSocket-Extensions'')).
           hasPrefix (trimSpace ext) ''permessage-deflate''))) \<and>
    (\<forall>err. validateHandshake s req = Some err \<and> wr = None \<longrightarrow>
      fst (snd (upgrade s wr random input)) =
        ''HTTP/1.1 '' @ (if err = ErrOriginNotAllowed then ''403 Forbidden'' else ''400 Bad Request'') @ CRLF @
        ''Content-Length: 0'' @ CRLF @ CRLF)"
proof -
  have valid: "validateHandshake s req = None \<longleftrightarrow> Method req = ''GET'' \<and> IsWebSocketUpgrade req \<and>
      (\<forall>f. CheckOrigin s = Some f \<longrightarrow> f req) \<and> (\<forall>f. CheckAuth s = Some f \<longrightarrow> f req)"
    by (auto simp: validateHandshake_def IsWebSocketUpgrade_def split: option.splits)
  have ext: "negotiateExtension (Config.truncate s) req \<noteq> None \<longleftrightarrow> EnableCompression s \<and>
      (\<exists>ext \<in> set (splitOn CHR '','' (headerGet (Header req) ''Sec-WebSocket-Extensions'')).
         hasPrefix (trimSpace ext) ''permessage-deflate'')"
  proof (cases "headerGet (Header req) ''Sec-WebSocket-Extensions'' = []")
    case True
    then show ?thesis by (simp add: negotiateExtension_def trimSpace_def hasPrefix_def)
  next
    case False
    have "find P xs \<noteq> None \<longleftrightarrow> (\<exists>x \<in> set xs. P x)" for P and xs :: "string list"
      by (auto simp: find_None_iff)
    from this [of "\<lambda>ext. hasPrefix ext ''permessage-deflate''"] False show ?thesis
      by (simp add: negotiateExtension_def Config.defs)
  qed
  have up: "upgrade s wr random input = (case validateHandshake s req of
      Some err \<Rightarrow> (Inl err, (case wr of None \<Rightarrow> writeHandshakeError err | Some _ \<Rightarrow> []), rest)
    | None \<Rightarrow> (case wr of Some e \<Rightarrow> (Inl (ErrIO e), [], rest)
        | None \<Rightarrow> (Inr (newServerConn (Config.truncate s) (negotiateSubprotocol (Subprotocols s) req)
              (negotiateExtension (Config.truncate s) req) random),
            handshakeResponse (generateAcceptKey (headerGet (Header req) ''Sec-WebSocket-Key''))
              (negotiateSubprotocol (Subprotocols s) req) (negotiateExtension (Config.truncate s) req \<noteq> None), rest)))"
    unfolding upgrade_def Let_def assms option.case prod.case ..
  show ?thesis
  proof (cases "validateHandshake s req")
    case None
    have "compressionEnabled (newServerConn cfg sub e r) = (e \<noteq> None)" for cfg sub e r
      by (simp add: newServerConn_def)
    then show ?thesis
      unfolding up None using valid None ext by (cases wr) auto
  next
    case (Some err)
    with valid have "\<not> (Method req = ''GET'' \<and> IsWebSocketUpgrade req \<and> wr = None \<and>
      (\<forall>f. CheckOrigin s = Some f \<longrightarrow> f req) \<and> (\<forall>f. CheckAuth s = Some f \<longrightarrow> f req))"
      by auto
    then show ?thesis
      unfolding up Some by (simp only: option.case fst_conv snd_conv sum.distinct)
        (simp add: writeHandshakeError_def)
  qed
qed

text \<open>A request without the upgrade headers, to a server that is up.\<close>

definition demo_get :: string where
  "demo_get = ''GET / HTTP/1.1'' @ CRLF @ CRLF"

lemma demo_get_read: "ReadRequest demo_get = Some (\<lparr>Method = ''GET'', RequestURI = ''/'', Header = []\<rparr>, [])"
proof -
  have "demo_get = ''GET / HTTP/1.1'' @ CRLF @ CRLF @ []" by (simp add: demo_get_def)
  moreover have "readLine (''GET / HTTP/1.1'' @ CRLF @ CRLF @ []) = Some (''GET / HTTP/1.1'', CRLF @ [])"
    by (rule readLine_CRLF) (simp add: one_line_def)
  ultimately show ?thesis
    using readHeaders_end [of "[]" "[]"] by (simp add: ReadRequest_def)
qed

theorem upgrade_sound_witness:
  "\<not> (\<exists>c. fst (upgrade demo_server None of_nat demo_get) = Inr c)"
  using upgrade_sound [OF demo_get_read, of demo_server None of_nat]
  by (simp add: IsWebSocketUpgrade_def headerGet_def)

end
