(* ===== verification/WsClient.thy ===== *)
theory WsClient
  imports WsHandshake
begin

text \<open>
  The client of \<^verbatim>\<open>websocket/websocket.go\<close>: where \<^verbatim>\<open>Connect\<close> dials, and what it returns. Parsing the URL and dialling are
  parameters; a peer is the function from the request it reads to the text it sends back.
\<close>

text \<open>What \<^verbatim>\<open>url.Parse\<close> gives: scheme, host with port, and \<^verbatim>\<open>RequestURI\<close>.\<close>

record URL =
  urlScheme :: string
  urlHost :: string
  urlRequestURI :: string

text \<open>\<^verbatim>\<open>URL.Port\<close>: the digits behind the last colon, if nothing else stands there.\<close>

definition isDigit :: "char \<Rightarrow> bool" where
  "isDigit c \<longleftrightarrow> c \<in> set ''0123456789''"

definition urlPort :: "URL \<Rightarrow> string" where
  "urlPort u =
     (let tl = takeWhile (\<lambda>c. c \<noteq> CHR '':'') (rev (urlHost u))
      in if length tl < length (urlHost u) \<and> list_all isDigit tl then rev tl else '''')"

definition dialAddr :: "URL \<Rightarrow> string" where
  "dialAddr u =
     (if urlPort u = '''' then (if urlScheme u = ''wss'' then urlHost u @ '':443'' else urlHost u @ '':80'') else urlHost u)"

record WebSocketClient =
  ccConfig :: Config
  ccConn :: "conn option"

definition NewClient :: "Config option \<Rightarrow> WebSocketClient" where
  "NewClient cfg = \<lparr>ccConfig = (case cfg of None \<Rightarrow> DefaultConfig | Some c \<Rightarrow> c), ccConn = None\<rparr>"

text \<open>
  \<^verbatim>\<open>Connect\<close>: the result, the client, and whether the network connection was closed again. \<open>dial tls addr\<close> is the error of
  dialling or the peer; \<open>wr\<close> the error of writing the request. On success the loop of the new connection starts.
\<close>

definition Connect ::
  "(string \<Rightarrow> string + URL) \<Rightarrow> (bool \<Rightarrow> string \<Rightarrow> io_error + (string \<Rightarrow> string)) \<Rightarrow> io_error option \<Rightarrow> (nat \<Rightarrow> byte) \<Rightarrow>
   string \<Rightarrow> (string \<times> string list) list \<Rightarrow> WebSocketClient \<Rightarrow> (ws_error + conn) \<times> bool \<times> WebSocketClient" where
  "Connect parse dial wr random urlStr extra cl =
     (case parse urlStr of
        Inl err \<Rightarrow> (Inl (ErrText err), False, cl)
      | Inr u \<Rightarrow>
          (case dial (urlScheme u = ''wss'') (dialAddr u) of
             Inl e \<Rightarrow> (Inl (ErrIO e), False, cl)
           | Inr peer \<Rightarrow>
               let req = clientRequest (ccConfig cl) (urlRequestURI u) (urlHost u) (generateKey random) extra
               in case clientHandshake (ccConfig cl) wr random (peer req) of
                    (Inl err, rest) \<Rightarrow> (Inl err, True, cl)
                  | (Inr c, rest) \<Rightarrow> (Inr c, False, cl\<lparr>ccConn := Some c\<rparr>)))"

lemma digits_no_colon: "list_all isDigit ds \<Longrightarrow> CHR '':'' \<notin> set ds"
proof -
  have "\<not> isDigit CHR '':''" by code_simp
  then show "list_all isDigit ds \<Longrightarrow> CHR '':'' \<notin> set ds" by (auto simp: list_all_iff)
qed

lemma urlPort_append:
  assumes "list_all isDigit ds"
  shows "urlPort (u\<lparr>urlHost := h @ CHR '':'' # ds\<rparr>) = ds"
proof -
  have "takeWhile (\<lambda>c. c \<noteq> CHR '':'') (rev ds @ CHR '':'' # rev h) = rev ds"
    using digits_no_colon [OF assms] by (subst takeWhile_append2) auto
  with assms show ?thesis by (simp add: urlPort_def)
qed

text \<open>
  Where a client dials. A port in the URL is kept; without one the port is that of the scheme; but an empty
  port (a colon at the end of the host, which \<^verbatim>\<open>url.Parse\<close> allows) makes an address with two colons.
\<close>

theorem dialAddr_port:
  assumes "list_all isDigit ds" and "ds \<noteq> ''''" and "CHR '':'' \<notin> set h"
  shows "dialAddr \<lparr>urlScheme = sch, urlHost = h @ CHR '':'' # ds, urlRequestURI = uri\<rparr> = h @ CHR '':'' # ds \<and>
    dialAddr \<lparr>urlScheme = sch, urlHost = h, urlRequestURI = uri\<rparr> = h @ (if sch = ''wss'' then '':443'' else '':80'') \<and>
    dialAddr \<lparr>urlScheme = sch, urlHost = h @ '':'', urlRequestURI = uri\<rparr> = h @ (if sch = ''wss'' then ''::443'' else ''::80'')"
proof -
  have "takeWhile (\<lambda>c. c \<noteq> CHR '':'') (rev h) = rev h" using assms(3) by (auto simp: takeWhile_eq_all_conv)
  then have "length (takeWhile (\<lambda>c. c \<noteq> CHR '':'') (rev h)) = length h" by (metis length_rev)
  then have "urlPort \<lparr>urlScheme = sch, urlHost = h, urlRequestURI = uri\<rparr> = ''''"
    unfolding urlPort_def Let_def URL.simps by simp
  with urlPort_append [OF assms(1), where h = h and u = "\<lparr>urlScheme = sch, urlHost = h, urlRequestURI = uri\<rparr>"]
    urlPort_append [where ds = "[]" and h = h and u = "\<lparr>urlScheme = sch, urlHost = h, urlRequestURI = uri\<rparr>"] assms(2)
  show ?thesis by (simp add: dialAddr_def)
qed

text \<open>
  \<^verbatim>\<open>Connect\<close> and the server's \<^verbatim>\<open>upgrade\<close>: a client that reaches the server behind any URL gets a connection, and remembers
  it; the network connection stays open.
\<close>

theorem Connect_reaches_server:
  assumes "parse urlStr = Inr u" and "dial (urlScheme u = ''wss'') (dialAddr u) = Inr (\<lambda>req. fst (snd (upgrade s None rs req)))"
    and "one_line (urlHost u)" and "one_line (urlRequestURI u)" and "CHR '' '' \<notin> set (urlRequestURI u)"
    and "plain_tokens (Subprotocols (ccConfig cl))"
    and "\<forall>f req. CheckOrigin s = Some f \<longrightarrow> f req" and "\<forall>f req. CheckAuth s = Some f \<longrightarrow> f req"
  shows "\<exists>c. Connect parse dial None rc urlStr [] cl = (Inr c, False, cl\<lparr>ccConn := Some c\<rparr>) \<and> isClient c \<and> \<not> closed c"
proof -
  have "upgrade s None rs (clientRequest (ccConfig cl) (urlRequestURI u) (urlHost u) (generateKey rc) []) =
      (Inr (newServerConn (Config.truncate s) (chosenProtocol (Subprotocols s) (Subprotocols (ccConfig cl))) None rs),
       handshakeResponse (generateAcceptKey (generateKey rc)) (chosenProtocol (Subprotocols s) (Subprotocols (ccConfig cl))) False, [])"
    using upgrade_client [OF assms(3-8), of rs rc "[]"] by simp
  moreover have "clientHandshake (ccConfig cl) None rc
      (handshakeResponse (generateAcceptKey (generateKey rc)) (chosenProtocol (Subprotocols s) (Subprotocols (ccConfig cl))) False) =
      (Inr (newClientConn (ccConfig cl) (\<lambda>i. rc (i + 16))), [])"
    using client_accepts [OF chosen_plain [OF assms(6)], of "ccConfig cl" rc "Subprotocols s" "[]"] by simp
  ultimately show ?thesis by (simp add: Connect_def assms(1,2) newClientConn_def)
qed

end
