(* ===== verification/Rooms.thy ===== *)
theory Rooms
  imports Prelude
begin

text \<open>
  Rooms: the interface that the room tables of the program share. The server of
  \<^verbatim>\<open>websocket/websocket.go\<close>, the hub of \<^verbatim>\<open>hub.go\<close> and the chat server all keep a map from room
  names to maps of members. The locale states what a table promises (who is a member after a
  join or a leave, that a room exists exactly as long as it has members); the laws of any
  sequence of joins and leaves are proved once inside it.
\<close>

section \<open>The interface\<close>

datatype ('r, 'm) room_op = JoinOp 'r 'm | LeaveOp 'r 'm

locale room_registry =
  fixes join :: "'r \<Rightarrow> 'm \<Rightarrow> 's \<Rightarrow> 's"
    and leave :: "'r \<Rightarrow> 'm \<Rightarrow> 's \<Rightarrow> 's"
    and member :: "'s \<Rightarrow> 'r \<Rightarrow> 'm \<Rightarrow> bool"
    and exists_room :: "'s \<Rightarrow> 'r \<Rightarrow> bool"
    and inv :: "'s \<Rightarrow> bool"
  assumes inv_join: "inv s \<Longrightarrow> inv (join r m s)"
    and inv_leave: "inv s \<Longrightarrow> inv (leave r m s)"
    and member_join: "inv s \<Longrightarrow> member (join r m s) r' m' \<longleftrightarrow> (r' = r \<and> m' = m) \<or> member s r' m'"
    and member_leave: "inv s \<Longrightarrow> member (leave r m s) r' m' \<longleftrightarrow> \<not> (r' = r \<and> m' = m) \<and> member s r' m'"
    and room_iff: "inv s \<Longrightarrow> exists_room s r \<longleftrightarrow> (\<exists>m. member s r m)"
begin

fun run_op :: "('r, 'm) room_op \<Rightarrow> 's \<Rightarrow> 's" where
  "run_op (JoinOp r m) s = join r m s"
| "run_op (LeaveOp r m) s = leave r m s"

definition run :: "('r, 'm) room_op list \<Rightarrow> 's \<Rightarrow> 's" where
  "run ops s = fold run_op ops s"

lemma run_simps [simp]: "run [] s = s" "run (x # xs) s = run xs (run_op x s)"
  by (simp_all add: run_def)

lemma inv_run_op: "inv s \<Longrightarrow> inv (run_op x s)"
  by (cases x) (simp_all add: inv_join inv_leave)

lemma inv_run: "inv s \<Longrightarrow> inv (run ops s)"
  by (induction ops arbitrary: s) (simp_all add: inv_run_op)

text \<open>What a sequence of operations does to one membership: the last operation on it decides.\<close>

definition decides :: "('r, 'm) room_op list \<Rightarrow> 'r \<Rightarrow> 'm \<Rightarrow> bool \<Rightarrow> bool" where
  "decides ops r m before =
     fold (\<lambda>x b. if x = JoinOp r m then True else if x = LeaveOp r m then False else b) ops before"

theorem member_run:
  assumes "inv s"
  shows "member (run ops s) r m \<longleftrightarrow> decides ops r m (member s r m)"
  using assms
proof (induction ops arbitrary: s)
  case Nil
  then show ?case by (simp add: decides_def)
next
  case (Cons x ops)
  then have "member (run ops (run_op x s)) r m \<longleftrightarrow> decides ops r m (member (run_op x s) r m)"
    by (simp add: inv_run_op)
  then show ?case
    using Cons.prems by (cases x) (auto simp: decides_def member_join member_leave)
qed

lemma decides_last:
  "decides (ops @ [JoinOp r m]) r m b" "\<not> decides (ops @ [LeaveOp r m]) r m b"
  by (simp_all add: decides_def)

lemma leave_undoes_join:
  assumes "inv s" and "\<not> member s r m"
  shows "member (leave r m (join r m s)) r' m' \<longleftrightarrow> member s r' m'"
  using assms by (auto simp: member_leave member_join inv_join)

lemma room_gone:
  assumes "inv s" and "\<forall>m'. member s r m' \<longrightarrow> m' = m"
  shows "\<not> exists_room (leave r m s) r"
  using assms by (auto simp: room_iff member_leave inv_leave)

lemma run_room_iff: "inv s \<Longrightarrow> exists_room (run ops s) r \<longleftrightarrow> (\<exists>m. decides ops r m (member s r m))"
  by (simp add: room_iff inv_run member_run)

end

section \<open>Nested Go maps\<close>

text \<open>
  The representation behind all of them: a map from rooms to maps of members, created on the first
  join and deleted with the last member.
\<close>

definition tbl_member :: "('r, ('m, 'v) gomap) gomap \<Rightarrow> 'r \<Rightarrow> 'm \<Rightarrow> bool" where
  "tbl_member t r m \<longleftrightarrow> (case map_of t r of None \<Rightarrow> False | Some ms \<Rightarrow> m_has ms m)"

definition tbl_inv :: "('r, ('m, 'v) gomap) gomap \<Rightarrow> bool" where
  "tbl_inv t \<longleftrightarrow> m_wf t \<and> (\<forall>r ms. map_of t r = Some ms \<longrightarrow> m_wf ms \<and> ms \<noteq> [])"

definition tbl_join :: "'r \<Rightarrow> 'm \<Rightarrow> 'v \<Rightarrow> ('r, ('m, 'v) gomap) gomap \<Rightarrow> ('r, ('m, 'v) gomap) gomap" where
  "tbl_join r m v t = m_put r (m_put m v (case map_of t r of None \<Rightarrow> [] | Some ms \<Rightarrow> ms)) t"

definition tbl_leave :: "'r \<Rightarrow> 'm \<Rightarrow> ('r, ('m, 'v) gomap) gomap \<Rightarrow> ('r, ('m, 'v) gomap) gomap" where
  "tbl_leave r m t =
     (case map_of t r of
        None \<Rightarrow> t
      | Some ms \<Rightarrow> (let ms' = m_del m ms in if ms' = [] then m_del r t else m_put r ms' t))"

lemma tbl_inv_Nil [simp]: "tbl_inv []"
  by (simp add: tbl_inv_def)

lemma tbl_member_Nil [simp]: "\<not> tbl_member [] r m"
  by (simp add: tbl_member_def)

lemma tbl_inv_join: "tbl_inv t \<Longrightarrow> tbl_inv (tbl_join r m v t)"
  by (auto simp: tbl_inv_def tbl_join_def gomap_simps split: option.splits if_splits)

lemma tbl_inv_leave: "tbl_inv t \<Longrightarrow> tbl_inv (tbl_leave r m t)"
  by (auto simp: tbl_inv_def tbl_leave_def gomap_simps Let_def split: option.splits if_splits)

lemma tbl_member_join:
  "tbl_member (tbl_join r m v t) r' m' \<longleftrightarrow> (r' = r \<and> m' = m) \<or> tbl_member t r' m'"
  by (auto simp: tbl_member_def tbl_join_def gomap_simps split: option.splits)

lemma tbl_member_leave:
  assumes "tbl_inv t"
  shows "tbl_member (tbl_leave r m t) r' m' \<longleftrightarrow> \<not> (r' = r \<and> m' = m) \<and> tbl_member t r' m'"
proof -
  have "m_del m ms = [] \<Longrightarrow> m_has ms m' \<Longrightarrow> m' = m" for ms :: "('b, 'c) gomap"
    using m_has_del [of m ms m'] by simp
  then show ?thesis
    by (auto simp: tbl_member_def tbl_leave_def gomap_simps Let_def split: option.splits)
qed

lemma tbl_room_iff:
  assumes "tbl_inv t"
  shows "m_has t r \<longleftrightarrow> (\<exists>m. tbl_member t r m)"
proof (cases "map_of t r")
  case None
  then show ?thesis by (simp add: tbl_member_def m_has_def)
next
  case (Some ms)
  with assms have "ms \<noteq> []" by (auto simp: tbl_inv_def)
  then have "\<exists>m. m_has ms m" using m_empty_iff [of ms] by blast
  with Some show ?thesis by (simp add: tbl_member_def m_has_def [of t])
qed

interpretation tbl: room_registry "\<lambda>r m. tbl_join r m v" tbl_leave tbl_member m_has tbl_inv
  for v :: 'v
  by unfold_locales (auto simp: tbl_inv_join tbl_inv_leave tbl_member_join tbl_member_leave tbl_room_iff)

end
