(* ===== verification/WsServer.thy ===== *)
theory WsServer
  imports WsHandshake Rooms
begin

text \<open>
  The server of \<^verbatim>\<open>websocket/websocket.go\<close> around its connections: the room API (\<^verbatim>\<open>JoinRoom\<close>,
  \<^verbatim>\<open>LeaveRoom\<close>, \<^verbatim>\<open>BroadcastToRoom\<close>), \<^verbatim>\<open>Listen\<close> and \<^verbatim>\<open>Stop\<close>, and \<^verbatim>\<open>handleConnection\<close>, which puts
  the handshake in front of the message loop. The room table meets the interface
  \<open>room_registry\<close>; a broadcast writes once to every member, in whatever order Go visits them.
\<close>

section \<open>State\<close>

text \<open>
  A connection is a pointer, here a number; \<open>conns\<close> is what it points at. The room table is nil
  until the first join. \<open>accepting\<close> says whether an \<^verbatim>\<open>acceptConnections\<close> loop is running, \<open>stopped\<close>
  whether \<^verbatim>\<open>stopCh\<close> was closed.
\<close>

type_synonym connPtr = nat

record WsServer =
  rooms :: "(string, (connPtr, unit) gomap) gomap option"
  conns :: "connPtr \<Rightarrow> conn"
  running :: bool
  stopped :: bool
  listener :: bool
  accepting :: bool

definition NewServer :: "(connPtr \<Rightarrow> conn) \<Rightarrow> WsServer" where
  "NewServer store = \<lparr>rooms = None, conns = store, running = False, stopped = False,
     listener = False, accepting = False\<rparr>"

section \<open>Rooms\<close>

definition JoinRoom :: "string \<Rightarrow> connPtr \<Rightarrow> WsServer \<Rightarrow> WsServer" where
  "JoinRoom room c s =
     (let rs = (case rooms s of None \<Rightarrow> [] | Some rs \<Rightarrow> rs);
          rs' = (if map_of rs room = None then m_put room [] rs else rs)
      in s\<lparr>rooms := Some (m_put room (m_put c () (the (map_of rs' room))) rs')\<rparr>)"

definition LeaveRoom :: "string \<Rightarrow> connPtr \<Rightarrow> WsServer \<Rightarrow> WsServer" where
  "LeaveRoom room c s =
     (case rooms s of
        None \<Rightarrow> s
      | Some rs \<Rightarrow> (case map_of rs room of
            None \<Rightarrow> s
          | Some ms \<Rightarrow>
              let rs' = m_put room (m_del c ms) rs
              in s\<lparr>rooms := Some (if m_del c ms = [] then m_del room rs' else rs')\<rparr>))"

definition room_table :: "WsServer \<Rightarrow> (string, (connPtr, unit) gomap) gomap" where
  "room_table s = (case rooms s of None \<Rightarrow> [] | Some rs \<Rightarrow> rs)"

definition inWsRoom :: "WsServer \<Rightarrow> string \<Rightarrow> connPtr \<Rightarrow> bool" where
  "inWsRoom s room c \<longleftrightarrow> tbl_member (room_table s) room c"

lemma delete_update: "m_del k (m_put k v m) = m_del k m"
  by (induction m) auto

lemma JoinRoom_table: "room_table (JoinRoom room c s) = (if map_of (room_table s) room = None
    then m_put room [(c, ())] (m_put room [] (room_table s)) else tbl_join room c () (room_table s))"
  by (auto simp: JoinRoom_def room_table_def tbl_join_def Let_def gomap_simps split: option.splits)

lemma put_put: "m_put k v (m_put k w m) = m_put k v m"
  by (induction m) auto

lemma JoinRoom_tbl: "room_table (JoinRoom room c s) = tbl_join room c () (room_table s)"
  by (auto simp: JoinRoom_table tbl_join_def put_put split: option.splits)

lemma LeaveRoom_tbl: "room_table (LeaveRoom room c s) = tbl_leave room c (room_table s)"
  by (auto simp: LeaveRoom_def room_table_def tbl_leave_def Let_def delete_update split: option.splits)

interpretation wsrooms: room_registry JoinRoom LeaveRoom inWsRoom
  "\<lambda>s. m_has (room_table s)" "\<lambda>s. tbl_inv (room_table s)"
  by unfold_locales
    (simp_all add: inWsRoom_def JoinRoom_tbl LeaveRoom_tbl tbl_inv_join tbl_inv_leave
      tbl_member_join tbl_member_leave tbl_room_iff)

text \<open>
  After any sequence of joins and leaves on a new server, a connection is in a room exactly if
  the last operation on the two was a join, and a room is in the map exactly if somebody is in it.
\<close>

theorem ws_rooms:
  "(inWsRoom (wsrooms.run ops (NewServer store)) room c \<longleftrightarrow> wsrooms.decides ops room c False) \<and>
   (m_has (room_table (wsrooms.run ops (NewServer store))) room \<longleftrightarrow> (\<exists>c. wsrooms.decides ops room c False))"
proof -
  have "tbl_inv (room_table (NewServer store))" "\<not> inWsRoom (NewServer store) room c" for room c
    by (simp_all add: room_table_def NewServer_def inWsRoom_def)
  then show ?thesis
    using wsrooms.member_run wsrooms.run_room_iff by simp
qed

text \<open>\<open>ord\<close> is the order in which \<^verbatim>\<open>range conns\<close> visits the members.\<close>

definition writeTo ::
  "(byte list \<Rightarrow> byte list) \<Rightarrow> MessageType \<Rightarrow> byte list \<Rightarrow> connPtr \<Rightarrow> WsServer \<Rightarrow> WsServer" where
  "writeTo deflate messageType data c s =
     s\<lparr>conns := (conns s)(c := snd (WriteMessage deflate messageType data (conns s c)))\<rparr>"

definition BroadcastToRoom ::
  "(byte list \<Rightarrow> byte list) \<Rightarrow> (connPtr list \<Rightarrow> connPtr list) \<Rightarrow> string \<Rightarrow> MessageType \<Rightarrow> byte list \<Rightarrow>
   WsServer \<Rightarrow> WsServer" where
  "BroadcastToRoom deflate ord room messageType data s =
     (let members = (case map_of (room_table s) room of None \<Rightarrow> [] | Some ms \<Rightarrow> m_keys ms)
      in fold (writeTo deflate messageType data) (ord members) s)"

lemma fold_writeTo:
  "distinct cs \<Longrightarrow> fold (writeTo deflate mt data) cs s =
    s\<lparr>conns := \<lambda>c. if c \<in> set cs then snd (WriteMessage deflate mt data (conns s c)) else conns s c\<rparr>"
proof (induction cs arbitrary: s)
  case (Cons a cs)
  have "fold (writeTo deflate mt data) cs (writeTo deflate mt data a s) =
      s\<lparr>conns := \<lambda>c. if c \<in> set (a # cs) then snd (WriteMessage deflate mt data (conns s c)) else conns s c\<rparr>"
    unfolding Cons.IH [OF distinct.simps(2) [THEN iffD1, OF Cons.prems, THEN conjunct2]]
    using Cons.prems by (auto simp: writeTo_def fun_eq_iff intro!: WsServer.equality)
  then show ?case by simp
qed simp

text \<open>
  A broadcast reaches the members of the room and nobody else, each once, whatever the order of
  the map: every member's connection is what one \<^verbatim>\<open>WriteMessage\<close> makes of it (so a closed or broken
  member does not keep the others from being served), every other connection and the rooms are
  untouched.
\<close>

theorem BroadcastToRoom_once:
  assumes "perm_fn ord" and "tbl_inv (room_table s)"
  shows "BroadcastToRoom deflate ord room mt data s =
    s\<lparr>conns := \<lambda>c. if inWsRoom s room c then snd (WriteMessage deflate mt data (conns s c)) else conns s c\<rparr>"
proof -
  define ms where "ms = (case map_of (room_table s) room of None \<Rightarrow> [] | Some ms \<Rightarrow> m_keys ms)"
  have "distinct ms" and mem: "c \<in> set ms \<longleftrightarrow> inWsRoom s room c" for c
    using assms(2) by (cases "map_of (room_table s) room";
        simp add: ms_def tbl_inv_def m_wf_def inWsRoom_def tbl_member_def m_has_iff_keys)+
  then have "distinct (ord ms)" "set (ord ms) = set ms"
    using assms(1) by (simp_all add: perm_fn_distinct perm_fn_set)
  then show ?thesis
    by (simp add: BroadcastToRoom_def ms_def [symmetric] fold_writeTo mem)
qed

definition demo_ws :: WsServer where
  "demo_ws = JoinRoom ''r'' 1 (JoinRoom ''r'' 2 (NewServer (\<lambda>_. demo_conn)))"

theorem BroadcastToRoom_once_witness:
  "BroadcastToRoom id rev ''r'' TextMessage [72, 105] demo_ws =
    demo_ws\<lparr>conns := \<lambda>c. if inWsRoom demo_ws ''r'' c
      then snd (WriteMessage id TextMessage [72, 105] (conns demo_ws c)) else conns demo_ws c\<rparr>"
proof (rule BroadcastToRoom_once)
  show "tbl_inv (room_table demo_ws)"
    unfolding demo_ws_def by (intro wsrooms.inv_join) (simp add: NewServer_def room_table_def)
qed simp

section \<open>Listen and Stop\<close>

text \<open>
  \<open>lerr\<close> is the error of \<^verbatim>\<open>net.Listen\<close> or \<^verbatim>\<open>tls.Listen\<close>, \<open>cerr\<close> that of closing the listener. The
  loop \<^verbatim>\<open>acceptConnections\<close> looks at \<^verbatim>\<open>stopCh\<close> before each accept, so a loop started when the channel
  is closed ends at once. Closing a closed channel panics.
\<close>

definition Listen :: "ws_error option \<Rightarrow> WsServer \<Rightarrow> ws_error option \<times> WsServer" where
  "Listen lerr s =
     (if running s then (Some (ErrText ''server already running''), s)
      else case lerr of
          Some e \<Rightarrow> (Some e, s)
        | None \<Rightarrow> (None, s\<lparr>listener := True, running := True, accepting := \<not> stopped s\<rparr>))"

definition Stop :: "ws_error option \<Rightarrow> WsServer \<Rightarrow> ws_error option outcome \<times> WsServer" where
  "Stop cerr s =
     (if \<not> running s then (Returned None, s)
      else if stopped s then (Panicked, s)
      else let s' = s\<lparr>stopped := True, running := False, accepting := False\<rparr>
           in if listener s' then (Returned cerr, s'\<lparr>listener := False\<rparr>) else (Returned None, s'))"

text \<open>
  A stopped server cannot be used again, though \<^verbatim>\<open>Listen\<close> says it can: after \<^verbatim>\<open>Stop\<close>, \<^verbatim>\<open>Listen\<close>
  returns no error and the server counts as running, but no loop accepts connections, and the
  next \<^verbatim>\<open>Stop\<close> panics, because \<^verbatim>\<open>stopCh\<close> is never made anew.
\<close>

theorem Listen_after_Stop:
  assumes "running s" and "\<not> stopped s"
  shows "\<exists>s1 s2. snd (Stop cerr s) = s1 \<and> fst (Stop cerr s) \<noteq> Panicked \<and>
    Listen None s1 = (None, s2) \<and> running s2 \<and> \<not> accepting s2 \<and> Stop cerr s2 = (Panicked, s2)"
  using assms by (auto simp: Stop_def Listen_def Let_def)

theorem Listen_after_Stop_witness:
  "\<exists>s1 s2. snd (Stop None (snd (Listen None demo_ws))) = s1 \<and> fst (Stop None (snd (Listen None demo_ws))) \<noteq> Panicked \<and>
    Listen None s1 = (None, s2) \<and> running s2 \<and> \<not> accepting s2 \<and> Stop None s2 = (Panicked, s2)"
  by (rule Listen_after_Stop)
    (simp_all add: Listen_def demo_ws_def JoinRoom_def NewServer_def)

text \<open>
  The loop behind \<^verbatim>\<open>Listen\<close>. The script has an entry per round: whether \<^verbatim>\<open>stopCh\<close> is closed when the round begins, and
  what \<^verbatim>\<open>Accept\<close> gives then. The result lists the errors handed to \<^verbatim>\<open>onError\<close> and the connections handed to
  \<^verbatim>\<open>handleConnection\<close>, and says whether the loop returned (if not, it waits in \<^verbatim>\<open>Accept\<close>).
\<close>

fun acceptConnections :: "bool \<Rightarrow> (bool \<times> (ws_error + 'c)) list \<Rightarrow> ws_error list \<times> 'c list \<times> bool" where
  "acceptConnections report [] = ([], [], False)"
| "acceptConnections report ((stop, a) # rounds) =
     (if stop then ([], [], True)
      else let (errs, served, ended) = acceptConnections report rounds
           in case a of
                Inl e \<Rightarrow> (if report then e # errs else errs, served, ended)
              | Inr c \<Rightarrow> (errs, c # served, ended))"

text \<open>
  The loop ends with the first round that finds the channel closed. Until then every accepted connection is served, once
  and in the order of the accepts, errors of \<^verbatim>\<open>Accept\<close> do not end it, and each is reported if there is a handler.
\<close>

theorem accepts_until_stopped:
  "let rounds = map snd (takeWhile (\<lambda>x. \<not> fst x) script)
   in acceptConnections report script =
     (if report then map projl (filter isl rounds) else [],
      map projr (filter (\<lambda>a. \<not> isl a) rounds), list_ex fst script)"
  unfolding Let_def
proof (induction report script rule: acceptConnections.induct)
  case (2 report stop a rounds)
  then show ?case by (cases a) auto
qed simp

section \<open>Serving one connection\<close>

text \<open>
  \<^verbatim>\<open>Server.handleConnection\<close>: the handshake on the bytes that arrive, \<^verbatim>\<open>onError\<close> with its error
  (kept in the list \<open>errs\<close>), otherwise \<^verbatim>\<open>onConnection\<close>, which may set handlers, and the message
  loop on the rest of the bytes. The transport is closed on every way out. The text before the
  connection's own bytes is the handshake's answer.
\<close>

definition serveConnection ::
  "(byte list \<Rightarrow> byte list) \<Rightarrow> ServerConfig \<Rightarrow> io_error option \<Rightarrow> (nat \<Rightarrow> byte) \<Rightarrow>
   (conn \<Rightarrow> conn handlers \<Rightarrow> conn \<times> conn handlers) option \<Rightarrow>
   (breader \<Rightarrow> conn \<Rightarrow> conn) \<Rightarrow> byte list \<Rightarrow> io_error \<Rightarrow>
   (ws_error + conn) \<times> byte list" where
  "serveConnection deflate cfg wr random onConn env input e =
     (case upgrade cfg wr random (string_of input) of
        (Inl err, answer, rest) \<Rightarrow> (Inl err, bytes_of answer)
      | (Inr c, answer, rest) \<Rightarrow>
          let h0 = setDefaultHandlers deflate noHandlers;
              (c1, h) = (case onConn of None \<Rightarrow> (c, h0) | Some f \<Rightarrow> f c h0);
              (c2, r) = handleConnection env h c1 \<lparr>rbytes = bytes_of rest, rerr = e\<rparr>
          in (Inr c2, bytes_of answer @ sent c2))"

text \<open>
  From the first byte to the last: a client that connects, sends a close frame right behind its
  handshake and nothing else gets the handshake's answer and one close frame with its own code
  and reason back, and the server's connection ends closed.
\<close>

theorem connect_and_close:
  assumes "one_line host" and "one_line uri" and "CHR '' '' \<notin> set uri" and "plain_tokens (Subprotocols cfg)"
    and "\<forall>f req. CheckOrigin s = Some f \<longrightarrow> f req" and "\<forall>f req. CheckAuth s = Some f \<longrightarrow> f req"
    and "length k = 4" and "0 \<le> code" and "code < 2 ^ 16"
    and "int (length (closePayload code reason)) \<le> MaxFrameSize s" and "length (closePayload code reason) < 2 ^ 63"
    and "isClient p" and "\<not> isServer p"
  shows "\<exists>c answer k'. serveConnection deflate s None rs None quiet
      (bytes_of (clientRequest cfg uri host (generateKey rc) []) @ frame_wire (closeFrame p code reason) k) e =
    (Inr c, bytes_of answer @ frame_wire (closeFrame c code reason) k') \<and>
    (\<exists>c0. upgrade s None rs (clientRequest cfg uri host (generateKey rc) []) = (Inr c0, answer, [])) \<and>
    length k' = 4 \<and> closed c \<and> closeReason c = code \<and> closeText c = reason"
proof -
  let ?req = "clientRequest cfg uri host (generateKey rc) []"
  let ?wire = "frame_wire (closeFrame p code reason) k"
  define c0 where "c0 = newServerConn (Config.truncate s) (chosenProtocol (Subprotocols s) (Subprotocols cfg)) None rs"
  define answer where "answer = handshakeResponse (generateAcceptKey (generateKey rc))
    (chosenProtocol (Subprotocols s) (Subprotocols cfg)) False"
  have up: "upgrade s None rs (?req @ x) = (Inr c0, answer, x)" for x
    unfolding c0_def answer_def by (rule upgrade_client [OF assms(1-6)])
  let ?c = "if EnablePingPong (config c0) \<and> isServer c0 then startKeepAlive c0 else c0"
  have c: "peers p ?c" "\<not> closed ?c" "werr ?c = None" "config ?c = Config.truncate s" "sent ?c = []"
    "\<not> isClient ?c" "\<not> isClient c0"
    using assms(12,13) by (auto simp: c0_def newServerConn_def startKeepAlive_def peers_def)
  obtain k' r' where k': "length k' = 4" and loop: "messageLoop quiet (setDefaultHandlers deflate noHandlers) ?c
      \<lparr>rbytes = ?wire, rerr = e\<rparr> =
    (?c\<lparr>closed := True, closeReason := code, closeText := reason,
       sent := sent ?c @ frame_wire (closeFrame ?c code reason) k', rnd := r', werr := Some net_closed\<rparr>,
     \<lparr>rbytes = [], rerr = e\<rparr>)" (is "_ = (?c1, _)")
    using close_frame_is_echoed [OF c(1-3) assms(7), of code reason deflate noHandlers "[]" e] assms(8-11) c(4)
    by (auto simp: Config.defs)
  have "handleConnection quiet (setDefaultHandlers deflate noHandlers) c0 \<lparr>rbytes = ?wire, rerr = e\<rparr> =
      (cleanup ?c1, \<lparr>rbytes = [], rerr = e\<rparr>)"
    using loop by (simp add: handleConnection_def setDefaultHandlers_def noHandlers_def Let_def)
  moreover have "closeFrame ?c code reason = closeFrame (cleanup ?c1) code reason"
    by (simp add: closeFrame_def dataFrame_def cleanup_def)
  ultimately have "serveConnection deflate s None rs None quiet (bytes_of ?req @ ?wire) e =
      (Inr (cleanup ?c1), bytes_of answer @ frame_wire (closeFrame (cleanup ?c1) code reason) k')"
    using up [of "string_of ?wire"] c(5) by (simp add: serveConnection_def cleanup_def)
  with k' up [of "[]"] show ?thesis
    by (intro exI [of _ "cleanup ?c1"] exI [of _ answer] exI [of _ k']) (simp add: cleanup_def)
qed

theorem connect_and_close_witness:
  "\<exists>c answer k'. serveConnection id demo_server None of_nat None quiet
      (bytes_of (clientRequest (DefaultConfig\<lparr>Subprotocols := [''chat'']\<rparr>) ''/ws'' ''example.org'' (generateKey of_nat) []) @
         frame_wire (closeFrame demo_client 1000 ''done'') [1, 2, 3, 4]) EOF =
    (Inr c, bytes_of answer @ frame_wire (closeFrame c 1000 ''done'') k') \<and>
    (\<exists>c0. upgrade demo_server None of_nat
        (clientRequest (DefaultConfig\<lparr>Subprotocols := [''chat'']\<rparr>) ''/ws'' ''example.org'' (generateKey of_nat) []) =
      (Inr c0, answer, [])) \<and>
    length k' = 4 \<and> closed c \<and> closeReason c = 1000 \<and> closeText c = ''done''"
  by (rule connect_and_close)
    (simp_all add: one_line_def plain_tokens_def plain_char_def code_of_def demo_server_def Config.defs
      closePayload_def demo_client_def demo_defs)

end
