(* ===== verification/BytePool.thy ===== *)
theory BytePool
  imports Prelude
begin

text \<open>
  \<^verbatim>\<open>internal/bpool\<close>: byte buffers (\<^verbatim>\<open>bytebuffer.go\<close>) and the pool that recycles them and adapts
  its sizes to the traffic (\<^verbatim>\<open>pool.go\<close>). A buffer is a slice: a backing array and the length in
  use. The pool's counters, its calibration and the size classes are modelled as they are; what
  \<^verbatim>\<open>sync.Pool\<close> hands out and the order \<^verbatim>\<open>sort.Sort\<close> gives to equal elements are left open.
\<close>

section \<open>Byte buffers\<close>

record ByteBuffer =
  barr :: "byte list"
  blen :: nat

definition buf_cap :: "ByteBuffer \<Rightarrow> nat" where
  "buf_cap b = length (barr b)"

definition buf_wf :: "ByteBuffer \<Rightarrow> bool" where
  "buf_wf b \<longleftrightarrow> blen b \<le> length (barr b)"

definition Bytes :: "ByteBuffer \<Rightarrow> byte list" where
  "Bytes b = take (blen b) (barr b)"

definition Len :: "ByteBuffer \<Rightarrow> nat" where
  "Len b = blen b"

definition bufString :: "ByteBuffer \<Rightarrow> string" where
  "bufString b = string_of (Bytes b)"

text \<open>
  \<^verbatim>\<open>append(b.B, p...)\<close>: in place when the capacity allows it, else into a new array. \<open>grow\<close> is the
  runtime's choice of the new capacity, from the old one and the length needed; it is at least
  the length needed (\<open>grows\<close>).
\<close>

definition grows :: "(nat \<Rightarrow> nat \<Rightarrow> nat) \<Rightarrow> bool" where
  "grows grow \<longleftrightarrow> (\<forall>cap need. need \<le> grow cap need)"

definition append_slice :: "(nat \<Rightarrow> nat \<Rightarrow> nat) \<Rightarrow> byte list \<Rightarrow> ByteBuffer \<Rightarrow> ByteBuffer" where
  "append_slice grow p b =
     (let n = blen b + length p
      in if n \<le> buf_cap b
         then b\<lparr>barr := take (blen b) (barr b) @ p @ drop n (barr b), blen := n\<rparr>
         else b\<lparr>barr := take (blen b) (barr b) @ p @ replicate (grow (buf_cap b) n - n) 0, blen := n\<rparr>)"

definition Write :: "(nat \<Rightarrow> nat \<Rightarrow> nat) \<Rightarrow> byte list \<Rightarrow> ByteBuffer \<Rightarrow> ByteBuffer \<times> nat" where
  "Write grow p b = (append_slice grow p b, length p)"

definition WriteByte :: "(nat \<Rightarrow> nat \<Rightarrow> nat) \<Rightarrow> byte \<Rightarrow> ByteBuffer \<Rightarrow> ByteBuffer" where
  "WriteByte grow c b = append_slice grow [c] b"

definition WriteString :: "(nat \<Rightarrow> nat \<Rightarrow> nat) \<Rightarrow> string \<Rightarrow> ByteBuffer \<Rightarrow> ByteBuffer \<times> nat" where
  "WriteString grow s b = (append_slice grow (bytes_of s) b, length s)"

definition Reset :: "ByteBuffer \<Rightarrow> ByteBuffer" where
  "Reset b = b\<lparr>blen := 0\<rparr>"

definition SetBytes :: "(nat \<Rightarrow> nat \<Rightarrow> nat) \<Rightarrow> byte list \<Rightarrow> ByteBuffer \<Rightarrow> ByteBuffer" where
  "SetBytes grow p b = append_slice grow p (Reset b)"

definition SetString :: "(nat \<Rightarrow> nat \<Rightarrow> nat) \<Rightarrow> string \<Rightarrow> ByteBuffer \<Rightarrow> ByteBuffer" where
  "SetString grow s b = append_slice grow (bytes_of s) (Reset b)"

lemma append_slice:
  assumes "grows grow" and "buf_wf b"
  shows "Bytes (append_slice grow p b) = Bytes b @ p" and "buf_wf (append_slice grow p b)"
    and "buf_cap b \<le> buf_cap (append_slice grow p b)"
proof -
  have "blen b + length p \<le> grow (buf_cap b) (blen b + length p)"
    using assms(1) by (simp add: grows_def)
  with assms(2) show "Bytes (append_slice grow p b) = Bytes b @ p" "buf_wf (append_slice grow p b)"
    "buf_cap b \<le> buf_cap (append_slice grow p b)"
    by (auto simp: append_slice_def Bytes_def buf_wf_def buf_cap_def Let_def)
qed

lemma Reset_wf [simp]: "buf_wf (Reset b)" "Bytes (Reset b) = []" "buf_cap (Reset b) = buf_cap b"
  by (simp_all add: Reset_def buf_wf_def Bytes_def buf_cap_def)

subsection \<open>ReadFrom\<close>

text \<open>
  The reader is a script: each entry is what one call of \<^verbatim>\<open>Read\<close> has ready, bytes and possibly an
  error with the last of them; a call takes at most as many bytes as there is room, and at the
  end of the script the reader reports the end of file. \<open>readScript\<close> is one call.
\<close>

datatype read_error = ReadEOF | ReadErr string

type_synonym read_script = "(byte list \<times> read_error option) list"

fun readScript :: "nat \<Rightarrow> read_script \<Rightarrow> (byte list \<times> read_error option) \<times> read_script" where
  "readScript room [] = (([], Some ReadEOF), [])"
| "readScript room ((bs, e) # script) =
     (if length bs \<le> room then ((bs, e), script)
      else ((take room bs, None), (drop room bs, e) # script))"

definition script_size :: "read_script \<Rightarrow> nat" where
  "script_size script = length script + sum_list (map (\<lambda>(bs, e). length bs) script)"

lemma readScript_shrinks:
  "0 < room \<Longrightarrow> readScript room script = ((bs, None), script') \<Longrightarrow> script_size script' < script_size script"
  by (cases script) (auto simp: script_size_def split: if_splits)

lemma readScript_shrinks_room:
  "\<not> l \<le> n \<Longrightarrow> ((bs, None), script') = readScript (l - n) script \<Longrightarrow>
   script_size script' < script_size script"
  by (rule readScript_shrinks [of "l - n" _ bs]) simp_all

text \<open>
  The loop of \<^verbatim>\<open>ReadFrom\<close> on the local slice \<^verbatim>\<open>p\<close>, whose length is \<open>nMax\<close>, filled up to \<open>n\<close>. With
  \<open>nMax = 0\<close> the doubling would not make room; the code starts at 64 then.
\<close>

function readLoop :: "byte list \<Rightarrow> nat \<Rightarrow> read_script \<Rightarrow> byte list \<times> nat \<times> read_error \<times> read_script" where
  "readLoop p n script =
     (let p' = (if n = length p then p @ replicate (length p) 0 else p)
      in if length p' \<le> n then (p', n, ReadErr ''no room'', script)
         else case readScript (length p' - n) script of
            ((bs, err), script') \<Rightarrow>
              let p'' = take n p' @ bs @ drop (n + length bs) p'
              in case err of
                   Some e \<Rightarrow> (p'', n + length bs, e, script')
                 | None \<Rightarrow> readLoop p'' (n + length bs) script')"
  by pat_completeness auto
termination
  by (relation "measure (\<lambda>(p, n, script). script_size script)")
    (auto intro: readScript_shrinks_room)

declare readLoop.simps [simp del]

text \<open>The bytes read, the error other than the end of file, and what is left of the script.\<close>

definition ReadFrom :: "read_script \<Rightarrow> ByteBuffer \<Rightarrow> ByteBuffer \<times> nat \<times> read_error option \<times> read_script" where
  "ReadFrom script b =
     (let p = (if buf_cap b = 0 then replicate 64 0 else barr b);
          (p', n, e, script') = readLoop p (blen b) script
      in (b\<lparr>barr := p', blen := n\<rparr>, n - blen b, if e = ReadEOF then None else Some e, script'))"

text \<open>What a script delivers in the end, whatever room each call had.\<close>

fun script_data :: "read_script \<Rightarrow> byte list \<times> read_error \<times> read_script" where
  "script_data [] = ([], ReadEOF, [])"
| "script_data ((bs, Some e) # script) = (bs, e, script)"
| "script_data ((bs, None) # script) = (case script_data script of (ds, e, rest) \<Rightarrow> (bs @ ds, e, rest))"

lemma readScript_data:
  assumes "readScript room script = ((bs, err), script')" and "0 < room"
  shows "length bs \<le> room \<and> script_data script =
    (case err of Some e \<Rightarrow> (bs, e, script')
     | None \<Rightarrow> (case script_data script' of (ds, e, rest) \<Rightarrow> (bs @ ds, e, rest)))"
proof (cases script)
  case Nil
  with assms show ?thesis by auto
next
  case (Cons x xs)
  obtain cs e where x: "x = (cs, e)" by fastforce
  have cs: "cs = take room cs @ drop room cs" by simp
  show ?thesis
    using assms Cons x by (cases e) (auto split: if_splits prod.splits)
qed

lemma readLoop_data:
  assumes "n \<le> length p" and "0 < length p" and "script_data script = (ds, e, rest)"
  shows "\<exists>p'. readLoop p n script = (p', n + length ds, e, rest) \<and> take (n + length ds) p' = take n p @ ds \<and>
    n + length ds \<le> length p' \<and> length p \<le> length p'"
  using assms
proof (induction p n script arbitrary: ds rule: readLoop.induct)
  case (1 p n script)
  let ?p = "if n = length p then p @ replicate (length p) 0 else p"
  have room: "\<not> length ?p \<le> n" and same: "take n ?p = take n p" and more: "length p \<le> length ?p"
    using 1(2,3) by auto
  obtain bs err script' where rs: "readScript (length ?p - n) script = ((bs, err), script')"
    by (metis prod.exhaust)
  let ?q = "take n ?p @ bs @ drop (n + length bs) ?p"
  from rs room have bs: "length bs \<le> length ?p - n"
    and sd: "script_data script = (case err of Some e \<Rightarrow> (bs, e, script')
     | None \<Rightarrow> (case script_data script' of (ds, e, rest) \<Rightarrow> (bs @ ds, e, rest)))"
    using readScript_data [OF rs] by auto
  have q: "length ?q = length ?p" "take (n + length bs) ?q = take n p @ bs"
    using bs room same by auto
  show ?case
  proof (cases err)
    case (Some e')
    then have "readLoop p n script = (?q, n + length bs, e', script')"
      using rs room by (subst readLoop.simps) (simp add: Let_def)
    with Some sd 1(4) q bs room more show ?thesis by auto
  next
    case None
    obtain ds' e' rest' where sd': "script_data script' = (ds', e', rest')" by (metis prod.exhaust)
    with None sd 1(4) have eq: "ds = bs @ ds'" "e' = e" "rest' = rest" by auto
    have step: "readLoop p n script = readLoop ?q (n + length bs) script'"
      using rs room None by (subst readLoop.simps) (simp add: Let_def)
    have "\<exists>p'. readLoop ?q (n + length bs) script' = (p', n + length bs + length ds', e, rest) \<and>
      take (n + length bs + length ds') p' = take (n + length bs) ?q @ ds' \<and>
      n + length bs + length ds' \<le> length p' \<and> length ?q \<le> length p'"
      by (rule 1(1) [OF refl _ rs [symmetric] refl refl None])
        (use room bs q sd' eq 1(2,3) in auto)
    then obtain p' where "readLoop ?q (n + length bs) script' = (p', n + length bs + length ds', e, rest)"
      "take (n + length bs + length ds') p' = take (n + length bs) ?q @ ds'"
      "n + length bs + length ds' \<le> length p'" "length ?q \<le> length p'" by blast
    then have "readLoop p n script = (p', n + length ds, e, rest)" "take (n + length ds) p' = take n p @ ds"
      "n + length ds \<le> length p'" "length p \<le> length p'"
      unfolding step eq q using more by (simp_all add: add.assoc)
    then show ?thesis by blast
  qed
qed

text \<open>
  \<^verbatim>\<open>ReadFrom\<close> takes everything: whatever pieces the reader delivers and however often the buffer
  has to be doubled, the loop ends, the buffer holds its old bytes followed by all the bytes the
  reader delivered before its first error, the count is theirs, and the end of file is not
  reported as an error.
\<close>

theorem ReadFrom_all:
  assumes "buf_wf b" and "script_data script = (ds, e, rest)"
  shows "\<exists>b'. ReadFrom script b = (b', length ds, if e = ReadEOF then None else Some e, rest) \<and>
    buf_wf b' \<and> Bytes b' = Bytes b @ ds"
proof -
  let ?p = "if buf_cap b = 0 then replicate 64 0 else barr b"
  have p: "blen b \<le> length ?p" "0 < length ?p" "take (blen b) ?p = Bytes b"
    using assms(1) by (auto simp: buf_wf_def buf_cap_def Bytes_def)
  from readLoop_data [OF p(1,2) assms(2)] obtain p' where
    "readLoop ?p (blen b) script = (p', blen b + length ds, e, rest)"
    "take (blen b + length ds) p' = Bytes b @ ds" "blen b + length ds \<le> length p'"
    unfolding p(3) by blast
  then show ?thesis
    by (intro exI [of _ "b\<lparr>barr := p', blen := blen b + length ds\<rparr>"])
      (simp add: ReadFrom_def Let_def buf_wf_def Bytes_def)
qed

theorem ReadFrom_all_witness:
  "\<exists>b'. ReadFrom [([1, 2], None), ([], None), ([3], Some ReadEOF)] \<lparr>barr = [9], blen = 1\<rparr> =
      (b', length [1 :: byte, 2, 3], if ReadEOF = ReadEOF then None else Some ReadEOF, []) \<and>
    buf_wf b' \<and> Bytes b' = Bytes \<lparr>barr = [9], blen = 1\<rparr> @ [1, 2, 3]"
  by (rule ReadFrom_all) (simp_all add: buf_wf_def)

section \<open>The pool\<close>

definition defaultMinBitSize :: nat where "defaultMinBitSize = 6"
definition steps :: nat where "steps = 20"
definition calibrateCallsThreshold :: nat where "calibrateCallsThreshold = 42000"

lemmas pool_const_defs = defaultMinBitSize_def steps_def calibrateCallsThreshold_def

record Pool =
  calls :: "nat list"
  calibrating :: nat
  defaultSize :: nat
  maxSize :: nat
  minBitSize :: nat
  minSize :: nat
  items :: "ByteBuffer list"

text \<open>The zero value of \<^verbatim>\<open>Pool\<close>, as the package variable \<^verbatim>\<open>defaultPool\<close> starts.\<close>

definition newPool :: Pool where
  "newPool = \<lparr>calls = replicate steps 0, calibrating = 0, defaultSize = 0, maxSize = 0,
     minBitSize = 0, minSize = 0, items = []\<rparr>"

text \<open>\<^verbatim>\<open>index\<close>: \<open>bitLoop\<close> is its loop, with a negative \<open>n\<close> shifted arithmetically.\<close>

function bitLoop :: "int \<Rightarrow> nat \<Rightarrow> nat" where
  "bitLoop n idx = (if n > 0 then bitLoop (n div 2) (idx + 1) else idx)"
  by pat_completeness auto
termination
  by (relation "measure (\<lambda>(n, idx). nat n)") auto

declare bitLoop.simps [simp del]

definition size_index :: "nat \<Rightarrow> nat \<Rightarrow> nat" where
  "size_index minBits n =
     (let idx = bitLoop ((int n - 1) div 2 ^ minBits) 0 in if idx \<ge> steps then steps - 1 else idx)"

definition resizeBins :: "nat \<Rightarrow> Pool \<Rightarrow> Pool" where
  "resizeBins minBits p = p\<lparr>minBitSize := minBits, minSize := 2 ^ minBits\<rparr>"

definition initBins :: "Pool \<Rightarrow> Pool" where
  "initBins p = p\<lparr>minBitSize := defaultMinBitSize, minSize := 2 ^ defaultMinBitSize\<rparr>"

text \<open>
  \<^verbatim>\<open>uint64(float64(callsSum) * maxPercentile)\<close>: the constant 0.95 is the double
  \<open>8556839292003942 / 2^53\<close>; conversion and product round to 53 bits, ties to even.
\<close>

fun bitLength :: "nat \<Rightarrow> nat" where
  "bitLength n = (if n = 0 then 0 else Suc (bitLength (n div 2)))"

declare bitLength.simps [simp del]

definition round53 :: "nat \<Rightarrow> nat" where
  "round53 m =
     (if m < 2 ^ 53 then m
      else let k = bitLength m - 53; q = m div 2 ^ k; r = 2 * (m mod 2 ^ k)
           in (if r > 2 ^ k \<or> r = 2 ^ k \<and> odd q then q + 1 else q) * 2 ^ k)"

definition percentile :: "nat \<Rightarrow> nat" where
  "percentile callsSum = round53 (round53 callsSum * 8556839292003942) div 2 ^ 53"

text \<open>
  \<^verbatim>\<open>calibrate\<close>. A pair is a \<^verbatim>\<open>callSize\<close>, \<open>srt\<close> what \<^verbatim>\<open>sort.Sort\<close> does with the array: it permutes it
  so that the calls descend (\<open>sorts\<close>); it promises nothing about the order of equal elements.
\<close>

type_synonym callSize = "nat \<times> nat"

definition sorts :: "(callSize list \<Rightarrow> callSize list) \<Rightarrow> bool" where
  "sorts srt \<longleftrightarrow> (\<forall>a. mset (srt a) = mset a \<and> sorted_wrt (\<lambda>x y. fst x \<ge> fst y) (srt a))"

definition binSizes :: "Pool \<Rightarrow> callSize list" where
  "binSizes p = map (\<lambda>i. (calls p ! i, minSize p * 2 ^ i)) [0..<steps]"

definition rebin :: "callSize list \<Rightarrow> Pool \<Rightarrow> Pool" where
  "rebin a p =
     (if minBitSize p + steps < 32 \<and> fst (a ! (steps - 1)) > fst (a ! 0) then resizeBins (minBitSize p + 1) p
      else if minBitSize p > defaultMinBitSize \<and> fst (a ! 0) > 0 \<and> fst (a ! (steps - 2)) = 0 \<and>
        fst (a ! (steps - 1)) = 0 then resizeBins (minBitSize p - 1) p
      else p)"

text \<open>The loop that stops once the calls passed exceed \<open>maxSum\<close>.\<close>

fun maxSizeLoop :: "nat \<Rightarrow> callSize list \<Rightarrow> nat \<Rightarrow> nat \<Rightarrow> nat" where
  "maxSizeLoop maxSum [] callsSum ms = ms"
| "maxSizeLoop maxSum ((c, sz) # a) callsSum ms =
     (if callsSum > maxSum then ms
      else maxSizeLoop maxSum a (callsSum + c) (if sz > ms then sz else ms))"

definition calibrate :: "(callSize list \<Rightarrow> callSize list) \<Rightarrow> Pool \<Rightarrow> Pool" where
  "calibrate srt p =
     (if calibrating p \<noteq> 0 then p
      else let p1 = p\<lparr>calibrating := 1\<rparr>;
               p2 = (if minBitSize p1 = 0 then initBins p1 else p1);
               a = binSizes p2;
               callsSum = sum_list (map fst a);
               p3 = rebin a (p2\<lparr>calls := replicate steps 0\<rparr>);
               a' = srt a;
               ds = snd (a' ! 0);
               ms = maxSizeLoop (percentile callsSum) a' 0 ds
           in p3\<lparr>defaultSize := ds, maxSize := ms, calibrating := 0\<rparr>)"

text \<open>
  \<^verbatim>\<open>sync.Pool\<close>: \<open>pick\<close> says which of the items a \<^verbatim>\<open>Get\<close> returns, if any; the runtime may drop items
  at any time.
\<close>

definition pool_take :: "nat option \<Rightarrow> Pool \<Rightarrow> ByteBuffer option \<times> Pool" where
  "pool_take pick p =
     (case pick of
        None \<Rightarrow> (None, p)
      | Some i \<Rightarrow> if i < length (items p)
                  then (Some (items p ! i), p\<lparr>items := take i (items p) @ drop (i + 1) (items p)\<rparr>)
                  else (None, p))"

definition poolGet :: "nat option \<Rightarrow> Pool \<Rightarrow> ByteBuffer \<times> Pool" where
  "poolGet pick p =
     (case pool_take pick p of
        (Some b, p') \<Rightarrow> (Reset b, p')
      | (None, p') \<Rightarrow> (\<lparr>barr = replicate (defaultSize p') 0, blen = 0\<rparr>, p'))"

definition freshLen :: "nat \<Rightarrow> Pool \<Rightarrow> ByteBuffer" where
  "freshLen s p =
     (let sz = minSize p * 2 ^ size_index (minBitSize p) s
      in \<lparr>barr = replicate (if sz < s then s else sz) 0, blen = s\<rparr>)"

definition poolGetLen :: "nat option \<Rightarrow> nat \<Rightarrow> Pool \<Rightarrow> ByteBuffer \<times> Pool" where
  "poolGetLen pick s p =
     (case pool_take pick p of
        (None, p') \<Rightarrow> (freshLen s p', p')
      | (Some b, p') \<Rightarrow>
          if buf_cap b \<ge> s then (b\<lparr>blen := s\<rparr>, p')
          else (freshLen s p', p'\<lparr>items := b # items p'\<rparr>))"

definition poolPut :: "(callSize list \<Rightarrow> callSize list) \<Rightarrow> ByteBuffer \<Rightarrow> Pool \<Rightarrow> Pool" where
  "poolPut srt b p =
     (let p1 = (if minBitSize p = 0 then initBins p else p);
          idx = size_index (minBitSize p1) (Len b);
          p2 = p1\<lparr>calls := (calls p1)[idx := calls p1 ! idx + 1]\<rparr>;
          p3 = (if calls p2 ! idx > calibrateCallsThreshold then calibrate srt p2 else p2)
      in if maxSize p3 = 0 \<or> buf_cap b \<le> maxSize p3 then p3\<lparr>items := b # items p3\<rparr> else p3)"

section \<open>Size classes\<close>

lemma bitLoop_add: "bitLoop n (idx + j) = bitLoop n idx + j"
proof (induction n idx rule: bitLoop.induct)
  case (1 n idx)
  then show ?case
    by (cases "n > 0") (simp_all add: bitLoop.simps [of n])
qed

lemma bitLoop_shift: "bitLoop n idx = idx + bitLoop n 0"
  using bitLoop_add [of n 0 idx] by simp

lemma bitLoop_bounds:
  assumes "0 \<le> n"
  shows "n < 2 ^ bitLoop n 0 \<and> (bitLoop n 0 > 0 \<longrightarrow> 2 ^ (bitLoop n 0 - 1) \<le> n)"
  using assms
proof (induction "nat n" arbitrary: n rule: less_induct)
  case less
  show ?case
  proof (cases "n = 0")
    case True
    then show ?thesis by (simp add: bitLoop.simps)
  next
    case False
    with less(2) have n: "n > 0" by simp
    define k where "k = bitLoop (n div 2) 0"
    have step: "bitLoop n 0 = Suc k"
      using n bitLoop_shift [of "n div 2" 1] by (subst bitLoop.simps) (simp add: k_def)
    have "n div 2 < 2 ^ k \<and> (k > 0 \<longrightarrow> 2 ^ (k - 1) \<le> n div 2)"
      unfolding k_def by (rule less(1)) (use n in auto)
    then show ?thesis
      unfolding step using n by (cases k) auto
  qed
qed

text \<open>\<^verbatim>\<open>index\<close> never leaves the counter array; a length fits the class picked, or none, and no smaller one.\<close>

lemma size_index_tightest:
  "size_index m n < steps \<and>
   (n \<le> 2 ^ (m + steps - 1) \<or> size_index m n < steps - 1 \<longrightarrow> n \<le> 2 ^ m * 2 ^ size_index m n) \<and>
   (size_index m n > 0 \<longrightarrow> 2 ^ m * 2 ^ (size_index m n - 1) < n)"
proof (cases "n = 0")
  case True
  have "(-1 :: int) div 2 ^ m \<le> 0" by (simp add: div_nonpos_pos_le0)
  with True show ?thesis by (simp add: size_index_def bitLoop.simps steps_def)
next
  case False
  define q :: int where "q = (int n - 1) div 2 ^ m"
  define k where "k = bitLoop q 0"
  have q: "0 \<le> q" using False by (simp add: q_def pos_imp_zdiv_nonneg_iff)
  note bounds = bitLoop_bounds [OF q, folded k_def]
  have split: "int n - 1 = q * 2 ^ m + (int n - 1) mod 2 ^ m" "0 \<le> (int n - 1) mod 2 ^ m"
    "(int n - 1) mod 2 ^ m < 2 ^ m"
    using div_mult_mod_eq [of "int n - 1" "2 ^ m"] by (simp_all only: q_def) auto
  have up: "n \<le> 2 ^ m * 2 ^ j" if "q < 2 ^ j" for j
  proof -
    from that have "(q + 1) * 2 ^ m \<le> 2 ^ j * 2 ^ m" by (intro mult_right_mono) auto
    then have "q * 2 ^ m + 2 ^ m \<le> 2 ^ m * 2 ^ j" by (simp only: distrib_right mult_1 mult.commute [of "2 ^ m"])
    with split have "int n \<le> 2 ^ m * 2 ^ j" by linarith
    then have "int n \<le> int (2 ^ m * 2 ^ j)" by simp
    then show ?thesis by (simp only: of_nat_le_iff)
  qed
  have low: "2 ^ m * 2 ^ j < n" if "2 ^ j \<le> q" for j
  proof -
    from that have "2 ^ j * 2 ^ m \<le> q * 2 ^ m" by (intro mult_right_mono) auto
    then have "2 ^ m * 2 ^ j \<le> q * 2 ^ m" by (simp only: mult.commute [of "2 ^ m"])
    with split have "2 ^ m * 2 ^ j < int n" by linarith
    then have "int (2 ^ m * 2 ^ j) < int n" by simp
    then show ?thesis by (simp only: of_nat_less_iff)
  qed
  have idx: "size_index m n = (if k \<ge> 20 then 19 else k)"
    by (simp add: size_index_def k_def q_def steps_def)
  show ?thesis
  proof (cases "k \<ge> 20")
    case True
    then have "(2 :: int) ^ 19 \<le> 2 ^ (k - 1)" by (intro power_increasing) auto
    with bounds True have "2 ^ 19 \<le> q" by auto
    from low [OF this] have big: "2 ^ m * 2 ^ 19 < n" .
    then have "2 ^ m * 2 ^ 18 < n" by simp
    with big True show ?thesis by (simp add: idx steps_def power_add)
  next
    case False
    with bounds up [of k] low [of "k - 1"] show ?thesis by (simp add: idx steps_def)
  qed
qed

text \<open>
  Size classes. The loop of shifts in \<^verbatim>\<open>index\<close> computes the smallest class whose size the length does not
  exceed, the last class taking everything else.
\<close>

theorem size_index_least: "size_index m n = (LEAST k. k = steps - 1 \<or> n \<le> 2 ^ m * 2 ^ k)"
proof (rule sym, rule Least_equality)
  note tight = size_index_tightest [of m n]
  show "size_index m n = steps - 1 \<or> n \<le> 2 ^ m * 2 ^ size_index m n" using tight by linarith
  fix k
  assume k: "k = steps - 1 \<or> n \<le> 2 ^ m * 2 ^ k"
  show "size_index m n \<le> k"
  proof (rule ccontr)
    assume less: "\<not> size_index m n \<le> k"
    then have "2 ^ m * 2 ^ k \<le> (2 :: nat) ^ m * 2 ^ (size_index m n - 1)" by (intro mult_left_mono power_increasing) auto
    with tight less k show False by linarith
  qed
qed

section \<open>Calibration\<close>

text \<open>The calls whose buffers would fit: those of the bins up to a given size.\<close>

definition calls_up_to :: "nat \<Rightarrow> callSize list \<Rightarrow> nat" where
  "calls_up_to ms a = sum_list (map fst (filter (\<lambda>x. snd x \<le> ms) a))"

lemma calls_up_to_perm: "mset a = mset b \<Longrightarrow> calls_up_to ms a = calls_up_to ms b"
  unfolding calls_up_to_def sum_mset_sum_list [symmetric] mset_map mset_filter by simp

lemma maxSizeLoop_ge: "ms \<le> maxSizeLoop maxSum a n ms"
  by (induction maxSum a n ms rule: maxSizeLoop.induct) auto

lemma maxSizeLoop_covers:
  "maxSum < n + calls_up_to (maxSizeLoop maxSum a n ms) a \<or> (\<forall>x \<in> set a. snd x \<le> maxSizeLoop maxSum a n ms)"
proof (induction maxSum a n ms rule: maxSizeLoop.induct)
  case (2 maxSum c sz a n ms)
  let ?ms = "if sz > ms then sz else ms"
  show ?case
  proof (cases "n > maxSum")
    case False
    have "sz \<le> maxSizeLoop maxSum a (n + c) ?ms"
      using maxSizeLoop_ge [of ?ms maxSum a "n + c"] by (auto split: if_splits)
    with False 2 [OF False] show ?thesis
      by (auto simp: calls_up_to_def add.assoc)
  qed simp
qed simp

lemma length_binSizes [simp]: "length (binSizes p) = steps"
  by (simp add: binSizes_def)

lemma sorts_head:
  assumes "sorts srt" and "a \<noteq> []"
  shows "srt a ! 0 \<in> set a" and "\<forall>x \<in> set a. fst x \<le> fst (srt a ! 0)"
proof -
  from assms(1) have m: "mset (srt a) = mset a" and s: "sorted_wrt (\<lambda>x y. fst x \<ge> fst y) (srt a)"
    by (auto simp: sorts_def)
  then have eq: "set (srt a) = set a" by (metis set_mset_mset)
  with assms(2) obtain y ys where ys: "srt a = y # ys" by (cases "srt a") auto
  with s eq show "srt a ! 0 \<in> set a" "\<forall>x \<in> set a. fst x \<le> fst (srt a ! 0)"
    by (auto simp del: eq simp add: eq [symmetric])
qed

text \<open>
  C36. What a calibration achieves. Whatever order the sort gives to equal counts, the counters are
  empty afterwards, the new default size is the size of a bin with the most calls, the new
  maximum is at least that, and the buffers up to the maximum cover more than the 95th
  percentile of the calls counted (or all of them).
\<close>

theorem calibrate_covers_percentile:
  assumes "sorts srt" and "calibrating p = 0" and "minBitSize p \<noteq> 0"
  shows "calls (calibrate srt p) = replicate steps 0 \<and> calibrating (calibrate srt p) = 0 \<and>
    (\<exists>c. (c, defaultSize (calibrate srt p)) \<in> set (binSizes p) \<and> (\<forall>x \<in> set (binSizes p). fst x \<le> c)) \<and>
    defaultSize (calibrate srt p) \<le> maxSize (calibrate srt p) \<and>
    (percentile (sum_list (map fst (binSizes p))) < calls_up_to (maxSize (calibrate srt p)) (binSizes p) \<or>
     (\<forall>x \<in> set (binSizes p). snd x \<le> maxSize (calibrate srt p)))"
proof -
  let ?a = "binSizes p"
  let ?pc = "percentile (sum_list (map fst ?a))"
  let ?ds = "snd (srt ?a ! 0)"
  let ?ms = "maxSizeLoop ?pc (srt ?a) 0 ?ds"
  have a: "binSizes (p\<lparr>calibrating := 1\<rparr>) = ?a" by (simp add: binSizes_def)
  have rebin_calls: "calls (rebin x q) = calls q" for x q
    by (simp add: rebin_def resizeBins_def)
  have fields: "calls (calibrate srt p) = replicate steps 0" "calibrating (calibrate srt p) = 0"
    "defaultSize (calibrate srt p) = ?ds" "maxSize (calibrate srt p) = ?ms"
    using assms(2,3) by (simp_all add: calibrate_def Let_def a [unfolded One_nat_def] rebin_calls)
  have ne: "?a \<noteq> []" by (metis length_binSizes list.size(3) steps_def zero_neq_numeral)
  have m: "mset (srt ?a) = mset ?a" using assms(1) by (simp add: sorts_def)
  have "?pc < calls_up_to ?ms ?a \<or> (\<forall>x \<in> set ?a. snd x \<le> ?ms)"
    using maxSizeLoop_covers [of ?pc 0 "srt ?a" ?ds] calls_up_to_perm [OF m] mset_eq_setD [OF m] by simp
  moreover have "(fst (srt ?a ! 0), ?ds) \<in> set ?a" "\<forall>x \<in> set ?a. fst x \<le> fst (srt ?a ! 0)"
    using sorts_head [OF assms(1) ne] by simp_all
  ultimately show ?thesis
    unfolding fields using maxSizeLoop_ge by blast
qed

text \<open>The sort of the witness: insertion by descending calls.\<close>

definition demo_sort :: "callSize list \<Rightarrow> callSize list" where
  "demo_sort a = rev (sort_key fst a)"

lemma demo_sort: "sorts demo_sort"
proof -
  have "sorted_wrt (\<lambda>x y. fst y \<le> fst x) (rev (sort_key fst a))" for a :: "callSize list"
    using sorted_sort_key [of fst a] by (simp only: sorted_wrt_rev sorted_map)
  then show ?thesis by (simp add: sorts_def demo_sort_def)
qed

theorem calibrate_covers_percentile_witness:
  "calls (calibrate demo_sort (initBins newPool)) = replicate steps 0 \<and>
    defaultSize (calibrate demo_sort (initBins newPool)) \<le> maxSize (calibrate demo_sort (initBins newPool))"
proof -
  have pre: "calibrating (initBins newPool) = 0" "minBitSize (initBins newPool) \<noteq> 0"
    by (simp_all add: initBins_def newPool_def defaultMinBitSize_def)
  from calibrate_covers_percentile [OF demo_sort pre] show ?thesis by blast
qed

section \<open>The pool keeps its invariant\<close>

definition pool_inv :: "Pool \<Rightarrow> bool" where
  "pool_inv p \<longleftrightarrow> length (calls p) = steps \<and> calibrating p = 0 \<and> defaultSize p \<le> maxSize p \<and>
     (minBitSize p = 0 \<and> minSize p = 0 \<or>
      defaultMinBitSize \<le> minBitSize p \<and> minBitSize p \<le> 12 \<and> minSize p = 2 ^ minBitSize p) \<and>
     (\<forall>b \<in> set (items p). buf_wf b)"

lemma newPool_inv: "pool_inv newPool"
  by (simp add: pool_inv_def newPool_def)

lemma rebin_sizes:
  assumes "defaultMinBitSize \<le> minBitSize p" "minBitSize p \<le> 12" "minSize p = 2 ^ minBitSize p"
  shows "defaultMinBitSize \<le> minBitSize (rebin a p)" "minBitSize (rebin a p) \<le> 12"
    "minSize (rebin a p) = 2 ^ minBitSize (rebin a p)"
  using assms by (auto simp: rebin_def resizeBins_def steps_def)

lemma rebin_rest: "items (rebin a p) = items p" "calls (rebin a p) = calls p"
  by (simp_all add: rebin_def resizeBins_def)

lemma calibrate_inv:
  assumes "pool_inv p"
  shows "pool_inv (calibrate srt p)"
proof -
  define p2 where "p2 = (if minBitSize p = 0 then initBins (p\<lparr>calibrating := 1\<rparr>) else p\<lparr>calibrating := 1\<rparr>)"
  define p3 where "p3 = rebin (binSizes p2) (p2\<lparr>calls := replicate steps 0\<rparr>)"
  have p2: "defaultMinBitSize \<le> minBitSize p2" "minBitSize p2 \<le> 12" "minSize p2 = 2 ^ minBitSize p2"
    "items p2 = items p"
    using assms by (auto simp: p2_def pool_inv_def initBins_def defaultMinBitSize_def)
  have p3: "defaultMinBitSize \<le> minBitSize p3" "minBitSize p3 \<le> 12" "minSize p3 = 2 ^ minBitSize p3"
    "items p3 = items p" "calls p3 = replicate steps 0"
    using rebin_sizes [of "p2\<lparr>calls := replicate steps 0\<rparr>" "binSizes p2"] p2
    by (simp_all add: p3_def rebin_rest)
  have "calibrate srt p = p3\<lparr>defaultSize := snd (srt (binSizes p2) ! 0),
      maxSize := maxSizeLoop (percentile (sum_list (map fst (binSizes p2)))) (srt (binSizes p2)) 0
        (snd (srt (binSizes p2) ! 0)), calibrating := 0\<rparr>"
    using assms unfolding calibrate_def Let_def p3_def p2_def pool_inv_def
    by (simp only: Pool.simps if_not_P not_not refl not_True_eq_False if_False cong: if_cong) simp
  with p3 assms show ?thesis by (simp add: pool_inv_def maxSizeLoop_ge)
qed

lemma pool_take_inv:
  assumes "pool_inv p" and "pool_take pick p = (r, p')"
  shows "pool_inv p'" and "\<forall>b. r = Some b \<longrightarrow> b \<in> set (items p)"
proof -
  have "pool_inv (p\<lparr>items := take i (items p) @ drop (i + 1) (items p)\<rparr>)" for i
  proof -
    have "set (take i (items p) @ drop (i + 1) (items p)) \<subseteq> set (items p)"
      using set_take_subset [of i "items p"] set_drop_subset [of "i + 1" "items p"] by simp
    with assms(1) have "\<forall>b \<in> set (take i (items p) @ drop (i + 1) (items p)). buf_wf b"
      unfolding pool_inv_def by blast
    with assms(1) show ?thesis by (simp add: pool_inv_def del: set_append)
  qed
  with assms show "pool_inv p'" "\<forall>b. r = Some b \<longrightarrow> b \<in> set (items p)"
    by (auto simp: pool_take_def split: option.splits if_splits)
qed

text \<open>
  Every pool reached from the zero value keeps its invariant (twenty counters, sizes that are
  powers of two between 64 and 4096, the default size at most the maximum), whatever
  \<^verbatim>\<open>sync.Pool\<close> hands out: \<^verbatim>\<open>Get\<close> returns an empty buffer, \<^verbatim>\<open>GetLen\<close> one of exactly the length asked
  for with at least that capacity, and \<^verbatim>\<open>Put\<close> keeps a buffer only if its capacity is within the
  maximum.
\<close>

theorem pool_operations:
  assumes "pool_inv p"
  shows "(\<forall>pick. buf_wf (fst (poolGet pick p)) \<and> Bytes (fst (poolGet pick p)) = [] \<and> pool_inv (snd (poolGet pick p))) \<and>
    (\<forall>pick s. Len (fst (poolGetLen pick s p)) = s \<and> buf_wf (fst (poolGetLen pick s p)) \<and>
       s \<le> buf_cap (fst (poolGetLen pick s p)) \<and> pool_inv (snd (poolGetLen pick s p))) \<and>
    (\<forall>srt b. buf_wf b \<longrightarrow> pool_inv (poolPut srt b p) \<and>
       (b \<in> set (items (poolPut srt b p)) \<longrightarrow> b \<in> set (items p) \<or>
          maxSize (poolPut srt b p) = 0 \<or> buf_cap b \<le> maxSize (poolPut srt b p)))"
proof (intro conjI allI impI)
  fix pick
  obtain r p' where t: "pool_take pick p = (r, p')" by fastforce
  note inv = pool_take_inv [OF assms t]
  show "buf_wf (fst (poolGet pick p))" "Bytes (fst (poolGet pick p)) = []" "pool_inv (snd (poolGet pick p))"
    using t inv by (cases r; simp add: poolGet_def buf_wf_def Bytes_def Reset_def)+
next
  fix pick s
  obtain r p' where t: "pool_take pick p = (r, p')" by fastforce
  note inv = pool_take_inv [OF assms t]
  have fresh: "Len (freshLen s q) = s" "buf_wf (freshLen s q)" "s \<le> buf_cap (freshLen s q)" for q
    by (simp_all add: freshLen_def Len_def buf_wf_def buf_cap_def Let_def)
  show "Len (fst (poolGetLen pick s p)) = s" "buf_wf (fst (poolGetLen pick s p))"
    "s \<le> buf_cap (fst (poolGetLen pick s p))" "pool_inv (snd (poolGetLen pick s p))"
    using t inv fresh assms
    by (cases r; simp add: poolGetLen_def Len_def buf_wf_def buf_cap_def pool_inv_def)+
next
  fix srt b assume b: "buf_wf b"
  define p1 where "p1 = (if minBitSize p = 0 then initBins p else p)"
  define idx where "idx = size_index (minBitSize p1) (Len b)"
  define p2 where "p2 = p1\<lparr>calls := (calls p1)[idx := calls p1 ! idx + 1]\<rparr>"
  define p3 where "p3 = (if calls p2 ! idx > calibrateCallsThreshold then calibrate srt p2 else p2)"
  have put: "poolPut srt b p = (if maxSize p3 = 0 \<or> buf_cap b \<le> maxSize p3 then p3\<lparr>items := b # items p3\<rparr> else p3)"
    by (simp add: poolPut_def p3_def p2_def idx_def p1_def Let_def)
  have inv2: "pool_inv p2" and items2: "items p2 = items p"
    using assms by (auto simp: p2_def p1_def pool_inv_def initBins_def defaultMinBitSize_def)
  have "items (calibrate srt p2) = items p2"
    by (simp add: calibrate_def Let_def rebin_rest initBins_def)
  then have inv3: "pool_inv p3" "items p3 = items p"
    using inv2 items2 by (simp_all add: p3_def calibrate_inv)
  show "pool_inv (poolPut srt b p)"
    using inv3 b by (simp add: put pool_inv_def)
  assume "b \<in> set (items (poolPut srt b p))"
  then show "b \<in> set (items p) \<or> maxSize (poolPut srt b p) = 0 \<or> buf_cap b \<le> maxSize (poolPut srt b p)"
    using inv3 by (auto simp: put split: if_splits)
qed

theorem pool_operations_witness:
  "Bytes (fst (poolGet None newPool)) = [] \<and> Len (fst (poolGetLen None 1000 newPool)) = 1000 \<and>
    pool_inv (poolPut demo_sort (fst (poolGet None newPool)) newPool)"
  using pool_operations [OF newPool_inv] by blast

end
