(* ===== verification/SioHub.thy ===== *)
theory SioHub
  imports Rooms
begin

text \<open>
  The socket hub: \<^verbatim>\<open>hub.go\<close>, \<^verbatim>\<open>socket.go\<close> and the interface of \<^verbatim>\<open>adapter.go\<close>. The hub is one
  goroutine, \<^verbatim>\<open>listen\<close>, that serves requests one after the other; each request is one step on the
  state. A socket keeps its own list of rooms beside the hub's; the two are proved to agree after
  any sequence of operations. The third-party \<^verbatim>\<open>websocket.Conn\<close> behind a socket appears as the
  list of messages handed to it and the errors its \<^verbatim>\<open>Close\<close> and \<^verbatim>\<open>WriteMessage\<close> return.
\<close>

section \<open>State\<close>

text \<open>
  Socket ids come from \<^verbatim>\<open>xid\<close> and are unique, so an id stands for its \<^verbatim>\<open>*Socket\<close>; \<open>store\<close> is what
  the pointer points at. Data of an event is a string, a byte slice or anything else, which
  \<^verbatim>\<open>json.Marshal\<close> turns into bytes (\<open>marshal\<close>, \<^const>\<open>None\<close> being its error).
\<close>

type_synonym sid = string

datatype 'd any = AStr string | ABytes "byte list" | AOther 'd

record 'd RoomMsg =
  RoomName :: string
  RExcept :: "string list"
  REventName :: string
  RData :: "'d any"

record 'd BroadcastMsg =
  BEventName :: string
  BExcept :: "string list"
  BData :: "'d any"

record Socket =
  sclosed :: bool
  srooms :: "(string, bool) gomap"
  sout :: "(int \<times> byte list) list"
  ticker :: bool
  pinging :: bool

text \<open>The calls of the \<^verbatim>\<open>Adapter\<close> that the hub makes, in order.\<close>

datatype 'd adapter_call = AInit | AShutdown | ARoomcast "'d RoomMsg" | ABroadcast "'d BroadcastMsg"

record 'd hub =
  hsockets :: "(sid, sid) gomap"
  hrooms :: "(string, (sid, sid) gomap) gomap"
  multihomeEnabled :: bool
  backend :: "'d adapter_call list"

record 'd sio =
  hub :: "'d hub"
  store :: "sid \<Rightarrow> Socket"

definition newHub :: "'d hub" where
  "newHub = \<lparr>hsockets = [], hrooms = [], multihomeEnabled = False, backend = []\<rparr>"

section \<open>Emitting\<close>

text \<open>\<^verbatim>\<open>emitData\<close>: event name, start-of-header byte, type letter, start-of-data byte, data.\<close>

definition startOfHeaderByte :: byte where "startOfHeaderByte = 1"
definition startOfDataByte :: byte where "startOfDataByte = 2"
definition typeJSON :: string where "typeJSON = ''J''"
definition typeBin :: string where "typeBin = ''B''"
definition typeStr :: string where "typeStr = ''S''"

definition emitData :: "('d \<Rightarrow> byte list option) \<Rightarrow> string \<Rightarrow> 'd any \<Rightarrow> int \<times> byte list" where
  "emitData marshal eventName data =
     (let buf = bytes_of eventName @ [startOfHeaderByte]
      in case data of
           AStr d \<Rightarrow> (1, buf @ bytes_of typeStr @ [startOfDataByte] @ bytes_of d)
         | ABytes d \<Rightarrow> (2, buf @ bytes_of typeBin @ [startOfDataByte] @ d)
         | AOther d \<Rightarrow> (1, buf @ bytes_of typeJSON @ [startOfDataByte] @
             (case marshal d of None \<Rightarrow> [] | Some js \<Rightarrow> js)))"

definition upd_socket :: "sid \<Rightarrow> (Socket \<Rightarrow> Socket) \<Rightarrow> 'd sio \<Rightarrow> 'd sio" where
  "upd_socket s f st = st\<lparr>store := (store st)(s := f (store st s))\<rparr>"

definition upd_hub :: "('d hub \<Rightarrow> 'd hub) \<Rightarrow> 'd sio \<Rightarrow> 'd sio" where
  "upd_hub f st = st\<lparr>hub := f (hub st)\<rparr>"

lemma upd_simps [simp]:
  "hub (upd_socket s f st) = hub st" "store (upd_socket s f st) = (store st)(s := f (store st s))"
  "hub (upd_hub g st) = g (hub st)" "store (upd_hub g st) = store st"
  by (simp_all add: upd_socket_def upd_hub_def)

text \<open>\<^verbatim>\<open>Socket.Emit\<close>; its result, the error of the connection, is \<open>werr s\<close>.\<close>

definition send :: "(sid \<Rightarrow> 'e option) \<Rightarrow> int \<times> byte list \<Rightarrow> sid \<Rightarrow> 'd sio \<Rightarrow> 'e option \<times> 'd sio" where
  "send werr m s st = (werr s, upd_socket s (\<lambda>x. x\<lparr>sout := sout x @ [m]\<rparr>) st)"

definition Emit ::
  "('d \<Rightarrow> byte list option) \<Rightarrow> (sid \<Rightarrow> 'e option) \<Rightarrow> string \<Rightarrow> 'd any \<Rightarrow> sid \<Rightarrow> 'd sio \<Rightarrow>
   'e option \<times> 'd sio" where
  "Emit marshal werr eventName data s st = send werr (emitData marshal eventName data) s st"

section \<open>The requests of the hub\<close>

definition joinRoom :: "string \<Rightarrow> sid \<Rightarrow> 'd hub \<Rightarrow> 'd hub" where
  "joinRoom r s h =
     (let rooms = (if map_of (hrooms h) r = None then m_put r [] (hrooms h) else hrooms h)
      in h\<lparr>hrooms := m_put r (m_put s s (the (map_of rooms r))) rooms\<rparr>)"

definition leaveRoom :: "string \<Rightarrow> sid \<Rightarrow> 'd hub \<Rightarrow> 'd hub" where
  "leaveRoom r s h =
     (case map_of (hrooms h) r of
        None \<Rightarrow> h
      | Some socks \<Rightarrow>
          let socks' = m_del s socks; rooms = m_put r socks' (hrooms h)
          in h\<lparr>hrooms := (if socks' = [] then m_del r rooms else rooms)\<rparr>)"

text \<open>
  The loop over the sockets of a room (or of the hub). \<open>ord\<close> is the order of the \<^verbatim>\<open>range\<close>; the
  errors of \<^verbatim>\<open>Emit\<close> are dropped.
\<close>

definition emitUnless ::
  "('d \<Rightarrow> byte list option) \<Rightarrow> string list \<Rightarrow> string \<Rightarrow> 'd any \<Rightarrow> sid \<Rightarrow> 'd sio \<Rightarrow> 'd sio" where
  "emitUnless marshal except eventName data s st =
     (if length except > 0
      then if s \<notin> set except then snd (Emit marshal (\<lambda>_. None :: unit option) eventName data s st) else st
      else snd (Emit marshal (\<lambda>_. None :: unit option) eventName data s st))"

definition castAll ::
  "('d \<Rightarrow> byte list option) \<Rightarrow> (sid list \<Rightarrow> sid list) \<Rightarrow> (sid, sid) gomap \<Rightarrow> string list \<Rightarrow> string \<Rightarrow>
   'd any \<Rightarrow> 'd sio \<Rightarrow> 'd sio" where
  "castAll marshal ord socks except eventName data st =
     fold (emitUnless marshal except eventName data) (ord (m_keys socks)) st"

definition castRoom ::
  "('d \<Rightarrow> byte list option) \<Rightarrow> (sid list \<Rightarrow> sid list) \<Rightarrow> 'd RoomMsg \<Rightarrow> 'd sio \<Rightarrow> 'd sio" where
  "castRoom marshal ord c st =
     (case map_of (hrooms (hub st)) (RoomName c) of
        None \<Rightarrow> st
      | Some socks \<Rightarrow> castAll marshal ord socks (RExcept c) (REventName c) (RData c) st)"

definition castHub ::
  "('d \<Rightarrow> byte list option) \<Rightarrow> (sid list \<Rightarrow> sid list) \<Rightarrow> 'd BroadcastMsg \<Rightarrow> 'd sio \<Rightarrow> 'd sio" where
  "castHub marshal ord c st = castAll marshal ord (hsockets (hub st)) (BExcept c) (BEventName c) (BData c) st"

text \<open>To another server through the adapter, in a goroutine of its own.\<close>

definition toBackend :: "'d adapter_call \<Rightarrow> 'd sio \<Rightarrow> 'd sio" where
  "toBackend call st =
     upd_hub (\<lambda>h. if multihomeEnabled h then h\<lparr>backend := backend h @ [call]\<rparr> else h) st"

datatype 'd request =
    AddSocket sid
  | DelSocket sid
  | JoinReq string sid
  | LeaveReq string sid
  | RoomMsgReq "'d RoomMsg"
  | BroomcastReq "'d RoomMsg"
  | BroadcastReq "'d BroadcastMsg"
  | BbroadcastReq "'d BroadcastMsg"
  | ShutdownReq

text \<open>One turn of \<^verbatim>\<open>listen\<close>; the list is the answer to a shutdown request.\<close>

fun listen ::
  "('d \<Rightarrow> byte list option) \<Rightarrow> (sid list \<Rightarrow> sid list) \<Rightarrow> 'd request \<Rightarrow> 'd sio \<Rightarrow> sid list \<times> 'd sio" where
  "listen marshal ord (AddSocket s) st = ([], upd_hub (\<lambda>h. h\<lparr>hsockets := m_put s s (hsockets h)\<rparr>) st)"
| "listen marshal ord (DelSocket s) st = ([], upd_hub (\<lambda>h. h\<lparr>hsockets := m_del s (hsockets h)\<rparr>) st)"
| "listen marshal ord (JoinReq r s) st = ([], upd_hub (joinRoom r s) st)"
| "listen marshal ord (LeaveReq r s) st = ([], upd_hub (leaveRoom r s) st)"
| "listen marshal ord (RoomMsgReq c) st = ([], toBackend (ARoomcast c) (castRoom marshal ord c st))"
| "listen marshal ord (BroomcastReq c) st = ([], castRoom marshal ord c st)"
| "listen marshal ord (BroadcastReq c) st = ([], toBackend (ABroadcast c) (castHub marshal ord c st))"
| "listen marshal ord (BbroadcastReq c) st = ([], castHub marshal ord c st)"
| "listen marshal ord ShutdownReq st = (ord (m_keys (hsockets (hub st))), st)"

definition setMultihomeBackend :: "'d sio \<Rightarrow> 'd sio" where
  "setMultihomeBackend st =
     upd_hub (\<lambda>h. if multihomeEnabled h then h
                  else h\<lparr>multihomeEnabled := True, backend := backend h @ [AInit]\<rparr>) st"

section \<open>Sockets\<close>

text \<open>
  The operations of a socket that go through the hub send it a request and wait until it has taken
  it; \<open>hub_do\<close> is that.
\<close>

definition hub_do :: "'d request \<Rightarrow> 'd sio \<Rightarrow> 'd sio" where
  "hub_do req st = snd (listen (\<lambda>_. None) id req st)"

definition newSocket :: "sid \<Rightarrow> 'd sio \<Rightarrow> 'd sio" where
  "newSocket s st =
     hub_do (AddSocket s)
       (upd_socket s (\<lambda>_. \<lparr>sclosed = False, srooms = [], sout = [], ticker = True, pinging = True\<rparr>) st)"

definition InRoom :: "string \<Rightarrow> Socket \<Rightarrow> bool" where
  "InRoom r x = (case map_of (srooms x) r of None \<Rightarrow> False | Some b \<Rightarrow> b)"

definition GetRooms :: "(string list \<Rightarrow> string list) \<Rightarrow> Socket \<Rightarrow> string list" where
  "GetRooms ord x = ord (m_keys (srooms x))"

definition Join :: "string \<Rightarrow> sid \<Rightarrow> 'd sio \<Rightarrow> 'd sio" where
  "Join r s st = upd_socket s (\<lambda>x. x\<lparr>srooms := m_put r True (srooms x)\<rparr>) (hub_do (JoinReq r s) st)"

definition Leave :: "string \<Rightarrow> sid \<Rightarrow> 'd sio \<Rightarrow> 'd sio" where
  "Leave r s st = upd_socket s (\<lambda>x. x\<lparr>srooms := m_del r (srooms x)\<rparr>) (hub_do (LeaveReq r s) st)"

definition LeaveAll :: "(string list \<Rightarrow> string list) \<Rightarrow> sid \<Rightarrow> 'd sio \<Rightarrow> 'd sio" where
  "LeaveAll ord s st = fold (\<lambda>r. Leave r s) (ord (m_keys (srooms (store st s)))) st"

text \<open>
  \<^verbatim>\<open>Close\<close> in three parts, between which other goroutines may run: marking the socket and closing
  the connection (with the error \<open>cerr\<close> that ends it) and taking the list of rooms; leaving
  those rooms; the disconnect handler \<open>disc\<close>, whose error ends it too, and leaving the hub.
\<close>

definition closeBegin ::
  "(string list \<Rightarrow> string list) \<Rightarrow> 'e option \<Rightarrow> sid \<Rightarrow> 'd sio \<Rightarrow>
   ('e option + string list) \<times> 'd sio" where
  "closeBegin ord cerr s st =
     (if sclosed (store st s) then (Inl None, st)
      else let st1 = upd_socket s (\<lambda>x. x\<lparr>sclosed := True\<rparr>) st
           in case cerr of
                Some e \<Rightarrow> (Inl (Some e), st1)
              | None \<Rightarrow> (Inr (GetRooms ord (store st1 s)), st1))"

definition closeEnd ::
  "(sid \<Rightarrow> 'd sio \<Rightarrow> 'e option \<times> 'd sio) option \<Rightarrow> sid \<Rightarrow> 'd sio \<Rightarrow> 'e option \<times> 'd sio" where
  "closeEnd disc s st =
     (case (case disc of None \<Rightarrow> (None, st) | Some f \<Rightarrow> f s st) of
        (Some e, st') \<Rightarrow> (Some e, st')
      | (None, st') \<Rightarrow>
          let st'' = hub_do (DelSocket s) st'
          in (None, upd_socket s (\<lambda>x. if ticker x then x\<lparr>ticker := False, pinging := False\<rparr> else x) st''))"

definition Close ::
  "(string list \<Rightarrow> string list) \<Rightarrow> 'e option \<Rightarrow> (sid \<Rightarrow> 'd sio \<Rightarrow> 'e option \<times> 'd sio) option \<Rightarrow>
   sid \<Rightarrow> 'd sio \<Rightarrow> 'e option \<times> 'd sio" where
  "Close ord cerr disc s st =
     (case closeBegin ord cerr s st of
        (Inl r, st1) \<Rightarrow> (r, st1)
      | (Inr rooms, st1) \<Rightarrow> closeEnd disc s (fold (\<lambda>r. Leave r s) rooms st1))"

section \<open>The two views of a room agree\<close>

definition inHubRoom :: "'d sio \<Rightarrow> string \<Rightarrow> sid \<Rightarrow> bool" where
  "inHubRoom st r s = tbl_member (hrooms (hub st)) r s"

definition sio_inv :: "'d sio \<Rightarrow> bool" where
  "sio_inv st \<longleftrightarrow> m_wf (hsockets (hub st)) \<and> tbl_inv (hrooms (hub st)) \<and>
     (\<forall>s. m_wf (srooms (store st s))) \<and>
     (\<forall>r s. inHubRoom st r s \<longleftrightarrow> InRoom r (store st s)) \<and>
     (\<forall>r s. m_has (srooms (store st s)) r \<longrightarrow> InRoom r (store st s))"

lemma put_same [simp]: "m_put k v (m_put k w m) = m_put k v m" "m_del k (m_put k v m) = m_del k m"
  by (induction m) auto

lemma joinRoom_tbl: "hrooms (joinRoom r s h) = tbl_join r s s (hrooms h)"
  by (auto simp: joinRoom_def tbl_join_def Let_def gomap_simps split: option.splits)

lemma leaveRoom_tbl: "hrooms (leaveRoom r s h) = tbl_leave r s (hrooms h)"
  by (auto simp: leaveRoom_def tbl_leave_def Let_def split: option.splits)

lemma hub_room_frame [simp]:
  "hsockets (joinRoom r s h) = hsockets h" "hsockets (leaveRoom r s h) = hsockets h"
  by (auto simp: joinRoom_def leaveRoom_def Let_def split: option.splits)

lemma hub_do_simps [simp]:
  "hub_do (AddSocket s) st = upd_hub (\<lambda>h. h\<lparr>hsockets := m_put s s (hsockets h)\<rparr>) st"
  "hub_do (DelSocket s) st = upd_hub (\<lambda>h. h\<lparr>hsockets := m_del s (hsockets h)\<rparr>) st"
  "hub_do (JoinReq r s) st = upd_hub (joinRoom r s) st"
  "hub_do (LeaveReq r s) st = upd_hub (leaveRoom r s) st"
  by (simp_all add: hub_do_def)

lemma InRoom_put: "InRoom r (x\<lparr>srooms := m_put r' True (srooms x)\<rparr>) \<longleftrightarrow> r = r' \<or> InRoom r x"
  by (simp add: InRoom_def gomap_simps)

lemma InRoom_del: "InRoom r (x\<lparr>srooms := m_del r' (srooms x)\<rparr>) \<longleftrightarrow> r \<noteq> r' \<and> InRoom r x"
  by (simp add: InRoom_def gomap_simps)

lemma Join_inv: "sio_inv st \<Longrightarrow> sio_inv (Join r s st)"
  by (auto simp: sio_inv_def Join_def inHubRoom_def joinRoom_tbl tbl_inv_join tbl_member_join InRoom_put
      gomap_simps)

lemma Leave_inv: "sio_inv st \<Longrightarrow> sio_inv (Leave r s st)"
  by (auto simp: sio_inv_def Leave_def inHubRoom_def leaveRoom_tbl tbl_inv_leave tbl_member_leave InRoom_del
      gomap_simps)

text \<open>
  The rooms of the hub through the operations of the sockets: membership is what the socket itself
  believes, existence what the hub's map says.
\<close>

interpretation siorooms: room_registry Join Leave "\<lambda>st r s. InRoom r (store st s)"
  "\<lambda>st r. m_has (hrooms (hub st)) r" sio_inv
proof unfold_locales
  fix st :: "'a sio" and r :: string and s :: sid and r' s'
  assume inv: "sio_inv st"
  show "sio_inv (Join r s st)" "sio_inv (Leave r s st)"
    using inv by (simp_all add: Join_inv Leave_inv)
  show "InRoom r' (store (Join r s st) s') \<longleftrightarrow> (r' = r \<and> s' = s) \<or> InRoom r' (store st s')"
    by (auto simp: Join_def InRoom_put)
  show "InRoom r' (store (Leave r s st) s') \<longleftrightarrow> \<not> (r' = r \<and> s' = s) \<and> InRoom r' (store st s')"
    by (auto simp: Leave_def InRoom_del)
  show "m_has (hrooms (hub st)) r \<longleftrightarrow> (\<exists>s. InRoom r (store st s))"
    using inv tbl_room_iff [of "hrooms (hub st)" r] by (simp add: sio_inv_def inHubRoom_def)
qed

lemma GetRooms_iff:
  assumes "sio_inv st" and "perm_fn ord"
  shows "r \<in> set (GetRooms ord (store st s)) \<longleftrightarrow> InRoom r (store st s)"
proof -
  have "InRoom r x \<Longrightarrow> m_has (srooms x) r" for x
    by (cases "map_of (srooms x) r") (simp_all add: InRoom_def m_has_def)
  with assms show ?thesis
    unfolding GetRooms_def perm_fn_set [OF assms(2)] m_has_iff_keys [symmetric] sio_inv_def by blast
qed

section \<open>Casts reach the right sockets once\<close>

definition excepted :: "string list \<Rightarrow> sid \<Rightarrow> bool" where
  "excepted except s \<longleftrightarrow> s \<in> set except"

definition gets :: "int \<times> byte list \<Rightarrow> Socket \<Rightarrow> Socket" where
  "gets m x = x\<lparr>sout := sout x @ [m]\<rparr>"

lemma emitUnless_eq:
  "emitUnless marshal except name data s st =
    (if excepted except s then st else upd_socket s (gets (emitData marshal name data)) st)"
  by (auto simp: emitUnless_def excepted_def Emit_def send_def gets_def [abs_def])

lemma fold_emitUnless:
  "distinct ss \<Longrightarrow> fold (emitUnless marshal except name data) ss st =
    st\<lparr>store := \<lambda>s. if s \<in> set ss \<and> \<not> excepted except s then gets (emitData marshal name data) (store st s)
       else store st s\<rparr>"
proof (induction ss arbitrary: st)
  case (Cons a ss)
  then have "fold (emitUnless marshal except name data) ss (emitUnless marshal except name data a st) =
      st\<lparr>store := \<lambda>s. if s \<in> set (a # ss) \<and> \<not> excepted except s then gets (emitData marshal name data) (store st s)
         else store st s\<rparr>"
    by (subst Cons.IH) (auto simp: emitUnless_eq upd_socket_def fun_eq_iff)
  then show ?case by simp
qed simp

lemma castAll_eq:
  assumes "perm_fn ord" and "m_wf socks"
  shows "castAll marshal ord socks except name data st =
    st\<lparr>store := \<lambda>s. if m_has socks s \<and> \<not> excepted except s then gets (emitData marshal name data) (store st s)
       else store st s\<rparr>"
  using assms fold_emitUnless [of "ord (m_keys socks)"]
  by (simp add: castAll_def m_wf_def perm_fn_distinct perm_fn_set m_has_iff_keys)

lemma castRoom_eq:
  assumes "perm_fn ord" and "sio_inv st"
  shows "castRoom marshal ord c st =
    st\<lparr>store := \<lambda>s. if InRoom (RoomName c) (store st s) \<and> \<not> excepted (RExcept c) s
       then gets (emitData marshal (REventName c) (RData c)) (store st s) else store st s\<rparr>"
proof -
  have inv: "tbl_inv (hrooms (hub st))"
    and agree: "InRoom r (store st s) \<longleftrightarrow> tbl_member (hrooms (hub st)) r s" for r s
    using assms(2) by (auto simp: sio_inv_def inHubRoom_def)
  show ?thesis
  proof (cases "map_of (hrooms (hub st)) (RoomName c)")
    case None
    then show ?thesis by (simp add: castRoom_def agree tbl_member_def)
  next
    case (Some socks)
    with inv have "m_wf socks" by (auto simp: tbl_inv_def)
    with Some show ?thesis by (simp add: castRoom_def agree tbl_member_def castAll_eq [OF assms(1)])
  qed
qed

text \<open>
  C25. A message to a room is handed exactly once to every socket that is in the room and not among
  the exceptions, to no other, in whatever order Go visits the room, and once to the adapter when
  there is one; a broadcast does the same for every socket of the hub; a message that came from
  the adapter is not sent back to it.
\<close>

theorem casts_reach_members_once:
  assumes "perm_fn ord" and "sio_inv st"
  shows "store (snd (listen marshal ord (RoomMsgReq c) st)) s =
      (if InRoom (RoomName c) (store st s) \<and> s \<notin> set (RExcept c)
       then (store st s)\<lparr>sout := sout (store st s) @ [emitData marshal (REventName c) (RData c)]\<rparr> else store st s) \<and>
    store (snd (listen marshal ord (BroadcastReq b) st)) s =
      (if m_has (hsockets (hub st)) s \<and> s \<notin> set (BExcept b)
       then (store st s)\<lparr>sout := sout (store st s) @ [emitData marshal (BEventName b) (BData b)]\<rparr> else store st s) \<and>
    backend (hub (snd (listen marshal ord (RoomMsgReq c) st))) =
      backend (hub st) @ (if multihomeEnabled (hub st) then [ARoomcast c] else []) \<and>
    backend (hub (snd (listen marshal ord (BroadcastReq b) st))) =
      backend (hub st) @ (if multihomeEnabled (hub st) then [ABroadcast b] else []) \<and>
    hub (snd (listen marshal ord (BroomcastReq c) st)) = hub st \<and>
    store (snd (listen marshal ord (BroomcastReq c) st)) = store (snd (listen marshal ord (RoomMsgReq c) st)) \<and>
    hub (snd (listen marshal ord (BbroadcastReq b) st)) = hub st \<and>
    store (snd (listen marshal ord (BbroadcastReq b) st)) = store (snd (listen marshal ord (BroadcastReq b) st))"
proof -
  have "m_wf (hsockets (hub st))" using assms(2) by (simp add: sio_inv_def)
  note eqs = castRoom_eq [OF assms] castAll_eq [OF assms(1) this]
  show ?thesis
    by (simp add: eqs castHub_def toBackend_def excepted_def gets_def)
qed

section \<open>Reachable states\<close>

text \<open>
  Any sequence of calls that the goroutines of a server can make: new sockets under fresh ids,
  \<^verbatim>\<open>Join\<close>, \<^verbatim>\<open>Leave\<close>, \<^verbatim>\<open>LeaveAll\<close> and \<^verbatim>\<open>Close\<close> (with any error of the connection and any
  disconnect handler that itself keeps to these calls), casts, shutdown requests and the backend.
\<close>

inductive sio_reach :: "('d \<Rightarrow> byte list option) \<Rightarrow> 'd sio \<Rightarrow> bool" for marshal where
  start: "\<forall>s. srooms (store0 s) = [] \<Longrightarrow> sio_reach marshal \<lparr>hub = newHub, store = store0\<rparr>"
| new: "sio_reach marshal st \<Longrightarrow> srooms (store st s) = [] \<Longrightarrow> sio_reach marshal (newSocket s st)"
| join: "sio_reach marshal st \<Longrightarrow> sio_reach marshal (Join r s st)"
| leave: "sio_reach marshal st \<Longrightarrow> sio_reach marshal (Leave r s st)"
| leave_all: "sio_reach marshal st \<Longrightarrow> sio_reach marshal (LeaveAll ord s st)"
| close_begin: "sio_reach marshal st \<Longrightarrow> sio_reach marshal (snd (closeBegin ord (cerr :: string option) s st))"
| close_end: "sio_reach marshal st \<Longrightarrow> sio_reach marshal (snd (closeEnd (None :: (sid \<Rightarrow> 'd sio \<Rightarrow> string option \<times> 'd sio) option) s st))"
| cast: "sio_reach marshal st \<Longrightarrow> perm_fn ord \<Longrightarrow>
    req \<in> {RoomMsgReq c, BroomcastReq c, BroadcastReq b, BbroadcastReq b, ShutdownReq} \<Longrightarrow>
    sio_reach marshal (snd (listen marshal ord req st))"
| multihome: "sio_reach marshal st \<Longrightarrow> sio_reach marshal (setMultihomeBackend st)"

definition same_rooms :: "'d sio \<Rightarrow> 'd sio \<Rightarrow> bool" where
  "same_rooms st st' \<longleftrightarrow> hrooms (hub st') = hrooms (hub st) \<and> (m_wf (hsockets (hub st)) \<longrightarrow> m_wf (hsockets (hub st'))) \<and>
     (\<forall>s. srooms (store st' s) = srooms (store st s))"

lemma same_rooms_inv: "same_rooms st st' \<Longrightarrow> sio_inv st \<Longrightarrow> sio_inv st'"
  by (simp add: same_rooms_def sio_inv_def inHubRoom_def InRoom_def)

lemma Leave_fold_inv: "sio_inv st \<Longrightarrow> sio_inv (fold (\<lambda>r. Leave r s) rs st)"
  by (induction rs arbitrary: st) (simp_all add: Leave_inv)

lemma listen_casts_same_rooms:
  assumes "perm_fn ord" and "sio_inv st"
    and "req \<in> {RoomMsgReq c, BroomcastReq c, BroadcastReq b, BbroadcastReq b, ShutdownReq}"
  shows "same_rooms st (snd (listen marshal ord req st))"
proof -
  have wf: "m_wf (hsockets (hub st))" using assms(2) by (simp add: sio_inv_def)
  have "same_rooms st (castRoom marshal ord c st)" for c
    unfolding castRoom_eq [OF assms(1,2)] by (simp add: same_rooms_def gets_def)
  moreover have "same_rooms st (castHub marshal ord b st)" for b
    unfolding castHub_def castAll_eq [OF assms(1) wf] by (simp add: same_rooms_def gets_def)
  moreover have "same_rooms st (toBackend call st') \<longleftrightarrow> same_rooms st st'" for call st'
    by (simp add: same_rooms_def toBackend_def)
  moreover have "same_rooms st st" by (simp add: same_rooms_def)
  ultimately show ?thesis using assms(3) by auto
qed

lemma close_same_rooms:
  "same_rooms st (snd (closeBegin ord cerr s st))" "same_rooms st (snd (closeEnd None s st))"
  by (auto simp: same_rooms_def closeBegin_def closeEnd_def Let_def split: option.splits)

lemma sio_reach_inv: "sio_reach marshal st \<Longrightarrow> sio_inv st"
proof (induction rule: sio_reach.induct)
  case (start store0)
  then show ?case by (simp add: sio_inv_def newHub_def inHubRoom_def InRoom_def)
next
  case (new st s)
  then have "same_rooms st (newSocket s st)" by (auto simp: same_rooms_def newSocket_def)
  with new show ?case by (blast intro: same_rooms_inv)
next
  case (leave_all st ord s)
  then show ?case by (simp add: LeaveAll_def Leave_fold_inv)
next
  case (close_begin st ord cerr s)
  then show ?case by (blast intro: same_rooms_inv close_same_rooms)
next
  case (close_end st s)
  then show ?case by (blast intro: same_rooms_inv close_same_rooms)
next
  case (cast st ord req c b)
  then show ?case by (blast intro: same_rooms_inv listen_casts_same_rooms)
next
  case (multihome st)
  then have "same_rooms st (setMultihomeBackend st)" by (simp add: same_rooms_def setMultihomeBackend_def)
  with multihome show ?case by (blast intro: same_rooms_inv)
qed (simp_all add: Join_inv Leave_inv)

text \<open>
  C24. The two records of a membership never disagree: in every state the server can reach, with
  joins, leaves, closes and casts interleaved in any way, a socket is in a room of the hub
  exactly if its own map says so, and the hub has a room exactly as long as somebody is in it.
\<close>

theorem rooms_agree:
  assumes "sio_reach marshal st"
  shows "(inHubRoom st r s \<longleftrightarrow> InRoom r (store st s)) \<and>
    (m_has (hrooms (hub st)) r \<longleftrightarrow> (\<exists>s. InRoom r (store st s))) \<and>
    (perm_fn ord \<longrightarrow> (r \<in> set (GetRooms ord (store st s)) \<longleftrightarrow> InRoom r (store st s)))"
proof -
  have inv: "sio_inv st" using assms by (rule sio_reach_inv)
  with siorooms.room_iff [OF inv] GetRooms_iff [OF inv] show ?thesis by (simp add: sio_inv_def)
qed

definition demo_sio :: "unit sio" where
  "demo_sio = Join ''lobby'' ''a'' (newSocket ''a'' \<lparr>hub = newHub,
     store = \<lambda>_. \<lparr>sclosed = True, srooms = [], sout = [], ticker = False, pinging = False\<rparr>\<rparr>)"

lemma demo_reach: "sio_reach (\<lambda>_. None) demo_sio"
  unfolding demo_sio_def by (intro join new start) simp_all

theorem rooms_agree_witness:
  "(inHubRoom demo_sio ''lobby'' ''a'' \<longleftrightarrow> InRoom ''lobby'' (store demo_sio ''a'')) \<and>
    (m_has (hrooms (hub demo_sio)) ''lobby'' \<longleftrightarrow> (\<exists>s. InRoom ''lobby'' (store demo_sio s))) \<and>
    (''lobby'' \<in> set (GetRooms rev (store demo_sio ''a'')) \<longleftrightarrow> InRoom ''lobby'' (store demo_sio ''a''))"
  using rooms_agree [OF demo_reach, of "''lobby''" "''a''" rev] by simp

theorem casts_reach_members_once_witness:
  "store (snd (listen (\<lambda>_. None) rev
      (RoomMsgReq \<lparr>RoomName = ''lobby'', RExcept = [], REventName = ''hi'', RData = AStr ''x''\<rparr>) demo_sio)) ''a'' =
    (store demo_sio ''a'')\<lparr>sout := sout (store demo_sio ''a'') @ [emitData (\<lambda>_. None) ''hi'' (AStr ''x'' :: unit any)]\<rparr>"
proof -
  have "InRoom ''lobby'' (store demo_sio ''a'')" by (simp add: demo_sio_def Join_def InRoom_put)
  then show ?thesis
    using casts_reach_members_once [OF perm_fn_rev sio_reach_inv [OF demo_reach],
        where marshal = "\<lambda>_. None" and c = "\<lparr>RoomName = ''lobby'', RExcept = [], REventName = ''hi'', RData = AStr ''x''\<rparr>"
          and s = "''a''", THEN conjunct1]
    by simp
qed

section \<open>Closing a socket\<close>

lemma Leave_fold:
  "InRoom r (store (fold (\<lambda>r. Leave r s) rs st) s') \<longleftrightarrow> \<not> (s' = s \<and> r \<in> set rs) \<and> InRoom r (store st s')"
proof (induction rs arbitrary: st)
  case (Cons a rs)
  then show ?case by (auto simp: Leave_def InRoom_del)
qed simp

lemma Leave_fold_frame:
  "hsockets (hub (fold (\<lambda>r. Leave r s) rs st)) = hsockets (hub st)"
  "sclosed (store (fold (\<lambda>r. Leave r s) rs st) s') = sclosed (store st s')"
  "sout (store (fold (\<lambda>r. Leave r s) rs st) s') = sout (store st s')"
  "ticker (store (fold (\<lambda>r. Leave r s) rs st) s') = ticker (store st s')"
  "pinging (store (fold (\<lambda>r. Leave r s) rs st) s') = pinging (store st s')"
  by (induction rs arbitrary: st) (auto simp: Leave_def)

definition leftHub :: "sid \<Rightarrow> 'd sio \<Rightarrow> 'd sio" where
  "leftHub s st = upd_socket s (\<lambda>x. if ticker x then x\<lparr>ticker := False, pinging := False\<rparr> else x)
     (upd_hub (\<lambda>h. h\<lparr>hsockets := m_del s (hsockets h)\<rparr>) st)"

lemma closeEnd_None: "closeEnd None s st = (None, leftHub s st)"
  by (simp add: closeEnd_def leftHub_def)

lemma leftHub_same_rooms: "same_rooms st (leftHub s st)"
  by (auto simp: same_rooms_def leftHub_def)

lemma leftHub_InRoom: "InRoom r (store (leftHub s st) s') = InRoom r (store st s')"
  by (simp add: leftHub_def InRoom_def)

lemma Close_effect:
  assumes "sio_inv st" and "perm_fn ord" and "\<not> sclosed (store st s)" and "st' = snd (Close ord (None :: 'e option) None s st)"
  shows "fst (Close ord (None :: 'e option) None s st) = None" and "sio_inv st'"
    and "hsockets (hub st') = m_del s (hsockets (hub st))"
    and "inHubRoom st' r s' \<longleftrightarrow> s' \<noteq> s \<and> inHubRoom st r s'"
    and "sclosed (store st' s') \<longleftrightarrow> s' = s \<or> sclosed (store st s')"
    and "pinging (store st' s) \<longleftrightarrow> \<not> ticker (store st s) \<and> pinging (store st s)"
proof -
  let ?st1 = "upd_socket s (\<lambda>x. x\<lparr>sclosed := True\<rparr>) st"
  let ?rs = "GetRooms ord (store ?st1 s)"
  let ?st2 = "fold (\<lambda>r. Leave r s) ?rs ?st1"
  have "same_rooms st ?st1" by (simp add: same_rooms_def)
  then have inv1: "sio_inv ?st1" using assms(1) by (rule same_rooms_inv)
  have close: "Close ord (None :: 'e option) None s st = (None, leftHub s ?st2)"
    using assms(3) by (simp add: Close_def closeBegin_def closeEnd_None)
  then have st': "st' = leftHub s ?st2" using assms(4) by simp
  show "fst (Close ord (None :: 'e option) None s st) = None" using close by simp
  show inv3: "sio_inv st'"
    unfolding st' using leftHub_same_rooms Leave_fold_inv [OF inv1] same_rooms_inv by blast
  show "hsockets (hub st') = m_del s (hsockets (hub st))"
    "sclosed (store st' s') \<longleftrightarrow> s' = s \<or> sclosed (store st s')"
    "pinging (store st' s) \<longleftrightarrow> \<not> ticker (store st s) \<and> pinging (store st s)"
    by (auto simp: st' leftHub_def Leave_fold_frame)
  have rooms1: "InRoom r (store ?st1 s') = InRoom r (store st s')"
    by (simp add: InRoom_def)
  have "InRoom r (store st s) \<Longrightarrow> r \<in> set ?rs"
    using GetRooms_iff [OF inv1 assms(2), of r s] by (simp add: InRoom_def)
  then show "inHubRoom st' r s' \<longleftrightarrow> s' \<noteq> s \<and> inHubRoom st r s'"
    using inv3 assms(1) leftHub_InRoom [of r s ?st2 s'] Leave_fold [of r s ?rs ?st1 s'] rooms1
    unfolding sio_inv_def st' by auto
qed



text \<open>
  C34. Two ways a closed socket stays behind. If closing the connection reports an error, \<^verbatim>\<open>Close\<close>
  returns it and the socket keeps its place in the hub and in all its rooms, and no later \<^verbatim>\<open>Close\<close>
  can change that. And if another goroutine (an event handler) calls \<^verbatim>\<open>Join\<close> after \<^verbatim>\<open>Close\<close> took
  its list of rooms, the closed socket stays in that room for ever, though it left the hub.
\<close>

theorem Close_can_leak:
  assumes "sio_inv st" and "perm_fn ord" and "\<not> sclosed (store st s)"
  shows "(\<exists>st'. Close ord (Some e) disc s st = (Some e, st') \<and> hub st' = hub st \<and>
      (\<forall>ord' cerr' disc'. Close ord' cerr' disc' s st' = (None, st'))) \<and>
    (\<not> InRoom r (store st s) \<longrightarrow>
     (\<exists>rooms st1 st'. closeBegin ord (None :: 'e option) s st = (Inr rooms, st1) \<and>
       closeEnd None s (fold (\<lambda>r. Leave r s) rooms (Join r s st1)) = (None :: 'e option, st') \<and>
       inHubRoom st' r s \<and> sclosed (store st' s) \<and> \<not> m_has (hsockets (hub st')) s))"
proof (intro conjI impI)
  show "\<exists>st'. Close ord (Some e) disc s st = (Some e, st') \<and> hub st' = hub st \<and>
      (\<forall>ord' cerr' disc'. Close ord' cerr' disc' s st' = (None, st'))"
    using assms(3) by (simp add: Close_def closeBegin_def)
next
  assume notin: "\<not> InRoom r (store st s)"
  let ?st1 = "upd_socket s (\<lambda>x. x\<lparr>sclosed := True\<rparr>) st"
  let ?rs = "GetRooms ord (store ?st1 s)"
  let ?st2 = "fold (\<lambda>r. Leave r s) ?rs (Join r s ?st1)"
  let ?st3 = "leftHub s ?st2"
  have "same_rooms st ?st1" by (simp add: same_rooms_def)
  then have inv1: "sio_inv ?st1" using assms(1) by (rule same_rooms_inv)
  then have "sio_inv ?st2" by (intro Leave_fold_inv Join_inv)
  then have inv3: "sio_inv ?st3" using leftHub_same_rooms same_rooms_inv by blast
  have "r \<notin> set ?rs"
    using notin GetRooms_iff [OF inv1 assms(2), of r s] by (simp add: InRoom_def)
  then have "InRoom r (store ?st2 s)"
    by (simp add: Leave_fold) (simp add: Join_def InRoom_def gomap_simps)
  then have "InRoom r (store ?st3 s)" unfolding leftHub_InRoom .
  with inv3 have "inHubRoom ?st3 r s" by (simp add: sio_inv_def)
  moreover have "sclosed (store ?st3 s)" "\<not> m_has (hsockets (hub ?st3)) s"
    by (simp_all add: leftHub_def gomap_simps Leave_fold_frame Join_def)
  ultimately show "\<exists>rooms st1 st'. closeBegin ord (None :: 'e option) s st = (Inr rooms, st1) \<and>
       closeEnd None s (fold (\<lambda>r. Leave r s) rooms (Join r s st1)) = (None :: 'e option, st') \<and>
       inHubRoom st' r s \<and> sclosed (store st' s) \<and> \<not> m_has (hsockets (hub st')) s"
    using assms(3)
    by (intro exI [of _ ?rs] exI [of _ ?st1] exI [of _ ?st3]) (simp add: closeBegin_def closeEnd_None)
qed

theorem Close_can_leak_witness:
  "\<exists>rooms st1 st'. closeBegin rev (None :: unit option) ''a'' demo_sio = (Inr rooms, st1) \<and>
     closeEnd None ''a'' (fold (\<lambda>r. Leave r ''a'') rooms (Join ''late'' ''a'' st1)) = (None :: unit option, st') \<and>
     inHubRoom st' ''late'' ''a'' \<and> sclosed (store st' ''a'') \<and> \<not> m_has (hsockets (hub st')) ''a''"
proof -
  have "\<not> sclosed (store demo_sio ''a'')" "\<not> InRoom ''late'' (store demo_sio ''a'')"
    by (simp_all add: demo_sio_def Join_def newSocket_def InRoom_def)
  with Close_can_leak [OF sio_reach_inv [OF demo_reach] perm_fn_rev, of "''a''" "()" None "''late''"]
  show ?thesis by blast
qed

end
