(* ===== verification/SioServer.thy ===== *)
theory SioServer
  imports SioHub GoStrings BytePool
begin

text \<open>
  The server of \<^verbatim>\<open>server.go\<close> on top of the hub: the registry of events, the cutting of a client's
  message into event name and data, the loop that serves one socket, messages to one socket
  through its private room, \<^verbatim>\<open>Shutdown\<close>; and \<^verbatim>\<open>emitData\<close> of \<^verbatim>\<open>socket.go\<close> once more, this time on
  the heap, where the slice it returns shares its array with a buffer that is already back in the
  pool.
\<close>

section \<open>Events\<close>

text \<open>The registry maps event names to handlers; a handler is named by a value of any type.\<close>

type_synonym 'h events = "(string, 'h) gomap"

definition On :: "string \<Rightarrow> 'h \<Rightarrow> 'h events \<Rightarrow> 'h events" where
  "On eventName handler evs = m_put eventName handler evs"

definition Off :: "string \<Rightarrow> 'h events \<Rightarrow> 'h events" where
  "Off eventName evs = m_del eventName evs"

text \<open>
  The search for the start-of-data byte in the body of \<^verbatim>\<open>loop\<close>: the name is what stands before the
  first one, the content what stands behind it; without one the name is empty.
\<close>

fun findSTX :: "nat \<Rightarrow> byte list \<Rightarrow> nat option" where
  "findSTX idx [] = None"
| "findSTX idx (chr # msg) = (if chr = startOfDataByte then Some idx else findSTX (idx + 1) msg)"

definition parseEvent :: "byte list \<Rightarrow> string \<times> nat" where
  "parseEvent msg = (case findSTX 0 msg of None \<Rightarrow> ([], 0) | Some idx \<Rightarrow> (string_of (take idx msg), idx + 1))"

definition dispatchMsg :: "'h events \<Rightarrow> byte list \<Rightarrow> ('h \<times> byte list) option" where
  "dispatchMsg evs msg =
     (let (eventName, contentIdx) = parseEvent msg
      in if eventName = [] then None
         else map_option (\<lambda>h. (h, drop contentIdx msg)) (map_of evs eventName))"

lemma findSTX_append: "startOfDataByte \<notin> set xs \<Longrightarrow> findSTX i (xs @ startOfDataByte # ys) = Some (i + length xs)"
  by (induction xs arbitrary: i) auto

lemma findSTX_none: "startOfDataByte \<notin> set xs \<Longrightarrow> findSTX i xs = None"
  by (induction xs arbitrary: i) auto

lemma parseEvent_message:
  assumes "startOfDataByte \<notin> set (bytes_of name)"
  shows "parseEvent (bytes_of name @ startOfDataByte # data) = (name, length name + 1)"
  using findSTX_append [OF assms, of 0 data] by (simp add: parseEvent_def)

text \<open>
  Events reach their handlers. For any registry, a message that consists of a non-empty name
  without the separator, the separator and any data is dispatched, with exactly that data, to the
  handler registered last for the name, to none once \<^verbatim>\<open>Off\<close> was called, and other names are not
  affected by either; a message with no separator, or with nothing before it, is dispatched to
  nobody.
\<close>

theorem events_reach_handlers:
  assumes "name \<noteq> []" and "startOfDataByte \<notin> set (bytes_of name)"
  shows "dispatchMsg (On name h evs) (bytes_of name @ startOfDataByte # data) = Some (h, data) \<and>
    dispatchMsg (Off name evs) (bytes_of name @ startOfDataByte # data) = None \<and>
    (\<forall>other. other \<noteq> name \<longrightarrow>
       dispatchMsg (On other h evs) (bytes_of name @ startOfDataByte # data) =
         dispatchMsg evs (bytes_of name @ startOfDataByte # data) \<and>
       dispatchMsg (Off other evs) (bytes_of name @ startOfDataByte # data) =
         dispatchMsg evs (bytes_of name @ startOfDataByte # data)) \<and>
    dispatchMsg evs (bytes_of name) = None \<and> dispatchMsg evs (startOfDataByte # data) = None"
proof -
  have "drop (length name) (bytes_of name @ x) = x" for x
    using length_bytes_of [of name] by (metis append_eq_conv_conj)
  then have drop: "drop (Suc (length name)) (bytes_of name @ startOfDataByte # data) = data"
    by (metis Suc_eq_plus1 add.commute drop_drop drop_Suc_Cons drop0 One_nat_def)
  have no: "parseEvent (bytes_of name) = ([], 0)" "fst (parseEvent (startOfDataByte # data)) = []"
    by (simp_all add: parseEvent_def findSTX_none [OF assms(2)])
  show ?thesis
    using assms(1) no parseEvent_message [OF assms(2), of data]
    by (auto simp: dispatchMsg_def On_def Off_def gomap_simps drop split: prod.split)
qed

theorem events_reach_handlers_witness:
  "dispatchMsg (On ''chat'' (7 :: nat) []) (bytes_of ''chat'' @ startOfDataByte # [104, 105]) = Some (7, [104, 105])"
  using events_reach_handlers [of "''chat''" "7 :: nat" "[]" "[104, 105]"]
  by (simp add: bytes_of_def startOfDataByte_def)

section \<open>Serving one socket\<close>

text \<open>What \<^verbatim>\<open>receive\<close> may report; \<^verbatim>\<open>websocket.IsCloseError\<close> recognises a close frame's code.\<close>

datatype recv_error = RecvEOF | RecvClose int | RecvOther string

fun errorText :: "recv_error \<Rightarrow> string" where
  "errorText RecvEOF = ''EOF''"
| "errorText (RecvClose code) = ''websocket: close''"
| "errorText (RecvOther t) = t"

definition isCloseError :: "recv_error \<Rightarrow> int \<Rightarrow> bool" where
  "isCloseError err code \<longleftrightarrow> err = RecvClose code"

definition ignorableError :: "recv_error option \<Rightarrow> bool" where
  "ignorableError err =
     (case err of
        None \<Rightarrow> False
      | Some e \<Rightarrow> e = RecvEOF \<or> isCloseError e 1000 \<or> isCloseError e 1001 \<or>
          hasSuffix (errorText e) ''use of closed network connection'')"

text \<open>
  The receiving loop. The script lists what successive calls of \<^verbatim>\<open>receive\<close> return, each with the
  registry at that moment. The result: the handlers started, in order; the errors that were
  logged; and whether the loop ended (if not, it waits in \<^verbatim>\<open>receive\<close>).
\<close>

fun recvLoop ::
  "('h events \<times> (recv_error + byte list)) list \<Rightarrow> ('h \<times> byte list) list \<times> recv_error list \<times> bool" where
  "recvLoop [] = ([], [], False)"
| "recvLoop ((evs, Inl err) # script) =
     (if ignorableError (Some err) then ([], [], True) else ([], [err], True))"
| "recvLoop ((evs, Inr msg) # script) =
     (case recvLoop script of (started, logged, ended) \<Rightarrow>
        (case dispatchMsg evs msg of None \<Rightarrow> started | Some d \<Rightarrow> d # started, logged, ended))"

definition socketRoom :: "sid \<Rightarrow> string" where
  "socketRoom s = ''__socket_id:'' @ s"

text \<open>The first steps of \<^verbatim>\<open>loop\<close>.\<close>

definition connect :: "sid \<Rightarrow> 'd sio \<Rightarrow> 'd sio" where
  "connect s st = Join (socketRoom s) s (newSocket s st)"

text \<open>
  \<^verbatim>\<open>loop\<close>: \<open>conn\<close> is the connect handler (its error goes to \<open>onErr\<close>, and the loop goes on),
  \<open>during\<close> what the handlers and other goroutines do to the state while the loop runs.
\<close>

definition loop ::
  "(string list \<Rightarrow> string list) \<Rightarrow> 'e option \<Rightarrow> (sid \<Rightarrow> 'd sio \<Rightarrow> 'e option \<times> 'd sio) option \<Rightarrow>
   (sid \<Rightarrow> 'd sio \<Rightarrow> 'e option \<times> 'd sio) option \<Rightarrow> (sid \<Rightarrow> 'e \<Rightarrow> 'd sio \<Rightarrow> 'd sio) option \<Rightarrow>
   ('d sio \<Rightarrow> 'd sio) \<Rightarrow> sid \<Rightarrow> ('h events \<times> (recv_error + byte list)) list \<Rightarrow> 'd sio \<Rightarrow>
   ('h \<times> byte list) list \<times> recv_error list \<times> 'd sio" where
  "loop ord cerr disc conn onErr during s script st =
     (let st1 = connect s st;
          st2 = (case conn of
                   None \<Rightarrow> st1
                 | Some f \<Rightarrow> (case f s st1 of
                       (None, st') \<Rightarrow> st'
                     | (Some e, st') \<Rightarrow> (case onErr of None \<Rightarrow> st' | Some g \<Rightarrow> g s e st')));
          (started, logged, ended) = recvLoop script;
          st3 = during st2
      in (started, logged, if ended then snd (Close ord cerr disc s st3) else st3))"

definition ToRoom ::
  "('d \<Rightarrow> byte list option) \<Rightarrow> (sid list \<Rightarrow> sid list) \<Rightarrow> string \<Rightarrow> string \<Rightarrow> 'd any \<Rightarrow> 'd sio \<Rightarrow> 'd sio" where
  "ToRoom marshal ord roomName eventName data st =
     snd (listen marshal ord (RoomMsgReq \<lparr>RoomName = roomName, RExcept = [], REventName = eventName, RData = data\<rparr>) st)"

definition ToRoomExcept ::
  "('d \<Rightarrow> byte list option) \<Rightarrow> (sid list \<Rightarrow> sid list) \<Rightarrow> string \<Rightarrow> string list \<Rightarrow> string \<Rightarrow> 'd any \<Rightarrow> 'd sio \<Rightarrow> 'd sio" where
  "ToRoomExcept marshal ord roomName except eventName data st =
     snd (listen marshal ord (RoomMsgReq \<lparr>RoomName = roomName, RExcept = except, REventName = eventName, RData = data\<rparr>) st)"

definition Broadcast ::
  "('d \<Rightarrow> byte list option) \<Rightarrow> (sid list \<Rightarrow> sid list) \<Rightarrow> string \<Rightarrow> 'd any \<Rightarrow> 'd sio \<Rightarrow> 'd sio" where
  "Broadcast marshal ord eventName data st =
     snd (listen marshal ord (BroadcastReq \<lparr>BEventName = eventName, BExcept = [], BData = data\<rparr>) st)"

definition BroadcastExcept ::
  "('d \<Rightarrow> byte list option) \<Rightarrow> (sid list \<Rightarrow> sid list) \<Rightarrow> string list \<Rightarrow> string \<Rightarrow> 'd any \<Rightarrow> 'd sio \<Rightarrow> 'd sio" where
  "BroadcastExcept marshal ord except eventName data st =
     snd (listen marshal ord (BroadcastReq \<lparr>BEventName = eventName, BExcept = except, BData = data\<rparr>) st)"

definition ToSocket ::
  "('d \<Rightarrow> byte list option) \<Rightarrow> (sid list \<Rightarrow> sid list) \<Rightarrow> sid \<Rightarrow> string \<Rightarrow> 'd any \<Rightarrow> 'd sio \<Rightarrow> 'd sio" where
  "ToSocket marshal ord s eventName data st = ToRoom marshal ord (socketRoom s) eventName data st"

text \<open>
  C35. The loop of a socket starts the handlers of the messages received before the first error, in
  the order received, and drops none that a registered event names; after an error that is one
  of the ordinary ways to end nothing is logged; and when it ends the socket is closed: with a
  connection that closes without error it is in no room and not in the hub.
\<close>

theorem loop_serves_socket:
  assumes "sio_inv (during (connect s st))" and "perm_fn ord"
    and "\<not> sclosed (store (during (connect s st)) s)"
    and "\<forall>(evs, m) \<in> set pre. \<exists>msg. m = Inr msg"
  shows "\<exists>st'. loop ord (None :: 'e option) None None onErr during s (pre @ (evs, Inl err) # post) st =
      (List.map_filter (\<lambda>(evs, m). dispatchMsg evs (projr m)) pre,
       if ignorableError (Some err) then [] else [err], st') \<and>
    sio_inv st' \<and> \<not> m_has (hsockets (hub st')) s \<and> (\<forall>r. \<not> inHubRoom st' r s)"
proof -
  have recv: "recvLoop (pre @ (evs, Inl err) # post) =
      (List.map_filter (\<lambda>(evs, m). dispatchMsg evs (projr m)) pre,
       if ignorableError (Some err) then [] else [err], True)"
    using assms(4)
  proof (induction pre)
    case (Cons x pre)
    then obtain evs' msg where x: "x = (evs', Inr msg)" by fastforce
    with Cons show ?case by (auto simp: map_filter_simps split: option.split)
  qed (simp add: map_filter_simps)
  define st' where "st' = snd (Close ord (None :: 'e option) None s (during (connect s st)))"
  note effect = Close_effect [OF assms(1-3) st'_def]
  have "loop ord (None :: 'e option) None None onErr during s (pre @ (evs, Inl err) # post) st =
      (List.map_filter (\<lambda>(evs, m). dispatchMsg evs (projr m)) pre,
       if ignorableError (Some err) then [] else [err], st')"
    by (simp add: loop_def recv st'_def)
  with effect show ?thesis by (intro exI [of _ st']) (simp add: gomap_simps)
qed

definition idle_socket :: Socket where
  "idle_socket = \<lparr>sclosed = True, srooms = [], sout = [], ticker = False, pinging = False\<rparr>"

definition demo_start :: "unit sio" where
  "demo_start = \<lparr>hub = newHub, store = \<lambda>_. idle_socket\<rparr>"

definition demo_joined :: "unit sio" where
  "demo_joined = connect ''a'' demo_start"

lemma demo_joined: "sio_inv demo_joined" "\<not> sclosed (store demo_joined ''a'')"
proof -
  have "sio_reach (\<lambda>_. None) demo_joined"
    unfolding demo_joined_def connect_def demo_start_def by (intro join new start) (simp_all add: idle_socket_def)
  then show "sio_inv demo_joined" by (rule sio_reach_inv)
  show "\<not> sclosed (store demo_joined ''a'')" by (simp add: demo_joined_def connect_def Join_def newSocket_def)
qed

theorem loop_serves_socket_witness:
  "\<exists>st'. loop rev (None :: string option) None None None id ''a''
      ([(On ''hi'' (7 :: nat) [], Inr [104, 105, 2, 33])] @ ([], Inl RecvEOF) # []) demo_start =
      (List.map_filter (\<lambda>(evs, m :: recv_error + byte list). dispatchMsg evs (projr m))
         [(On ''hi'' (7 :: nat) [], Inr [104, 105, 2, 33])],
       if ignorableError (Some RecvEOF) then [] else [RecvEOF], st') \<and>
    sio_inv st' \<and> \<not> m_has (hsockets (hub st')) ''a'' \<and> (\<forall>r. \<not> inHubRoom st' r ''a'')"
  by (rule loop_serves_socket [where during = id and s = "''a''" and st = demo_start])
    (simp_all add: demo_joined demo_joined_def [symmetric])

section \<open>Messages to one socket\<close>

text \<open>Nobody sits in the private room of another socket.\<close>

definition private_rooms :: "'d sio \<Rightarrow> bool" where
  "private_rooms st \<longleftrightarrow> (\<forall>x s. InRoom (socketRoom x) (store st s) \<longrightarrow> s = x)"

lemma ToSocket_eq:
  assumes "sio_inv st" and "perm_fn ord"
  shows "store (ToSocket marshal ord s ev data st) s' =
    (if InRoom (socketRoom s) (store st s') then gets (emitData marshal ev data) (store st s') else store st s')"
  using castRoom_eq [OF assms(2,1)] by (simp add: ToSocket_def ToRoom_def toBackend_def excepted_def)

lemma newSocket_inv:
  assumes "sio_inv st" and "srooms (store st s) = []"
  shows "sio_inv (newSocket s st)"
proof (rule same_rooms_inv [OF _ assms(1)])
  show "same_rooms st (newSocket s st)" using assms(2) by (auto simp: same_rooms_def newSocket_def)
qed

text \<open>
  A message to one socket. As long as nobody joins another socket's private room, \<^verbatim>\<open>ToSocket\<close>
  hands its message exactly once to a socket that has just connected and to no other, and
  connecting keeps it so. The privacy rests on the room's name alone: whoever joins
  \<open>__socket_id:<id>\<close>, which \<^verbatim>\<open>Join\<close> does not refuse, gets a copy of every message.
\<close>

theorem ToSocket_is_private:
  assumes "sio_inv st" and "private_rooms st" and "perm_fn ord" and "srooms (store st s) = []"
  shows "private_rooms (connect s st) \<and> sio_inv (connect s st) \<and>
    store (ToSocket marshal ord s ev data (connect s st)) s' =
      (if s' = s then gets (emitData marshal ev data) (store (connect s st) s) else store (connect s st) s') \<and>
    store (ToSocket marshal ord s ev data (Join (socketRoom s) thief (connect s st))) thief =
      gets (emitData marshal ev data) (store (Join (socketRoom s) thief (connect s st)) thief)"
proof -
  have inv: "sio_inv (connect s st)"
    unfolding connect_def using newSocket_inv [OF assms(1,4)] by (rule Join_inv)
  have priv: "private_rooms (connect s st)" and own: "InRoom (socketRoom s) (store (connect s st) s)"
    using assms(2) by (auto simp: connect_def private_rooms_def Join_def InRoom_def newSocket_def gomap_simps
        socketRoom_def split: if_splits)
  from priv own have "InRoom (socketRoom s) (store (connect s st) s') \<longleftrightarrow> s' = s" for s'
    by (auto simp: private_rooms_def)
  moreover have "InRoom (socketRoom s) (store (Join (socketRoom s) thief (connect s st)) thief)"
    by (simp add: Join_def InRoom_put)
  ultimately show ?thesis
    using inv priv by (simp add: ToSocket_eq assms(3) Join_inv)
qed

theorem ToSocket_is_private_witness:
  "private_rooms demo_joined \<and> sio_inv demo_joined \<and>
    store (ToSocket (\<lambda>_. None) rev ''a'' ''hi'' (AStr ''x'') demo_joined) ''a'' =
      gets (emitData (\<lambda>_. None) ''hi'' (AStr ''x'' :: unit any)) (store demo_joined ''a'')"
proof -
  have "sio_inv demo_start" "private_rooms demo_start" "srooms (store demo_start ''a'') = []"
    by (auto simp: demo_start_def idle_socket_def sio_inv_def newHub_def inHubRoom_def InRoom_def private_rooms_def)
  from ToSocket_is_private [OF this(1,2) perm_fn_rev this(3), where marshal = "\<lambda>_. None" and ev = "''hi''"
      and data = "AStr ''x''" and s' = "''a''" and thief = "[]"]
  show ?thesis by (simp only: demo_joined_def) simp
qed

section \<open>Shutdown\<close>

text \<open>\<open>cerr\<close> gives the error of closing each connection; \<open>disc\<close> is the disconnect handler.\<close>

definition Shutdown ::
  "('d \<Rightarrow> byte list option) \<Rightarrow> (sid list \<Rightarrow> sid list) \<Rightarrow> (sid \<Rightarrow> 'e option) \<Rightarrow>
   (sid \<Rightarrow> 'd sio \<Rightarrow> 'e option \<times> 'd sio) option \<Rightarrow> 'd sio \<Rightarrow> bool \<times> 'd sio" where
  "Shutdown marshal ord cerr disc st =
     (let (socketList, st1) = listen marshal ord ShutdownReq st;
          st2 = fold (\<lambda>s st. snd (Close ord (cerr s) disc s st)) socketList st1
      in (True, upd_hub (\<lambda>h. if multihomeEnabled h then h\<lparr>backend := backend h @ [AShutdown]\<rparr> else h) st2))"

lemma fold_Close:
  assumes "sio_inv st" and "perm_fn ord" and "distinct ss" and "\<forall>s \<in> set ss. \<not> sclosed (store st s)"
    and "st' = fold (\<lambda>s st. snd (Close ord (None :: 'e option) None s st)) ss st"
  shows "sio_inv st' \<and> (\<forall>s. m_has (hsockets (hub st')) s \<longleftrightarrow> s \<notin> set ss \<and> m_has (hsockets (hub st)) s) \<and>
    (\<forall>r s. inHubRoom st' r s \<longleftrightarrow> s \<notin> set ss \<and> inHubRoom st r s) \<and>
    (\<forall>s. sclosed (store st' s) \<longleftrightarrow> s \<in> set ss \<or> sclosed (store st s))"
  using assms
proof (induction ss arbitrary: st)
  case (Cons a ss)
  define st1 where "st1 = snd (Close ord (None :: 'e option) None a st)"
  have "\<not> sclosed (store st a)" using Cons.prems by simp
  note e = Close_effect [OF Cons.prems(1,2) this st1_def]
  have "sio_inv st' \<and> (\<forall>s. m_has (hsockets (hub st')) s \<longleftrightarrow> s \<notin> set ss \<and> m_has (hsockets (hub st1)) s) \<and>
    (\<forall>r s. inHubRoom st' r s \<longleftrightarrow> s \<notin> set ss \<and> inHubRoom st1 r s) \<and>
    (\<forall>s. sclosed (store st' s) \<longleftrightarrow> s \<in> set ss \<or> sclosed (store st1 s))"
    by (rule Cons.IH) (use Cons.prems e in \<open>auto simp: st1_def\<close>)
  then show ?case by (auto simp: e gomap_simps)
qed simp

text \<open>
  A shutdown closes every socket of the hub and empties it: whatever the order, if no
  connection reports an error on closing, afterwards the hub has no socket and no room (as long as
  rooms held only sockets of the hub), every socket it had is closed, and the adapter is told last.
\<close>

theorem Shutdown_empties_hub:
  assumes "sio_inv st" and "perm_fn ord" and "\<forall>s. m_has (hsockets (hub st)) s \<longrightarrow> \<not> sclosed (store st s)"
    and "\<forall>r s. inHubRoom st r s \<longrightarrow> m_has (hsockets (hub st)) s"
  shows "\<exists>st'. Shutdown marshal ord (\<lambda>_. None :: 'e option) None st = (True, st') \<and>
    hsockets (hub st') = [] \<and> hrooms (hub st') = [] \<and>
    (\<forall>s. m_has (hsockets (hub st)) s \<longrightarrow> sclosed (store st' s)) \<and>
    (multihomeEnabled (hub st') \<longrightarrow> last (backend (hub st')) = AShutdown)"
proof -
  let ?ss = "ord (m_keys (hsockets (hub st)))"
  define st2 where "st2 = fold (\<lambda>s st. snd (Close ord (None :: 'e option) None s st)) ?ss st"
  have mem: "s \<in> set ?ss \<longleftrightarrow> m_has (hsockets (hub st)) s" for s
    unfolding perm_fn_set [OF assms(2)] m_has_iff_keys ..
  have "distinct ?ss"
    using assms(1,2) by (simp add: perm_fn_distinct sio_inv_def m_wf_def)
  note all = fold_Close [OF assms(1,2) this _ st2_def]
  have "sio_inv st2" "\<And>s. \<not> m_has (hsockets (hub st2)) s" "\<And>r s. \<not> inHubRoom st2 r s"
    "\<And>s. m_has (hsockets (hub st)) s \<Longrightarrow> sclosed (store st2 s)"
    using all assms(3,4) by (auto simp: mem)
  moreover from this have "\<And>r. \<not> m_has (hrooms (hub st2)) r"
    using tbl_room_iff [of "hrooms (hub st2)"] unfolding sio_inv_def inHubRoom_def by blast
  ultimately show ?thesis
    by (auto simp: Shutdown_def st2_def [symmetric] m_empty_iff)
qed

theorem Shutdown_empties_hub_witness:
  "\<exists>st'. Shutdown (\<lambda>_. None) rev (\<lambda>_. None :: unit option) None demo_joined = (True, st') \<and>
    hsockets (hub st') = [] \<and> hrooms (hub st') = []"
proof -
  have opened: "\<forall>s. m_has (hsockets (hub demo_joined)) s \<longrightarrow> \<not> sclosed (store demo_joined s)"
    and here: "\<forall>r s. inHubRoom demo_joined r s \<longrightarrow> m_has (hsockets (hub demo_joined)) s"
    by (auto simp: demo_joined_def connect_def demo_start_def Join_def newSocket_def newHub_def inHubRoom_def joinRoom_tbl
        tbl_member_join gomap_simps)
  from Shutdown_empties_hub [OF demo_joined(1) perm_fn_rev opened here] show ?thesis by blast
qed

text \<open>
  \<^verbatim>\<open>EnableSignalShutdown\<close>: the goroutine takes the first of the signals it asked for (others never reach its channel, nor
  does \<^verbatim>\<open>SIGKILL\<close>, which no program can catch), shuts the server down and sends the outcome. Later signals are not read any more.
  \<open>signals\<close> are those that arrive; the list is what is sent to \<^verbatim>\<open>complete\<close>.
\<close>

definition shutdownSignals :: "string list" where
  "shutdownSignals = [''SIGHUP'', ''SIGINT'', ''SIGTERM'', ''SIGQUIT'', ''SIGKILL'']"

definition EnableSignalShutdown ::
  "('d \<Rightarrow> byte list option) \<Rightarrow> (sid list \<Rightarrow> sid list) \<Rightarrow> (sid \<Rightarrow> 'e option) \<Rightarrow>
   (sid \<Rightarrow> 'd sio \<Rightarrow> 'e option \<times> 'd sio) option \<Rightarrow> string list \<Rightarrow> 'd sio \<Rightarrow> bool list \<times> 'd sio" where
  "EnableSignalShutdown marshal ord cerr disc signals st =
     (case filter (\<lambda>x. x \<in> set shutdownSignals) signals of
        [] \<Rightarrow> ([], st)
      | _ # _ \<Rightarrow> (let (ok, st') = Shutdown marshal ord cerr disc st in ([ok], st')))"

text \<open>\<^verbatim>\<open>ShutdownWithSignal\<close> ends the process with status 0 once the shutdown is complete.\<close>

definition ShutdownWithSignal ::
  "('d \<Rightarrow> byte list option) \<Rightarrow> (sid list \<Rightarrow> sid list) \<Rightarrow> (sid \<Rightarrow> 'e option) \<Rightarrow>
   (sid \<Rightarrow> 'd sio \<Rightarrow> 'e option \<times> 'd sio) option \<Rightarrow> string list \<Rightarrow> 'd sio \<Rightarrow> int option \<times> 'd sio" where
  "ShutdownWithSignal marshal ord cerr disc signals st =
     (case EnableSignalShutdown marshal ord cerr disc signals st of
        ([], st') \<Rightarrow> (None, st')
      | (_ # _, st') \<Rightarrow> (Some 0, st'))"

text \<open>The process ends exactly if one of the signals arrives, and then after one shutdown, however many arrive.\<close>

theorem signals_shut_down_once:
  "ShutdownWithSignal marshal ord cerr disc signals st =
    (if list_ex (\<lambda>x. x \<in> set shutdownSignals) signals
     then (Some 0, snd (Shutdown marshal ord cerr disc st)) else (None, st))"
proof (cases "filter (\<lambda>x. x \<in> set shutdownSignals) signals")
  case Nil
  then have "\<not> list_ex (\<lambda>x. x \<in> set shutdownSignals) signals" by (simp add: filter_empty_conv list_ex_iff)
  with Nil show ?thesis by (simp add: ShutdownWithSignal_def EnableSignalShutdown_def)
next
  case (Cons x xs)
  then have "x \<in> set (filter (\<lambda>x. x \<in> set shutdownSignals) signals)" by simp
  then have "list_ex (\<lambda>x. x \<in> set shutdownSignals) signals" by (auto simp: list_ex_iff)
  with Cons show ?thesis
    by (simp add: ShutdownWithSignal_def EnableSignalShutdown_def case_prod_unfold Let_def)
qed

end
