(* ===== verification/EmitHeap.thy ===== *)
theory EmitHeap
  imports SioHub BytePool
begin

text \<open>
  \<^verbatim>\<open>emitData\<close> of \<^verbatim>\<open>socket.go\<close> with the pool's buffers as they are in memory. The function takes a
  buffer from \<^verbatim>\<open>bpool\<close>, appends the parts of the message, defers putting the buffer back, and
  returns \<^verbatim>\<open>buf.Bytes()\<close>: a slice of an array that the pool hands to the next caller. On its own
  the slice holds the right bytes; once another goroutine emits before the slice was sent, it
  holds the other message's.
\<close>

section \<open>Arrays, buffers, slices\<close>

text \<open>
  \<open>arr\<close> are the arrays by address, \<open>bufs\<close> the \<^verbatim>\<open>*ByteBuffer\<close>s (address of their array and length in
  use), \<open>freeBufs\<close> the buffers in the pool, the next to be handed out first.
\<close>

record heap =
  arr :: "nat \<Rightarrow> byte list"
  nextArr :: nat
  bufs :: "nat \<Rightarrow> nat \<times> nat"
  nextBuf :: nat
  freeBufs :: "nat list"

type_synonym slice = "nat \<times> nat"

definition readSlice :: "heap \<Rightarrow> slice \<Rightarrow> byte list" where
  "readSlice h sl = take (snd sl) (arr h (fst sl))"

definition heapGet :: "heap \<Rightarrow> nat \<times> heap" where
  "heapGet h =
     (case freeBufs h of
        [] \<Rightarrow> (nextBuf h, h\<lparr>arr := (arr h)(nextArr h := []), nextArr := nextArr h + 1,
                  bufs := (bufs h)(nextBuf h := (nextArr h, 0)), nextBuf := nextBuf h + 1\<rparr>)
      | b # bs \<Rightarrow> (b, h\<lparr>freeBufs := bs, bufs := (bufs h)(b := (fst (bufs h b), 0))\<rparr>))"

definition heapAppend :: "(nat \<Rightarrow> nat \<Rightarrow> nat) \<Rightarrow> nat \<Rightarrow> byte list \<Rightarrow> heap \<Rightarrow> heap" where
  "heapAppend grow b p h =
     (let (a, n) = bufs h b; need = n + length p; old = arr h a
      in if need \<le> length old
         then h\<lparr>arr := (arr h)(a := take n old @ p @ drop need old), bufs := (bufs h)(b := (a, need))\<rparr>
         else h\<lparr>arr := (arr h)(nextArr h := take n old @ p @ replicate (grow (length old) need - need) 0),
                nextArr := nextArr h + 1, bufs := (bufs h)(b := (nextArr h, need))\<rparr>)"

definition heapPut :: "nat \<Rightarrow> heap \<Rightarrow> heap" where
  "heapPut b h = h\<lparr>freeBufs := b # freeBufs h\<rparr>"

section \<open>emitData\<close>

text \<open>The parts that \<^verbatim>\<open>emitData\<close> appends, one \<^verbatim>\<open>Write\<close> each, and the message type it returns.\<close>

definition emitParts :: "('d \<Rightarrow> byte list option) \<Rightarrow> string \<Rightarrow> 'd any \<Rightarrow> int \<times> byte list list" where
  "emitParts marshal eventName data =
     (let pre = [bytes_of eventName, [startOfHeaderByte]]
      in case data of
           AStr d \<Rightarrow> (1, pre @ [bytes_of typeStr, [startOfDataByte], bytes_of d])
         | ABytes d \<Rightarrow> (2, pre @ [bytes_of typeBin, [startOfDataByte], d])
         | AOther d \<Rightarrow> (1, pre @ [bytes_of typeJSON, [startOfDataByte]] @
             (case marshal d of None \<Rightarrow> [] | Some js \<Rightarrow> [js])))"

definition emitDataHeap ::
  "('d \<Rightarrow> byte list option) \<Rightarrow> (nat \<Rightarrow> nat \<Rightarrow> nat) \<Rightarrow> string \<Rightarrow> 'd any \<Rightarrow> heap \<Rightarrow> (int \<times> slice) \<times> heap" where
  "emitDataHeap marshal grow eventName data h =
     (let (b, h1) = heapGet h;
          (msgType, parts) = emitParts marshal eventName data;
          h2 = fold (heapAppend grow b) parts h1
      in ((msgType, bufs h2 b), heapPut b h2))"

lemma emitParts_emitData:
  "(fst (emitParts marshal name data), concat (snd (emitParts marshal name data))) = emitData marshal name data"
  by (auto simp: emitParts_def emitData_def Let_def split: any.split option.split)

definition heap_ok :: "heap \<Rightarrow> nat \<Rightarrow> bool" where
  "heap_ok h b \<longleftrightarrow> fst (bufs h b) < nextArr h \<and> snd (bufs h b) \<le> length (arr h (fst (bufs h b)))"

lemma heapAppend_content:
  assumes "grows grow" and "heap_ok h b"
  shows "readSlice (heapAppend grow b p h) (bufs (heapAppend grow b p h) b) = readSlice h (bufs h b) @ p"
    and "heap_ok (heapAppend grow b p h) b"
proof -
  obtain a n where b: "bufs h b = (a, n)" by fastforce
  have "n + length p \<le> grow (length (arr h a)) (n + length p)"
    using assms(1) by (simp add: grows_def)
  with assms(2) b show "readSlice (heapAppend grow b p h) (bufs (heapAppend grow b p h) b) = readSlice h (bufs h b) @ p"
    "heap_ok (heapAppend grow b p h) b"
    by (auto simp: heapAppend_def readSlice_def heap_ok_def Let_def)
qed

lemma fold_heapAppend_content:
  assumes "grows grow" and "heap_ok h b"
  shows "readSlice (fold (heapAppend grow b) ps h) (bufs (fold (heapAppend grow b) ps h) b) =
    readSlice h (bufs h b) @ concat ps"
  using assms(2)
proof (induction ps arbitrary: h)
  case (Cons p ps)
  then show ?case using heapAppend_content [OF assms(1) Cons.prems, of p] by simp
qed simp

lemma heapGet_ok:
  assumes "\<forall>b \<in> set (freeBufs h). heap_ok h b" and "heapGet h = (b, h1)"
  shows "heap_ok h1 b" and "readSlice h1 (bufs h1 b) = []"
  using assms by (auto simp: heapGet_def heap_ok_def readSlice_def split: list.splits)

lemma emitDataHeap_content:
  assumes "grows grow" and "\<forall>b \<in> set (freeBufs h). heap_ok h b"
    and "emitDataHeap marshal grow name data h = ((t, sl), h')"
  shows "(t, readSlice h' sl) = emitData marshal name data"
proof -
  obtain b h1 where get: "heapGet h = (b, h1)" by fastforce
  obtain mt ps where ps: "emitParts marshal name data = (mt, ps)" by fastforce
  note ok = heapGet_ok [OF assms(2) get]
  from assms(3) get ps have "t = mt" "sl = bufs (fold (heapAppend grow b) ps h1) b"
    "h' = heapPut b (fold (heapAppend grow b) ps h1)"
    by (auto simp: emitDataHeap_def Let_def)
  moreover have "readSlice (heapPut c g) s = readSlice g s" for c g s
    by (simp add: heapPut_def readSlice_def)
  ultimately show ?thesis
    using fold_heapAppend_content [OF assms(1) ok(1), of ps] emitParts_emitData [of marshal name data]
    by (simp add: ps ok(2))
qed

subsection \<open>Two goroutines\<close>

text \<open>An append that fits is done in place.\<close>

lemma fold_heapAppend_in_place:
  assumes "bufs h b = (a, n)" and "n + length (concat ps) \<le> length (arr h a)"
  shows "fold (heapAppend grow b) ps h =
    h\<lparr>arr := (arr h)(a := take n (arr h a) @ concat ps @ drop (n + length (concat ps)) (arr h a)),
      bufs := (bufs h)(b := (a, n + length (concat ps)))\<rparr>"
  using assms
proof (induction ps arbitrary: h n)
  case Nil
  then have "(bufs h)(b := (a, n)) = bufs h" by (auto simp: fun_eq_iff)
  then show ?case using Nil by simp
next
  case (Cons p ps)
  let ?h = "heapAppend grow b p h"
  have h: "?h = h\<lparr>arr := (arr h)(a := take n (arr h a) @ p @ drop (n + length p) (arr h a)),
      bufs := (bufs h)(b := (a, n + length p))\<rparr>"
    using Cons.prems by (simp add: heapAppend_def Let_def)
  have swap: "length (concat ps) + (n + length p) = n + (length p + length (concat ps))" by simp
  have "fold (heapAppend grow b) ps ?h =
      ?h\<lparr>arr := (arr ?h)(a := take (n + length p) (arr ?h a) @ concat ps @
           drop (n + length p + length (concat ps)) (arr ?h a)),
        bufs := (bufs ?h)(b := (a, n + length p + length (concat ps)))\<rparr>"
    by (rule Cons.IH) (use Cons.prems in \<open>simp_all add: h\<close>)
  also have "\<dots> = h\<lparr>arr := (arr h)(a := take n (arr h a) @ concat (p # ps) @
        drop (n + length (concat (p # ps))) (arr h a)),
      bufs := (bufs h)(b := (a, n + length (concat (p # ps))))\<rparr>"
    using Cons.prems(2) by (simp add: h add.assoc min_absorb2 swap)
  finally show ?case by (simp add: fun_upd_def)
qed

lemma emitDataHeap_in_place:
  assumes "freeBufs h = b # bs" and "bufs h b = (a, n)"
    and "length (snd (emitData marshal name data)) \<le> length (arr h a)"
    and "msg = snd (emitData marshal name data)"
  shows "emitDataHeap marshal grow name data h =
    ((fst (emitData marshal name data), (a, length msg)),
     h\<lparr>arr := (arr h)(a := msg @ drop (length msg) (arr h a)), bufs := (bufs h)(b := (a, length msg))\<rparr>)"
proof -
  let ?h1 = "h\<lparr>freeBufs := bs, bufs := (bufs h)(b := (a, 0))\<rparr>"
  have get: "heapGet h = (b, ?h1)" using assms(1,2) by (simp add: heapGet_def)
  obtain mt ps where ps: "emitParts marshal name data = (mt, ps)" by fastforce
  have e: "emitData marshal name data = (mt, concat ps)"
    using emitParts_emitData [of marshal name data] by (simp add: ps)
  have "fold (heapAppend grow b) ps ?h1 =
      ?h1\<lparr>arr := (arr ?h1)(a := take 0 (arr ?h1 a) @ concat ps @ drop (0 + length (concat ps)) (arr ?h1 a)),
        bufs := (bufs ?h1)(b := (a, 0 + length (concat ps)))\<rparr>"
    by (rule fold_heapAppend_in_place) (use assms(3) e in simp_all)
  then show ?thesis
    using assms(1,4) by (simp add: emitDataHeap_def get ps e heapPut_def)
qed

text \<open>
  Use after put. Right after \<^verbatim>\<open>emitData\<close> returns, its slice holds the message it should. But
  the buffer is back in the pool: if a second goroutine calls \<^verbatim>\<open>emitData\<close> before the first one has
  written its slice to its connection, and the pooled array has room for both messages, the first
  goroutine sends the beginning of the second message, cut or padded to the length of its own.
\<close>

theorem emitData_use_after_put:
  assumes "freeBufs h = b # bs" and "bufs h b = (a, n)"
    and "m1 = snd (emitData marshal name1 data1)" and "m2 = snd (emitData marshal name2 data2)"
    and "length m1 \<le> length (arr h a)" and "length m2 \<le> length (arr h a)"
  shows "\<exists>sl1 h1 sl2 h2.
    emitDataHeap marshal grow name1 data1 h = ((fst (emitData marshal name1 data1), sl1), h1) \<and>
    readSlice h1 sl1 = m1 \<and>
    emitDataHeap marshal grow name2 data2 h1 = ((fst (emitData marshal name2 data2), sl2), h2) \<and>
    readSlice h2 sl1 = take (length m1) (m2 @ drop (length m2) m1)"
proof -
  let ?h1 = "h\<lparr>arr := (arr h)(a := m1 @ drop (length m1) (arr h a)), bufs := (bufs h)(b := (a, length m1))\<rparr>"
  have e1: "emitDataHeap marshal grow name1 data1 h = ((fst (emitData marshal name1 data1), (a, length m1)), ?h1)"
    using emitDataHeap_in_place [OF assms(1,2) _ assms(3), where grow = grow] assms(3,5) by simp
  have e2: "emitDataHeap marshal grow name2 data2 ?h1 = ((fst (emitData marshal name2 data2), (a, length m2)),
      ?h1\<lparr>arr := (arr ?h1)(a := m2 @ drop (length m2) (arr ?h1 a)), bufs := (bufs ?h1)(b := (a, length m2))\<rparr>)"
    by (rule emitDataHeap_in_place [where b = b and bs = bs and n = "length m1", OF _ _ _ assms(4)])
      (use assms in simp_all)
  show ?thesis
    using assms(5) by (simp add: e1 e2 readSlice_def)
qed

definition demo_heap :: heap where
  "demo_heap = \<lparr>arr = (\<lambda>_. replicate 64 0), nextArr = 1, bufs = (\<lambda>_. (0, 0)), nextBuf = 1, freeBufs = [0]\<rparr>"

theorem emitData_use_after_put_witness:
  "\<exists>sl1 h1 sl2 h2.
    emitDataHeap (\<lambda>_. None) max ''to'' (AStr ''alice'' :: unit any) demo_heap = ((1, sl1), h1) \<and>
    readSlice h1 sl1 = snd (emitData (\<lambda>_. None) ''to'' (AStr ''alice'' :: unit any)) \<and>
    emitDataHeap (\<lambda>_. None) max ''to'' (AStr ''carol'' :: unit any) h1 = ((1, sl2), h2) \<and>
    readSlice h2 sl1 = snd (emitData (\<lambda>_. None) ''to'' (AStr ''carol'' :: unit any))"
proof -
  have pre: "freeBufs demo_heap = [0]" "bufs demo_heap 0 = (0, 0)" "arr demo_heap 0 = replicate 64 0"
    by (simp_all add: demo_heap_def)
  have len: "length (snd (emitData (\<lambda>_. None) ''to'' (AStr ''alice'' :: unit any))) = 10"
    "length (snd (emitData (\<lambda>_. None) ''to'' (AStr ''carol'' :: unit any))) = 10"
    "fst (emitData (\<lambda>_. None) ''to'' (AStr ''alice'' :: unit any)) = 1"
    "fst (emitData (\<lambda>_. None) ''to'' (AStr ''carol'' :: unit any)) = 1"
    by (simp_all add: emitData_def bytes_of_def typeStr_def)
  from emitData_use_after_put [OF pre(1,2) refl refl, where grow = max and marshal = "\<lambda>_. None"
      and ?name1.0 = "''to''" and ?name2.0 = "''to''" and ?data1.0 = "AStr ''alice'' :: unit any"
      and ?data2.0 = "AStr ''carol'' :: unit any"]
  show ?thesis by (simp add: pre len)
qed

end
