(* ===== verification/SioMain.thy ===== *)
theory SioMain
  imports SioServer EmitHeap
begin

text \<open>
  The rest of \<^verbatim>\<open>server.go\<close> and \<^verbatim>\<open>socket.go\<close>: the configuration and what \<^verbatim>\<open>New\<close> makes of it, the handlers that can be
  registered, \<^verbatim>\<open>Handle\<close>, the lists of sockets, the casts of a socket, and its ping goroutine. The
  upgrader itself belongs to a third-party package: its settings are modelled, its \<^verbatim>\<open>Upgrade\<close> is a
  parameter.
\<close>

section \<open>Configuration\<close>

text \<open>
  Functions of the request context are named by values of any type \<open>'f\<close>; \<^const>\<open>None\<close> is nil. \<^verbatim>\<open>WriteBufferPool\<close> and
  \<^verbatim>\<open>Mutable\<close>, which no code reads, are left out.
\<close>

record 'f SioConfig =
  scHandshakeTimeout :: int
  scReadBufferSize :: int
  scWriteBufferSize :: int
  scSubprotocols :: "string list"
  scError :: "'f option"
  scCheckOrigin :: "'f option"
  scEnableCompression :: bool

record 'f Upgrader =
  uHandshakeTimeout :: int
  uReadBufferSize :: int
  uWriteBufferSize :: int
  uSubprotocols :: "string list"
  uError :: "'f option"
  uCheckOrigin :: "'f option"
  uEnableCompression :: bool

definition SubProtocol :: string where "SubProtocol = ''sac-sock''"

text \<open>\<open>allowAll\<close> is the default check, which accepts every origin.\<close>

definition DefaultUpgrader :: "'f \<Rightarrow> 'f Upgrader" where
  "DefaultUpgrader allowAll =
     \<lparr>uHandshakeTimeout = 0, uReadBufferSize = 1024, uWriteBufferSize = 1024, uSubprotocols = [SubProtocol],
      uError = None, uCheckOrigin = Some allowAll, uEnableCompression = False\<rparr>"

definition zeroConfig :: "'f SioConfig" where
  "zeroConfig = \<lparr>scHandshakeTimeout = 0, scReadBufferSize = 0, scWriteBufferSize = 0, scSubprotocols = [],
     scError = None, scCheckOrigin = None, scEnableCompression = False\<rparr>"

section \<open>The server\<close>

record ('f, 'h, 'd, 'e) Server =
  sioState :: "'d sio"
  events :: "'h events"
  onConnectFunc :: "(sid \<Rightarrow> 'd sio \<Rightarrow> 'e option \<times> 'd sio) option"
  onDisconnectFunc :: "(sid \<Rightarrow> 'd sio \<Rightarrow> 'e option \<times> 'd sio) option"
  onErrorFunc :: "(sid \<Rightarrow> 'e \<Rightarrow> 'd sio \<Rightarrow> 'd sio) option"
  upgrader :: "'f Upgrader"

text \<open>\<^verbatim>\<open>New\<close> takes its first argument, if there is one; \<open>sockets\<close> is the memory for sockets to come.\<close>

definition New :: "'f \<Rightarrow> (sid \<Rightarrow> Socket) \<Rightarrow> 'f SioConfig list \<Rightarrow> ('f, 'h, 'd, 'e) Server" where
  "New allowAll sockets cfg =
     (let c = (case cfg of [] \<Rightarrow> zeroConfig | c # _ \<Rightarrow> c);
          u0 = DefaultUpgrader allowAll;
          u1 = (if scCheckOrigin c \<noteq> None then u0\<lparr>uCheckOrigin := scCheckOrigin c\<rparr> else u0);
          u2 = (if scHandshakeTimeout c \<noteq> 0 then u1\<lparr>uHandshakeTimeout := scHandshakeTimeout c\<rparr> else u1);
          u3 = (if scReadBufferSize c \<noteq> 0 then u2\<lparr>uReadBufferSize := scReadBufferSize c\<rparr> else u2);
          u4 = (if scWriteBufferSize c \<noteq> 0 then u3\<lparr>uWriteBufferSize := scWriteBufferSize c\<rparr> else u3);
          u5 = (if scSubprotocols c \<noteq> [] then u4\<lparr>uSubprotocols := scSubprotocols c\<rparr>
                else u4\<lparr>uSubprotocols := [SubProtocol]\<rparr>);
          u6 = (if scError c \<noteq> None then u5\<lparr>uError := scError c\<rparr> else u5)
      in \<lparr>sioState = \<lparr>hub = newHub, store = sockets\<rparr>, events = [], onConnectFunc = None, onDisconnectFunc = None,
          onErrorFunc = None, upgrader = u6\<lparr>uEnableCompression := scEnableCompression c\<rparr>\<rparr>)"

definition OnEvent :: "string \<times> 'h \<Rightarrow> ('f, 'h, 'd, 'e) Server \<Rightarrow> ('f, 'h, 'd, 'e) Server" where
  "OnEvent h serv = serv\<lparr>events := On (fst h) (snd h) (events serv)\<rparr>"

definition OnConnect ::
  "(sid \<Rightarrow> 'd sio \<Rightarrow> 'e option \<times> 'd sio) \<Rightarrow> ('f, 'h, 'd, 'e) Server \<Rightarrow> ('f, 'h, 'd, 'e) Server" where
  "OnConnect f serv = serv\<lparr>onConnectFunc := Some f\<rparr>"

definition OnError :: "(sid \<Rightarrow> 'e \<Rightarrow> 'd sio \<Rightarrow> 'd sio) \<Rightarrow> ('f, 'h, 'd, 'e) Server \<Rightarrow> ('f, 'h, 'd, 'e) Server" where
  "OnError f serv = serv\<lparr>onErrorFunc := Some f\<rparr>"

definition OnDisconnect ::
  "(sid \<Rightarrow> 'd sio \<Rightarrow> 'e option \<times> 'd sio) \<Rightarrow> ('f, 'h, 'd, 'e) Server \<Rightarrow> ('f, 'h, 'd, 'e) Server" where
  "OnDisconnect f serv = serv\<lparr>onDisconnectFunc := Some f\<rparr>"

definition SetUpgrader :: "'f Upgrader \<Rightarrow> ('f, 'h, 'd, 'e) Server \<Rightarrow> ('f, 'h, 'd, 'e) Server" where
  "SetUpgrader u serv = serv\<lparr>upgrader := u\<rparr>"

definition SetMultihomeBackend :: "('f, 'h, 'd, 'e) Server \<Rightarrow> ('f, 'h, 'd, 'e) Server" where
  "SetMultihomeBackend serv = serv\<lparr>sioState := setMultihomeBackend (sioState serv)\<rparr>"

text \<open>
  \<^verbatim>\<open>Handle\<close>: \<open>Upgrade\<close> answers the request with the server's settings, and when it succeeds runs the loop of the new
  socket \<open>s\<close>; its error is logged. The other parameters are those of \<^const>\<open>loop\<close>.
\<close>

definition Handle ::
  "('f Upgrader \<Rightarrow> 'c \<Rightarrow> string option) \<Rightarrow> (string list \<Rightarrow> string list) \<Rightarrow> 'e option \<Rightarrow> ('d sio \<Rightarrow> 'd sio) \<Rightarrow> sid \<Rightarrow>
   ('h events \<times> (recv_error + byte list)) list \<Rightarrow> 'c \<Rightarrow> ('f, 'h, 'd, 'e) Server \<Rightarrow>
   string option \<times> ('h \<times> byte list) list \<times> ('f, 'h, 'd, 'e) Server" where
  "Handle Upgrade ord cerr during s script ctx serv =
     (case Upgrade (upgrader serv) ctx of
        Some err \<Rightarrow> (Some err, [], serv)
      | None \<Rightarrow>
          (case loop ord cerr (onDisconnectFunc serv) (onConnectFunc serv) (onErrorFunc serv) during s script (sioState serv) of
             (started, logged, st) \<Rightarrow> (None, started, serv\<lparr>sioState := st\<rparr>)))"

section \<open>Lists of sockets\<close>

text \<open>Both copy a map key by key.\<close>

definition copyMap :: "(sid list \<Rightarrow> sid list) \<Rightarrow> (sid, sid) gomap \<Rightarrow> (sid, sid) gomap" where
  "copyMap ord m = fold (\<lambda>k c. m_put k (the (map_of m k)) c) (ord (m_keys m)) []"

definition RoomSocketList :: "(sid list \<Rightarrow> sid list) \<Rightarrow> string \<Rightarrow> 'd sio \<Rightarrow> (sid, sid) gomap" where
  "RoomSocketList ord r st = (case map_of (hrooms (hub st)) r of None \<Rightarrow> [] | Some socks \<Rightarrow> copyMap ord socks)"

definition SocketList :: "(sid list \<Rightarrow> sid list) \<Rightarrow> 'd sio \<Rightarrow> (sid, sid) gomap" where
  "SocketList ord st = copyMap ord (hsockets (hub st))"

lemma copyMap_has:
  assumes "perm_fn ord"
  shows "m_has (copyMap ord m) k \<longleftrightarrow> m_has m k"
proof -
  have "m_has (fold (\<lambda>k c. m_put k (f k) c) ks c) k \<longleftrightarrow> k \<in> set ks \<or> m_has c k" for f ks and c :: "(sid, sid) gomap"
    by (induction ks arbitrary: c) (auto simp: gomap_simps)
  then show ?thesis by (simp add: copyMap_def perm_fn_set [OF assms] m_has_iff_keys)
qed

section \<open>The casts of a socket\<close>

text \<open>They go to the same hub as those of the server; a socket does not leave itself out.\<close>

definition SocketToRoom where
  "SocketToRoom marshal ord (s :: sid) roomName eventName data st = ToRoom marshal ord roomName eventName data st"

definition SocketToRoomExcept where
  "SocketToRoomExcept marshal ord (s :: sid) roomName except eventName data st =
     ToRoomExcept marshal ord roomName except eventName data st"

definition SocketBroadcast where
  "SocketBroadcast marshal ord (s :: sid) eventName data st = Broadcast marshal ord eventName data st"

definition SocketBroadcastExcept where
  "SocketBroadcastExcept marshal ord (s :: sid) except eventName data st =
     BroadcastExcept marshal ord except eventName data st"

definition SocketToSocket where
  "SocketToSocket marshal ord (s :: sid) socketID eventName data st = ToSocket marshal ord socketID eventName data st"

text \<open>
  The lists name the audiences: a cast to a room reaches exactly the sockets that \<^verbatim>\<open>RoomSocketList\<close> lists for it, the
  exceptions aside, and a broadcast exactly those of \<^verbatim>\<open>SocketList\<close>, whatever the orders of the maps; the
  casts of a socket do the same as those of the server.
\<close>

theorem lists_are_audiences:
  assumes "sio_reach marshal st" and "perm_fn ord" and "perm_fn ord'"
  shows "store (SocketToRoomExcept marshal ord me r except ev data st) s =
      (if m_has (RoomSocketList ord' r st) s \<and> s \<notin> set except then gets (emitData marshal ev data) (store st s) else store st s) \<and>
    store (SocketBroadcastExcept marshal ord me except ev data st) s =
      (if m_has (SocketList ord' st) s \<and> s \<notin> set except then gets (emitData marshal ev data) (store st s) else store st s) \<and>
    SocketToRoom marshal ord me r ev data st = SocketToRoomExcept marshal ord me r [] ev data st \<and>
    SocketBroadcast marshal ord me ev data st = SocketBroadcastExcept marshal ord me [] ev data st"
proof -
  have inv: "sio_inv st" using assms(1) by (rule sio_reach_inv)
  then have "InRoom r (store st s) \<longleftrightarrow> tbl_member (hrooms (hub st)) r s" by (simp add: sio_inv_def inHubRoom_def)
  then have "m_has (RoomSocketList ord' r st) s \<longleftrightarrow> InRoom r (store st s)"
    by (simp add: RoomSocketList_def copyMap_has [OF assms(3)] tbl_member_def split: option.split)
  moreover have "m_has (SocketList ord' st) s \<longleftrightarrow> m_has (hsockets (hub st)) s"
    by (simp add: SocketList_def copyMap_has [OF assms(3)])
  moreover have "m_wf (hsockets (hub st))" using inv by (simp add: sio_inv_def)
  ultimately show ?thesis
    by (simp add: SocketToRoomExcept_def SocketBroadcastExcept_def SocketToRoom_def SocketBroadcast_def ToRoom_def
        ToRoomExcept_def Broadcast_def BroadcastExcept_def toBackend_def castRoom_eq [OF assms(2) inv] castHub_def
        castAll_eq [OF assms(2)] excepted_def)
qed

section \<open>Pings\<close>

text \<open>
  What the goroutine of \<^verbatim>\<open>Ping\<close> receives: a tick, or \<^verbatim>\<open>tickerDone\<close>. Its result: the messages it wrote, whether it
  returned, the buffers whose \<^verbatim>\<open>Put\<close> is still deferred, and the heap. \<^verbatim>\<open>fmt.Sprintf("%d", PongMessage)\<close> is \<open>"10"\<close>.
\<close>

datatype ping_event = PingTick | TickerDone

fun Ping ::
  "(nat \<Rightarrow> nat \<Rightarrow> nat) \<Rightarrow> ping_event list \<Rightarrow> nat list \<Rightarrow> heap \<Rightarrow> (int \<times> byte list) list \<times> bool \<times> nat list \<times> heap" where
  "Ping grow [] deferred h = ([], False, deferred, h)"
| "Ping grow (TickerDone # evs) deferred h = ([], True, [], fold heapPut deferred h)"
| "Ping grow (PingTick # evs) deferred h =
     (let (b, h1) = heapGet h;
          h2 = heapAppend grow b (bytes_of ''10'') h1;
          (msgs, returned, held, h3) = Ping grow evs (b # deferred) h2
      in ((1, readSlice h2 (bufs h2 b)) # msgs, returned, held, h3))"

lemma heapAppend_frame:
  "heap_ok h b' \<Longrightarrow> b' \<noteq> b \<Longrightarrow> heap_ok (heapAppend grow b p h) b'" "freeBufs (heapAppend grow b p h) = freeBufs h"
  by (auto simp: heapAppend_def heap_ok_def Let_def split: prod.splits)

lemma heapGet_frame:
  assumes "heapGet h = (b, h1)"
  shows "heap_ok h b' \<Longrightarrow> heap_ok h1 b'" "freeBufs h1 = tl (freeBufs h)" "freeBufs h \<noteq> [] \<Longrightarrow> b = hd (freeBufs h)"
  using assms by (auto simp: heapGet_def heap_ok_def split: list.splits)

text \<open>
  Pings keep buffers. Every tick takes a buffer out of the pool and writes one message \<open>10\<close>, but the buffers only go back when the
  goroutine returns, because their \<^verbatim>\<open>Put\<close> is deferred inside the loop: after \<open>n\<close> ticks it holds \<open>n\<close>
  buffers and the pool has \<open>n\<close> fewer (down to none, from where each tick makes a new one).
\<close>

theorem Ping_keeps_buffers:
  assumes "grows grow" and "\<forall>b \<in> set (freeBufs h). heap_ok h b" and "distinct (freeBufs h)"
  shows "\<exists>held h'. Ping grow (replicate n PingTick) deferred h =
      (replicate n (1, bytes_of ''10''), False, held @ deferred, h') \<and>
    length held = n \<and> freeBufs h' = drop n (freeBufs h)"
  using assms(2,3)
proof (induction n arbitrary: deferred h)
  case (Suc n)
  obtain b h1 where get: "heapGet h = (b, h1)" by fastforce
  let ?h2 = "heapAppend grow b (bytes_of ''10'') h1"
  note ok = heapGet_ok [OF Suc.prems(1) get] and frame = heapGet_frame [OF get]
  have msg: "readSlice ?h2 (bufs ?h2 b) = bytes_of ''10''"
    using heapAppend_content(1) [OF assms(1) ok(1)] ok(2) by simp
  have tail: "b' \<in> set (tl (freeBufs h)) \<Longrightarrow> b' \<noteq> b \<and> heap_ok h b'" for b'
    using Suc.prems frame(3) by (cases "freeBufs h") auto
  then have "\<forall>b' \<in> set (freeBufs ?h2). heap_ok ?h2 b'"
    using heapAppend_frame(1) frame(1) by (simp add: heapAppend_frame(2) frame(2))
  moreover have "distinct (freeBufs ?h2)" using Suc.prems(2) by (simp add: heapAppend_frame(2) frame(2) distinct_tl)
  ultimately obtain held h' where "Ping grow (replicate n PingTick) (b # deferred) ?h2 =
      (replicate n (1, bytes_of ''10''), False, held @ b # deferred, h')" "length held = n" "freeBufs h' = drop n (freeBufs ?h2)"
    using Suc.IH by blast
  then show ?case
    by (intro exI [of _ "held @ [b]"] exI [of _ h'])
      (simp add: get msg heapAppend_frame(2) frame(2) drop_Suc)
qed simp

end
