(* ===== verification/Json.thy ===== *)
theory Json
  imports GoStrings "HOL-Library.List_Lexorder" "HOL-Library.Char_ord"
begin

text \<open>
  What the program uses of \<^verbatim>\<open>encoding/json\<close>: values as a text denotes them, what \<^verbatim>\<open>Unmarshal\<close>
  makes of one in an \<^verbatim>\<open>interface{}\<close>, and how \<^verbatim>\<open>Unmarshal\<close> fills a struct from it. Reading the text
  itself is a parameter of the theories that need it.
\<close>

section \<open>Values\<close>

text \<open>
  An object is its members in the order of the text, with repetitions. \<open>JNum n\<close> is a number that
  \<^verbatim>\<open>json.Marshal\<close> prints as the integer \<open>n\<close>, \<open>JFrac\<close> any other number.
\<close>

datatype json =
    JNull
  | JBool bool
  | JNum int
  | JFrac string
  | JStr string
  | JArr "json list"
  | JObj "(string \<times> json) list"

text \<open>
  The members of a \<^verbatim>\<open>map[string]interface{}\<close> as \<^verbatim>\<open>json.Marshal\<close> prints them: of members with the same
  name the last one counts, and they are sorted by name.
\<close>

definition objMap :: "(string \<times> json) list \<Rightarrow> (string \<times> json) list" where
  "objMap kvs = map (\<lambda>k. (k, the (map_of (rev kvs) k))) (sort (remdups (map fst kvs)))"

fun toValue :: "json \<Rightarrow> json" where
  "toValue (JArr xs) = JArr (map toValue xs)"
| "toValue (JObj kvs) = JObj (objMap (map (\<lambda>(k, v). (k, toValue v)) kvs))"
| "toValue j = j"

lemma map_of_objMap: "map_of (objMap kvs) = map_of (rev kvs)"
proof
  fix k
  show "map_of (objMap kvs) k = map_of (rev kvs) k"
  proof (cases "k \<in> fst ` set kvs")
    case True
    then have "map_of (rev kvs) k \<noteq> None" by (simp add: map_of_eq_None_iff)
    with True show ?thesis by (auto simp: objMap_def map_of_map_restrict restrict_map_def)
  next
    case False
    then have "map_of (rev kvs) k = None" by (simp add: map_of_eq_None_iff)
    moreover from False have "map_of (objMap kvs) k = None"
      by (auto simp: objMap_def map_of_eq_None_iff image_iff)
    ultimately show ?thesis by simp
  qed
qed

lemma objMap_sorted: "sorted (map fst (objMap kvs))" "distinct (map fst (objMap kvs))"
  by (simp_all add: objMap_def o_def)

section \<open>Structs\<close>

text \<open>
  A struct type is the list of its fields with their json names. \<open>KTime\<close> is \<^verbatim>\<open>time.Time\<close>, kept as
  the text it was read from.
\<close>

datatype kind = KStr | KBool | KInt | KAny | KTime

type_synonym schema = "(string \<times> kind) list"
type_synonym struct = "(string, json) gomap"

fun zeroValue :: "kind \<Rightarrow> json" where
  "zeroValue KStr = JStr ''''"
| "zeroValue KBool = JBool False"
| "zeroValue KInt = JNum 0"
| "zeroValue KAny = JNull"
| "zeroValue KTime = JStr ''0001-01-01T00:00:00Z''"

definition zeroStruct :: "schema \<Rightarrow> struct" where
  "zeroStruct sch = map (\<lambda>(n, k). (n, zeroValue k)) sch"

text \<open>
  One member into one field, \<open>old\<close> being its value: \<^verbatim>\<open>null\<close> leaves it alone (and empties an
  interface), a value of the wrong type is an error (\<^const>\<open>None\<close>). \<open>timeOk\<close> tells the texts that
  \<^verbatim>\<open>time.Time\<close> accepts.
\<close>

fun decodeField :: "(string \<Rightarrow> bool) \<Rightarrow> kind \<Rightarrow> json \<Rightarrow> json \<Rightarrow> json option" where
  "decodeField timeOk KAny old v = Some (toValue v)"
| "decodeField timeOk k old JNull = Some old"
| "decodeField timeOk KStr old (JStr s) = Some (JStr s)"
| "decodeField timeOk KBool old (JBool b) = Some (JBool b)"
| "decodeField timeOk KInt old (JNum n) = (if - (2 ^ 63) \<le> n \<and> n < 2 ^ 63 then Some (JNum n) else None)"
| "decodeField timeOk KTime old (JStr s) = (if timeOk s then Some (JStr s) else None)"
| "decodeField timeOk k old v = None"

text \<open>The field a member name stands for: exactly that name, else the first that differs only in case.\<close>

definition findField :: "schema \<Rightarrow> string \<Rightarrow> string option" where
  "findField sch k =
     (if k \<in> set (map fst sch) then Some k else List.find (\<lambda>n. toLower n = toLower k) (map fst sch))"

definition decodeMember :: "(string \<Rightarrow> bool) \<Rightarrow> schema \<Rightarrow> struct option \<Rightarrow> string \<times> json \<Rightarrow> struct option" where
  "decodeMember timeOk sch acc kv =
     (case acc of
        None \<Rightarrow> None
      | Some st \<Rightarrow>
          (case findField sch (fst kv) of
             None \<Rightarrow> Some st
           | Some n \<Rightarrow>
               (case decodeField timeOk (the (map_of sch n)) (the (map_of st n)) (snd kv) of
                  None \<Rightarrow> None
                | Some v \<Rightarrow> Some (m_put n v st))))"

text \<open>Filling a struct that has the fields \<open>st\<close> already, and a new one.\<close>

definition decodeInto :: "(string \<Rightarrow> bool) \<Rightarrow> schema \<Rightarrow> struct \<Rightarrow> json \<Rightarrow> struct option" where
  "decodeInto timeOk sch st j =
     (case j of
        JNull \<Rightarrow> Some st
      | JObj kvs \<Rightarrow> foldl (decodeMember timeOk sch) (Some st) kvs
      | _ \<Rightarrow> None)"

definition decodeStruct :: "(string \<Rightarrow> bool) \<Rightarrow> schema \<Rightarrow> json \<Rightarrow> struct option" where
  "decodeStruct timeOk sch j = decodeInto timeOk sch (zeroStruct sch) j"

subsection \<open>Well-formed structs\<close>

fun hasKind :: "kind \<Rightarrow> json \<Rightarrow> bool" where
  "hasKind KStr (JStr s) = True"
| "hasKind KBool (JBool b) = True"
| "hasKind KInt (JNum n) = (- (2 ^ 63) \<le> n \<and> n < 2 ^ 63)"
| "hasKind KAny v = True"
| "hasKind KTime (JStr s) = True"
| "hasKind k v = False"

definition struct_ok :: "schema \<Rightarrow> struct \<Rightarrow> bool" where
  "struct_ok sch st \<longleftrightarrow> map fst st = map fst sch \<and>
     (\<forall>n k. map_of sch n = Some k \<longrightarrow> (\<exists>v. map_of st n = Some v \<and> hasKind k v))"

lemma hasKind_zero [simp]: "hasKind k (zeroValue k)"
  by (cases k) auto

lemma decodeField_hasKind: "decodeField timeOk k old v = Some v' \<Longrightarrow> hasKind k old \<Longrightarrow> hasKind k v'"
  by (cases "(timeOk, k, old, v)" rule: decodeField.cases) (auto split: if_splits)

lemma struct_ok_zero: "struct_ok sch (zeroStruct sch)"
proof -
  have "map fst (zeroStruct sch) = map fst sch" by (simp add: zeroStruct_def o_def case_prod_unfold)
  moreover have "map_of (zeroStruct sch) n = map_option zeroValue (map_of sch n)" for n
    unfolding zeroStruct_def by (simp add: map_of_map)
  ultimately show ?thesis by (simp add: struct_ok_def)
qed

lemma findField_Some: "findField sch k = Some n \<Longrightarrow> n \<in> set (map fst sch) \<and> toLower n = toLower k"
  unfolding findField_def by (metis (mono_tags, lifting) find_Some_iff nth_mem option.inject)

lemma struct_ok_put:
  assumes "struct_ok sch st" and "map_of sch n = Some k" and "hasKind k v"
  shows "struct_ok sch (m_put n v st)"
proof -
  have "n \<in> set (map fst st)"
    using assms(1,2) by (metis struct_ok_def map_of_SomeD image_eqI fst_conv list.set_map)
  then have "map fst (m_put n v st) = map fst st" by (simp add: update_keys)
  with assms show ?thesis by (auto simp: struct_ok_def gomap_simps)
qed

lemma decodeMember_ok:
  assumes "struct_ok sch st" and "decodeMember timeOk sch (Some st) kv = Some st'"
  shows "struct_ok sch st'"
proof (cases "findField sch (fst kv)")
  case None
  with assms show ?thesis by (simp add: decodeMember_def)
next
  case (Some n)
  then have "map_of sch n \<noteq> None" by (auto dest!: findField_Some simp: map_of_eq_None_iff)
  then obtain k where k: "map_of sch n = Some k" by blast
  with assms(1) obtain old where old: "map_of st n = Some old" "hasKind k old"
    unfolding struct_ok_def by blast
  from assms(2) Some k old obtain v where "decodeField timeOk k old (snd kv) = Some v" "st' = m_put n v st"
    by (auto simp: decodeMember_def split: option.splits)
  with old show ?thesis by (auto intro: struct_ok_put [OF assms(1) k] dest: decodeField_hasKind)
qed

lemma decodeMember_None [simp]: "foldl (decodeMember timeOk sch) None kvs = None"
  by (induction kvs) (simp_all add: decodeMember_def)

lemma foldl_decode_ok:
  "foldl (decodeMember timeOk sch) (Some st) kvs = Some st' \<Longrightarrow> struct_ok sch st \<Longrightarrow> struct_ok sch st'"
proof (induction kvs arbitrary: st)
  case (Cons kv kvs)
  then show ?case
    by (cases "decodeMember timeOk sch (Some st) kv") (auto dest: decodeMember_ok)
qed simp

text \<open>Whatever the value, a struct that was filled has all its fields, each of its type.\<close>

lemma decodeInto_ok: "decodeInto timeOk sch st0 j = Some st \<Longrightarrow> struct_ok sch st0 \<Longrightarrow> struct_ok sch st"
  by (auto simp: decodeInto_def intro: foldl_decode_ok split: json.splits)

lemma decodeStruct_ok: "decodeStruct timeOk sch j = Some st \<Longrightarrow> struct_ok sch st"
  by (auto simp: decodeStruct_def struct_ok_zero intro: decodeInto_ok)

subsection \<open>Reading and setting fields\<close>

definition strField :: "struct \<Rightarrow> string \<Rightarrow> string" where
  "strField st n = (case map_of st n of Some (JStr s) \<Rightarrow> s | _ \<Rightarrow> '''')"

definition intField :: "struct \<Rightarrow> string \<Rightarrow> int" where
  "intField st n = (case map_of st n of Some (JNum i) \<Rightarrow> i | _ \<Rightarrow> 0)"

definition boolField :: "struct \<Rightarrow> string \<Rightarrow> bool" where
  "boolField st n = (case map_of st n of Some (JBool b) \<Rightarrow> b | _ \<Rightarrow> False)"

definition anyField :: "struct \<Rightarrow> string \<Rightarrow> json" where
  "anyField st n = (case map_of st n of Some v \<Rightarrow> v | None \<Rightarrow> JNull)"

definition setStr :: "string \<Rightarrow> string \<Rightarrow> struct \<Rightarrow> struct" where
  "setStr n s st = m_put n (JStr s) st"

lemma strField_setStr [simp]: "strField (setStr n s st) m = (if m = n then s else strField st m)"
  by (simp add: strField_def setStr_def gomap_simps)

lemma field_setStr [simp]:
  "m \<noteq> n \<Longrightarrow> intField (setStr n s st) m = intField st m"
  "m \<noteq> n \<Longrightarrow> boolField (setStr n s st) m = boolField st m"
  "m \<noteq> n \<Longrightarrow> anyField (setStr n s st) m = anyField st m"
  by (simp_all add: intField_def boolField_def anyField_def setStr_def gomap_simps)

end
