(* ===== verification/Transmission.thy ===== *)
theory Transmission
  imports Json SioHub
begin

text \<open>
  \<^verbatim>\<open>adapters/transmission.go\<close>: the envelope in which an event travels between servers. The data is
  turned into bytes, base64 and a type number, and back. \<open>render\<close> is the text that
  \<^verbatim>\<open>json.Marshal\<close> writes for a value (\<^const>\<open>None\<close>: its error), \<open>parse\<close> the value a text denotes.
\<close>

definition ttErr :: int where "ttErr = 0"
definition ttStr :: int where "ttStr = 1"
definition ttBin :: int where "ttBin = 2"
definition ttJSON :: int where "ttJSON = 3"

lemmas tt_defs = ttErr_def ttStr_def ttBin_def ttJSON_def

datatype tt_error = ErrBadDataType | ErrNoEventName | ErrSyntax | ErrBase64

record transmission =
  tDataType :: int
  tEventName :: string
  tRoomName :: string
  tPayload :: string
  tServerName :: string
  tData :: "json any"

definition transmissionS :: schema where
  "transmissionS = [(''d'', KInt), (''e'', KStr), (''r'', KStr), (''p'', KStr), (''s'', KStr)]"

definition envelope :: "transmission \<Rightarrow> json" where
  "envelope t = JObj ([(''d'', JNum (tDataType t)), (''e'', JStr (tEventName t))] @
     (if tRoomName t = '''' then [] else [(''r'', JStr (tRoomName t))]) @
     [(''p'', JStr (tPayload t)), (''s'', JStr (tServerName t))])"

definition GetDataType :: "(json \<Rightarrow> byte list option) \<Rightarrow> json any \<Rightarrow> byte list \<times> int" where
  "GetDataType render inp =
     (case inp of
        AStr i \<Rightarrow> (bytes_of i, ttStr)
      | ABytes i \<Rightarrow> (i, ttBin)
      | AOther i \<Rightarrow> (case render i of None \<Rightarrow> ([], ttStr) | Some j \<Rightarrow> (j, ttJSON)))"

text \<open>The receiver is changed too: its payload and type are set.\<close>

definition toJSON :: "(json \<Rightarrow> byte list option) \<Rightarrow> transmission \<Rightarrow> byte list option \<times> transmission" where
  "toJSON render t =
     (let (data, dType) = GetDataType render (tData t);
          t' = t\<lparr>tPayload := b64_encode data, tDataType := dType\<rparr>
      in (render (envelope t'), t'))"

text \<open>\<^verbatim>\<open>Unmarshal\<close> of a text into an empty interface.\<close>

definition toAny :: "json \<Rightarrow> json any" where
  "toAny v = (case v of JStr s \<Rightarrow> AStr s | _ \<Rightarrow> AOther (toValue v))"

definition fields :: "transmission \<Rightarrow> struct" where
  "fields t = [(''d'', JNum (tDataType t)), (''e'', JStr (tEventName t)), (''r'', JStr (tRoomName t)),
     (''p'', JStr (tPayload t)), (''s'', JStr (tServerName t))]"

definition ofFields :: "struct \<Rightarrow> transmission \<Rightarrow> transmission" where
  "ofFields st t = t\<lparr>tDataType := intField st ''d'', tEventName := strField st ''e'', tRoomName := strField st ''r'',
     tPayload := strField st ''p'', tServerName := strField st ''s''\<rparr>"

definition fromJSON :: "(byte list \<Rightarrow> json option) \<Rightarrow> byte list \<Rightarrow> transmission \<Rightarrow> tt_error + transmission" where
  "fromJSON parse data t0 =
     (case (case parse data of None \<Rightarrow> None | Some j \<Rightarrow> decodeInto (\<lambda>_. False) transmissionS (fields t0) j) of
        None \<Rightarrow> Inl ErrSyntax
      | Some st \<Rightarrow>
          let t = ofFields st t0
          in if tDataType t = ttErr then Inl ErrBadDataType
             else if tEventName t = '''' then Inl ErrNoEventName
             else case b64_decode (tPayload t) of
                    None \<Rightarrow> Inl ErrBase64
                  | Some d \<Rightarrow>
                      if tDataType t = ttStr then Inr (t\<lparr>tData := AStr (string_of d)\<rparr>)
                      else if tDataType t = ttBin then Inr (t\<lparr>tData := ABytes d\<rparr>)
                      else if tDataType t = ttJSON
                      then (case parse d of None \<Rightarrow> Inl ErrSyntax | Some v \<Rightarrow> Inr (t\<lparr>tData := toAny v\<rparr>))
                      else Inr t)"

section \<open>Round trip\<close>

text \<open>The envelope read back into an empty receiver.\<close>

definition emptyT :: transmission where
  "emptyT = \<lparr>tDataType = 0, tEventName = '''', tRoomName = '''', tPayload = '''', tServerName = '''', tData = AOther JNull\<rparr>"

lemma decode_envelope:
  assumes "- (2 ^ 63) \<le> tDataType t" and "tDataType t < 2 ^ 63"
  shows "decodeInto (\<lambda>_. False) transmissionS (fields emptyT) (envelope t) = Some (fields t)"
proof -
  have [simp]: "- 9223372036854775808 \<le> tDataType t" "tDataType t < 9223372036854775808"
    using assms by simp_all
  show ?thesis
    by (simp add: decodeInto_def envelope_def decodeMember_def findField_def transmissionS_def fields_def emptyT_def)
qed

lemma ofFields_fields: "ofFields (fields t) t0 = t\<lparr>tData := tData t0\<rparr>"
  by (simp add: ofFields_def fields_def intField_def strField_def)

lemma fromJSON_envelope:
  assumes "parse bs = Some (envelope t)" and "tDataType t \<in> {ttStr, ttBin, ttJSON}" and "tEventName t \<noteq> ''''"
    and "tPayload t = b64_encode d"
  shows "fromJSON parse bs emptyT =
    (if tDataType t = ttStr then Inr (t\<lparr>tData := AStr (string_of d)\<rparr>)
     else if tDataType t = ttBin then Inr (t\<lparr>tData := ABytes d\<rparr>)
     else case parse d of None \<Rightarrow> Inl ErrSyntax | Some v \<Rightarrow> Inr (t\<lparr>tData := toAny v\<rparr>))"
proof -
  have "- (2 ^ 63) \<le> tDataType t" "tDataType t < 2 ^ 63" using assms(2) by (auto simp: tt_defs)
  note dec = decode_envelope [OF this]
  from assms(2) show ?thesis
    by (auto simp: fromJSON_def assms(1,3,4) dec ofFields_fields Let_def tt_defs split: option.splits)
qed

text \<open>What arrives for data that was sent: a value arrives as \<^verbatim>\<open>Unmarshal\<close> builds it.\<close>

fun arrives :: "json any \<Rightarrow> json any" where
  "arrives (AOther v) = toAny v"
| "arrives d = d"

text \<open>
  C37. What one server sends is what the other gets: if the JSON texts of the envelope and of the
  data are read back as they were written, an event with a name arrives with its name, room,
  server and data, whatever bytes a string or a byte slice contains. Data that \<^verbatim>\<open>json.Marshal\<close>
  refuses is not refused here: the empty string arrives in its place.
\<close>

theorem transmission_roundtrip:
  assumes "tEventName t \<noteq> ''''" and "toJSON render t = (Some bs, t')"
    and "parse bs = Some (envelope t')"
    and "\<And>v js. tData t = AOther v \<Longrightarrow> render v = Some js \<Longrightarrow> parse js = Some v"
  shows "\<exists>r. fromJSON parse bs emptyT = Inr r \<and> tEventName r = tEventName t \<and> tRoomName r = tRoomName t \<and>
    tServerName r = tServerName t \<and>
    tData r = (if \<exists>v. tData t = AOther v \<and> render v = None then AStr '''' else arrives (tData t))"
proof -
  obtain d ty where g: "GetDataType render (tData t) = (d, ty)" by fastforce
  with assms(2) have t': "t' = t\<lparr>tPayload := b64_encode d, tDataType := ty\<rparr>"
    by (simp add: toJSON_def Let_def)
  have ty: "tDataType t' \<in> {ttStr, ttBin, ttJSON}" "tEventName t' \<noteq> ''''" "tPayload t' = b64_encode d"
    using g assms(1) by (auto simp: t' GetDataType_def split: any.splits option.splits)
  note got = fromJSON_envelope [where parse = parse, OF assms(3) ty]
  show ?thesis
  proof (cases "tData t")
    case (AOther v)
    show ?thesis
    proof (cases "render v")
      case None
      with AOther g have "d = []" "ty = ttStr" by (auto simp: GetDataType_def)
      with AOther None show ?thesis by (simp add: got t' string_of_def)
    next
      case (Some js)
      with AOther g have "d = js" "ty = ttJSON" by (auto simp: GetDataType_def)
      moreover have "parse js = Some v" by (rule assms(4) [OF AOther Some])
      ultimately show ?thesis using AOther Some by (simp add: got t' tt_defs)
    qed
  qed (use g in \<open>auto simp: GetDataType_def got t' tt_defs\<close>)
qed

definition demo_render :: "json \<Rightarrow> byte list option" where
  "demo_render j = (if j = JBool True then Some [116] else Some [123])"

definition demo_event :: transmission where
  "demo_event = emptyT\<lparr>tEventName := ''e'', tRoomName := ''r'', tServerName := ''s'', tData := AOther (JBool True)\<rparr>"

theorem transmission_roundtrip_witness:
  "\<exists>r. fromJSON (\<lambda>bs. if bs = [116] then Some (JBool True) else Some (envelope (snd (toJSON demo_render demo_event))))
      [123] emptyT = Inr r \<and> tEventName r = tEventName demo_event \<and> tRoomName r = tRoomName demo_event \<and>
    tServerName r = tServerName demo_event \<and>
    tData r = (if \<exists>v. tData demo_event = AOther v \<and> demo_render v = None then AStr '''' else arrives (tData demo_event))"
  by (rule transmission_roundtrip)
    (auto simp: demo_event_def demo_render_def toJSON_def GetDataType_def envelope_def emptyT_def Let_def split: if_splits)

text \<open>
  \<^verbatim>\<open>fromJSON\<close> checks what it reads: it accepts a text only if the text has the shape of the
  envelope, a type other than 0, an event name and valid base64; but a type that no
  sender uses (above 3, or negative) passes as well, and leaves the data of the receiver as it was.
\<close>

theorem fromJSON_checks:
  "(fromJSON parse bs t0 = Inr r \<longrightarrow>
     tDataType r \<noteq> ttErr \<and> tEventName r \<noteq> '''' \<and> b64_decode (tPayload r) \<noteq> None \<and>
     (\<exists>j st. parse bs = Some j \<and> decodeInto (\<lambda>_. False) transmissionS (fields t0) j = Some st) \<and>
     (tDataType r \<notin> {ttStr, ttBin, ttJSON} \<longrightarrow> tData r = tData t0)) \<and>
   (parse bs = Some (envelope t) \<and> ttJSON < tDataType t \<and> tDataType t < 2 ^ 63 \<and> tEventName t \<noteq> '''' \<and>
      tPayload t = b64_encode d \<longrightarrow> fromJSON parse bs emptyT = Inr (t\<lparr>tData := AOther JNull\<rparr>))"
proof (intro conjI impI)
  assume "fromJSON parse bs t0 = Inr r"
  then show "tDataType r \<noteq> ttErr" "tEventName r \<noteq> ''''" "b64_decode (tPayload r) \<noteq> None"
    "\<exists>j st. parse bs = Some j \<and> decodeInto (\<lambda>_. False) transmissionS (fields t0) j = Some st"
    "tDataType r \<notin> {ttStr, ttBin, ttJSON} \<Longrightarrow> tData r = tData t0"
    by (auto simp: fromJSON_def Let_def ofFields_def split: option.splits if_splits)
next
  assume a: "parse bs = Some (envelope t) \<and> ttJSON < tDataType t \<and> tDataType t < 2 ^ 63 \<and> tEventName t \<noteq> '''' \<and>
    tPayload t = b64_encode d"
  then have "- (2 ^ 63) \<le> tDataType t" "tDataType t < 2 ^ 63" by (auto simp: tt_defs)
  note dec = decode_envelope [OF this]
  have "tData emptyT = AOther JNull" by (simp add: emptyT_def)
  with a show "fromJSON parse bs emptyT = Inr (t\<lparr>tData := AOther JNull\<rparr>)"
    by (auto simp: fromJSON_def dec ofFields_fields Let_def tt_defs)
qed

theorem fromJSON_checks_witness:
  "fromJSON (\<lambda>_. Some (envelope (demo_event\<lparr>tDataType := 9\<rparr>))) [] emptyT =
     Inr (demo_event\<lparr>tDataType := 9, tData := AOther JNull\<rparr>)"
  using fromJSON_checks [of "\<lambda>_. Some (envelope (demo_event\<lparr>tDataType := 9\<rparr>))" "[]" emptyT
      "demo_event\<lparr>tDataType := 9, tData := AOther JNull\<rparr>" "demo_event\<lparr>tDataType := 9\<rparr>" "[]"]
  by (simp add: demo_event_def emptyT_def tt_defs)

end
