(* ===== verification/ChatTypes.thy ===== *)
theory ChatTypes
  imports Json Rooms WsTypes
begin

text \<open>
  \<^verbatim>\<open>chat/types.go\<close>: message types, the payload structs as the json codec sees them, clients, rooms,
  and the rows of the database.
\<close>

section \<open>Constants\<close>

text \<open>The values of \<^verbatim>\<open>MessageType\<close>, with the prefix \<open>T\<close>.\<close>

definition TJoinRoom :: string where "TJoinRoom = ''join_room''"
definition TLeaveRoom :: string where "TLeaveRoom = ''leave_room''"
definition TMessage :: string where "TMessage = ''message''"
definition TThreadReply :: string where "TThreadReply = ''thread_reply''"
definition TTyping :: string where "TTyping = ''typing''"
definition TReadReceipt :: string where "TReadReceipt = ''read_receipt''"
definition TUserJoined :: string where "TUserJoined = ''user_joined''"
definition TUserLeft :: string where "TUserLeft = ''user_left''"
definition TTypingStart :: string where "TTypingStart = ''typing_start''"
definition TTypingStop :: string where "TTypingStop = ''typing_stop''"
definition TAcknowledgment :: string where "TAcknowledgment = ''ack''"
definition TError :: string where "TError = ''error''"
definition TFileShare :: string where "TFileShare = ''file_share''"
definition TMediaShare :: string where "TMediaShare = ''media_share''"
definition TCallInvite :: string where "TCallInvite = ''call_invite''"
definition TCallAnswer :: string where "TCallAnswer = ''call_answer''"
definition TCallEnd :: string where "TCallEnd = ''call_end''"
definition TWebRTCSignal :: string where "TWebRTCSignal = ''webrtc_signal''"
definition TScreenShare :: string where "TScreenShare = ''screen_share''"
definition TRecordingStart :: string where "TRecordingStart = ''recording_start''"
definition TRecordingStop :: string where "TRecordingStop = ''recording_stop''"

lemmas type_defs =
  TJoinRoom_def TLeaveRoom_def TMessage_def TThreadReply_def TTyping_def
  TReadReceipt_def TUserJoined_def TUserLeft_def TTypingStart_def TTypingStop_def
  TAcknowledgment_def TError_def TFileShare_def TMediaShare_def TCallInvite_def
  TCallAnswer_def TCallEnd_def TWebRTCSignal_def TScreenShare_def TRecordingStart_def
  TRecordingStop_def

definition PublicRoom :: string where "PublicRoom = ''public''"
definition GroupRoom :: string where "GroupRoom = ''group''"
definition DMRoom :: string where "DMRoom = ''dm''"

definition StatusSent :: string where "StatusSent = ''sent''"
definition StatusDelivered :: string where "StatusDelivered = ''delivered''"

lemmas room_type_defs = PublicRoom_def GroupRoom_def DMRoom_def

section \<open>Payloads\<close>

text \<open>
  The payload structs by their json fields. A payload that came off the wire and was not parsed yet
  is a plain value.
\<close>

definition envelopeS :: schema where
  "envelopeS = [(''type'', KStr), (''roomId'', KStr), (''messageId'', KStr), (''payload'', KAny), (''timestamp'', KTime)]"
definition MessagePayload :: schema where
  "MessagePayload = [(''content'', KStr), (''userId'', KStr), (''username'', KStr), (''messageId'', KStr)]"
definition ThreadReplyPayload :: schema where
  "ThreadReplyPayload = [(''content'', KStr), (''userId'', KStr), (''username'', KStr), (''messageId'', KStr),
     (''parentMessageId'', KStr)]"
definition TypingPayload :: schema where
  "TypingPayload = [(''userId'', KStr), (''username'', KStr), (''isTyping'', KBool)]"
definition ReadReceiptPayload :: schema where
  "ReadReceiptPayload = [(''userId'', KStr), (''messageId'', KStr), (''readAt'', KTime)]"
definition FileSharePayload :: schema where
  "FileSharePayload = [(''messageId'', KStr), (''userId'', KStr), (''username'', KStr), (''fileName'', KStr),
     (''fileSize'', KInt), (''fileType'', KStr), (''fileData'', KAny), (''fileUrl'', KStr), (''roomId'', KStr)]"
definition MediaSharePayload :: schema where
  "MediaSharePayload = [(''mediaType'', KStr), (''mediaData'', KStr), (''duration'', KInt), (''thumbnail'', KStr),
     (''userId'', KStr), (''username'', KStr), (''messageId'', KStr), (''roomId'', KStr), (''fileUrl'', KStr)]"
definition CallInvitePayload :: schema where
  "CallInvitePayload = [(''userId'', KStr), (''username'', KStr), (''callType'', KStr), (''roomId'', KStr)]"
definition CallAnswerPayload :: schema where
  "CallAnswerPayload = [(''userId'', KStr), (''username'', KStr), (''callId'', KStr), (''accepted'', KBool)]"
definition CallEndPayload :: schema where
  "CallEndPayload = [(''userId'', KStr), (''username'', KStr), (''callId'', KStr), (''reason'', KStr)]"
definition WebRTCSignalPayload :: schema where
  "WebRTCSignalPayload = [(''userId'', KStr), (''username'', KStr), (''signal'', KAny), (''signalType'', KStr)]"
definition ScreenSharePayload :: schema where
  "ScreenSharePayload = [(''userId'', KStr), (''username'', KStr), (''isSharing'', KBool), (''streamId'', KStr)]"
definition RecordingPayload :: schema where
  "RecordingPayload = [(''userId'', KStr), (''username'', KStr), (''isRecording'', KBool), (''recordingId'', KStr)]"

lemmas payload_defs =
  MessagePayload_def ThreadReplyPayload_def TypingPayload_def ReadReceiptPayload_def FileSharePayload_def
  MediaSharePayload_def CallInvitePayload_def CallAnswerPayload_def CallEndPayload_def WebRTCSignalPayload_def
  ScreenSharePayload_def RecordingPayload_def

section \<open>Rows of the database\<close>

text \<open>
  Times are nanoseconds since 1970. A pointer field is an option. A \<^verbatim>\<open>float64\<close> is its bits.
\<close>

type_synonym float64 = "64 word"

record DBMessage =
  dmID :: string
  dmRoomID :: string
  dmSenderID :: string
  dmContent :: string
  dmTimestamp :: int
  dmParent :: "string option"
  dmType :: string
  dmFileData :: "json option"
  dmFileName :: "string option"
  dmFileSize :: "int option"
  dmFileURL :: "string option"
  dmFileType :: "string option"
  dmMediaData :: "string option"
  dmMediaType :: "string option"
  dmDuration :: "int option"
  dmLatitude :: "float64 option"
  dmLongitude :: "float64 option"

record DBRoom =
  drID :: string
  drType :: string
  drName :: string
  drMetadata :: string
  drCreated :: int

record DBRoomMember =
  mbRoomID :: string
  mbUserID :: string
  mbRole :: string
  mbJoinedAt :: int

record DBReadReceipt =
  rrMessageID :: string
  rrUserID :: string
  rrReadAt :: int

section \<open>Messages\<close>

text \<open>The payload of a message: a raw value, one of the structs the server fills in, or a history.\<close>

datatype payload =
    PRaw json
  | PStruct struct
  | PPresence string string string
  | PAck string string
  | PError int string string
  | PHistory "DBMessage list"

record ChatMessage =
  cmType :: string
  cmRoomID :: string
  cmMessageID :: string
  cmPayload :: payload
  cmTimestamp :: int

section \<open>Clients and rooms\<close>

type_synonym cid = string

text \<open>
  A client's connection is what the server knows of it: the messages written so far, and whether
  the next \<^verbatim>\<open>WriteText\<close> will report an error.
\<close>

record Client =
  cUserID :: string
  cUsername :: string
  cRooms :: "(string, bool) gomap"
  cLastSeen :: int
  cIsTyping :: "(string, bool) gomap"
  cOut :: "ChatMessage list"
  cBroken :: bool

record Room =
  rType :: string
  rName :: string
  rClients :: "(cid, cid) gomap"
  rCreated :: int

record RateLimit =
  rlRequests :: int
  rlWindowSize :: int
  rlLastReset :: int
  rlCurrentUsed :: int

text \<open>Of \<^verbatim>\<open>SecurityConfig\<close>, the settings that the code reads.\<close>

record SecurityConfig =
  MaxMessageLength :: int
  AllowedOrigins :: "string list"
  RateLimitPerSocket :: RateLimit

text \<open>\<^verbatim>\<open>client.Rooms[roomID]\<close>.\<close>

definition inRooms :: "Client \<Rightarrow> string \<Rightarrow> bool" where
  "inRooms c r \<longleftrightarrow> (case map_of (cRooms c) r of None \<Rightarrow> False | Some b \<Rightarrow> b)"

end
