(* ===== verification/ChatDB.thy ===== *)
theory ChatDB
  imports ChatTypes
begin

text \<open>
  \<^verbatim>\<open>chat/database.go\<close>: the \<^verbatim>\<open>Database\<close> interface as a record of operations, the in-memory
  implementation, and the laws the chat server relies on as a locale interpreted on it. The
  PostgreSQL implementation is in \<open>PgDB\<close>.
\<close>

section \<open>The interface\<close>

text \<open>
  An operation that fails returns an error text. A negative limit or offset may panic. Of the
  interface, \<^verbatim>\<open>GetReadReceipts\<close>, \<^verbatim>\<open>GetUserReadReceipts\<close> and \<^verbatim>\<open>Close\<close>, which no caller uses, are not
  in the record.
\<close>

record 'db Database =
  SaveMessage :: "DBMessage \<Rightarrow> 'db \<Rightarrow> string option \<times> 'db"
  GetMessages :: "string \<Rightarrow> int \<Rightarrow> int \<Rightarrow> 'db \<Rightarrow> (string + DBMessage list) outcome"
  GetThreadMessages :: "string \<Rightarrow> 'db \<Rightarrow> string + DBMessage list"
  GetMessage :: "string \<Rightarrow> 'db \<Rightarrow> string + DBMessage"
  CreateRoom :: "DBRoom \<Rightarrow> 'db \<Rightarrow> string option \<times> 'db"
  GetRoom :: "string \<Rightarrow> 'db \<Rightarrow> string + DBRoom"
  GetUserRooms :: "string \<Rightarrow> 'db \<Rightarrow> string + DBRoom list"
  DeleteRoom :: "string \<Rightarrow> 'db \<Rightarrow> string option \<times> 'db"
  AddRoomMember :: "DBRoomMember \<Rightarrow> 'db \<Rightarrow> string option \<times> 'db"
  RemoveRoomMember :: "string \<Rightarrow> string \<Rightarrow> 'db \<Rightarrow> string option \<times> 'db"
  GetRoomMembers :: "string \<Rightarrow> 'db \<Rightarrow> string + DBRoomMember list"
  IsUserInRoom :: "string \<Rightarrow> string \<Rightarrow> 'db \<Rightarrow> string + bool"
  SaveReadReceipt :: "DBReadReceipt \<Rightarrow> 'db \<Rightarrow> string option \<times> 'db"

section \<open>The in-memory implementation\<close>

record InMemoryDB =
  messages :: "(string, DBMessage) gomap"
  dbRooms :: "(string, DBRoom) gomap"
  roomMembers :: "(string, (string, DBRoomMember) gomap) gomap"
  readReceipts :: "(string, (string, DBReadReceipt) gomap) gomap"
  userRooms :: "(string, (string, bool) gomap) gomap"

definition NewInMemoryDB :: InMemoryDB where
  "NewInMemoryDB = \<lparr>messages = [], dbRooms = [], roomMembers = [], readReceipts = [], userRooms = []\<rparr>"

definition memSaveMessage :: "DBMessage \<Rightarrow> InMemoryDB \<Rightarrow> string option \<times> InMemoryDB" where
  "memSaveMessage msg m = (None, m\<lparr>messages := m_put (dmID msg) msg (messages m)\<rparr>)"

text \<open>\<open>ord\<close> is the order in which \<^verbatim>\<open>range\<close> visits a map, here by its string keys.\<close>

definition memValues :: "(string list \<Rightarrow> string list) \<Rightarrow> (string, 'v) gomap \<Rightarrow> 'v list" where
  "memValues ord mp = map (\<lambda>k. the (map_of mp k)) (ord (m_keys mp))"

definition memGetMessages ::
  "(string list \<Rightarrow> string list) \<Rightarrow> string \<Rightarrow> int \<Rightarrow> int \<Rightarrow> InMemoryDB \<Rightarrow> (string + DBMessage list) outcome" where
  "memGetMessages ord roomID limit offset m =
     (let msgs = filter (\<lambda>msg. dmRoomID msg = roomID) (memValues ord (messages m));
          start = offset; stop = offset + limit
      in if start > int (length msgs) then Returned (Inr [])
         else let stop' = (if stop > int (length msgs) then int (length msgs) else stop)
              in if start < 0 \<or> stop' < start then Panicked
                 else Returned (Inr (take (nat (stop' - start)) (drop (nat start) msgs))))"

definition memGetThreadMessages :: "(string list \<Rightarrow> string list) \<Rightarrow> string \<Rightarrow> InMemoryDB \<Rightarrow> string + DBMessage list" where
  "memGetThreadMessages ord parent m =
     Inr (filter (\<lambda>msg. dmParent msg = Some parent) (memValues ord (messages m)))"

definition memGetMessage :: "string \<Rightarrow> InMemoryDB \<Rightarrow> string + DBMessage" where
  "memGetMessage i m = (case map_of (messages m) i of Some msg \<Rightarrow> Inr msg | None \<Rightarrow> Inl ''message not found'')"

definition memCreateRoom :: "DBRoom \<Rightarrow> InMemoryDB \<Rightarrow> string option \<times> InMemoryDB" where
  "memCreateRoom room m =
     (None, m\<lparr>dbRooms := m_put (drID room) room (dbRooms m), roomMembers := m_put (drID room) [] (roomMembers m)\<rparr>)"

definition memGetRoom :: "string \<Rightarrow> InMemoryDB \<Rightarrow> string + DBRoom" where
  "memGetRoom r m = (case map_of (dbRooms m) r of Some room \<Rightarrow> Inr room | None \<Rightarrow> Inl ''room not found'')"

definition memGetUserRooms :: "(string list \<Rightarrow> string list) \<Rightarrow> string \<Rightarrow> InMemoryDB \<Rightarrow> string + DBRoom list" where
  "memGetUserRooms ord u m =
     (case map_of (userRooms m) u of
        None \<Rightarrow> Inr []
      | Some rs \<Rightarrow> Inr (List.map_filter (\<lambda>r. map_of (dbRooms m) r) (ord (m_keys rs))))"

definition memDeleteRoom :: "string \<Rightarrow> InMemoryDB \<Rightarrow> string option \<times> InMemoryDB" where
  "memDeleteRoom r m = (None, m\<lparr>dbRooms := m_del r (dbRooms m), roomMembers := m_del r (roomMembers m)\<rparr>)"

definition memAddRoomMember :: "DBRoomMember \<Rightarrow> InMemoryDB \<Rightarrow> string option \<times> InMemoryDB" where
  "memAddRoomMember mb m =
     (let ms = (case map_of (roomMembers m) (mbRoomID mb) of None \<Rightarrow> [] | Some ms \<Rightarrow> ms);
          rs = (case map_of (userRooms m) (mbUserID mb) of None \<Rightarrow> [] | Some rs \<Rightarrow> rs)
      in (None, m\<lparr>roomMembers := m_put (mbRoomID mb) (m_put (mbUserID mb) mb ms) (roomMembers m),
                  userRooms := m_put (mbUserID mb) (m_put (mbRoomID mb) True rs) (userRooms m)\<rparr>))"

definition memRemoveRoomMember :: "string \<Rightarrow> string \<Rightarrow> InMemoryDB \<Rightarrow> string option \<times> InMemoryDB" where
  "memRemoveRoomMember r u m =
     (let m1 = (case map_of (roomMembers m) r of
                  None \<Rightarrow> m | Some ms \<Rightarrow> m\<lparr>roomMembers := m_put r (m_del u ms) (roomMembers m)\<rparr>)
      in (None, case map_of (userRooms m1) u of
                  None \<Rightarrow> m1 | Some rs \<Rightarrow> m1\<lparr>userRooms := m_put u (m_del r rs) (userRooms m1)\<rparr>))"

definition memGetRoomMembers :: "(string list \<Rightarrow> string list) \<Rightarrow> string \<Rightarrow> InMemoryDB \<Rightarrow> string + DBRoomMember list" where
  "memGetRoomMembers ord r m =
     (case map_of (roomMembers m) r of None \<Rightarrow> Inr [] | Some ms \<Rightarrow> Inr (memValues ord ms))"

definition memIsUserInRoom :: "string \<Rightarrow> string \<Rightarrow> InMemoryDB \<Rightarrow> string + bool" where
  "memIsUserInRoom r u m = (case map_of (roomMembers m) r of None \<Rightarrow> Inr False | Some ms \<Rightarrow> Inr (m_has ms u))"

definition memSaveReadReceipt :: "DBReadReceipt \<Rightarrow> InMemoryDB \<Rightarrow> string option \<times> InMemoryDB" where
  "memSaveReadReceipt rr m =
     (let rs = (case map_of (readReceipts m) (rrMessageID rr) of None \<Rightarrow> [] | Some rs \<Rightarrow> rs)
      in (None, m\<lparr>readReceipts := m_put (rrMessageID rr) (m_put (rrUserID rr) rr rs) (readReceipts m)\<rparr>))"

definition memGetReadReceipts ::
  "(string list \<Rightarrow> string list) \<Rightarrow> string \<Rightarrow> InMemoryDB \<Rightarrow> string + DBReadReceipt list" where
  "memGetReadReceipts ord i m =
     (case map_of (readReceipts m) i of None \<Rightarrow> Inr [] | Some rs \<Rightarrow> Inr (memValues ord rs))"

definition memGetUserReadReceipts ::
  "(string list \<Rightarrow> string list) \<Rightarrow> string \<Rightarrow> string \<Rightarrow> InMemoryDB \<Rightarrow> string + DBReadReceipt list" where
  "memGetUserReadReceipts ord u r m =
     Inr (List.map_filter
       (\<lambda>i. case map_of (the (map_of (readReceipts m) i)) u of
              None \<Rightarrow> None
            | Some rr \<Rightarrow> (case map_of (messages m) i of
                  None \<Rightarrow> None | Some msg \<Rightarrow> if dmRoomID msg = r then Some rr else None))
       (ord (m_keys (readReceipts m))))"

definition inMemory :: "(string list \<Rightarrow> string list) \<Rightarrow> InMemoryDB Database" where
  "inMemory ord = \<lparr>SaveMessage = memSaveMessage, GetMessages = memGetMessages ord,
     GetThreadMessages = memGetThreadMessages ord, GetMessage = memGetMessage, CreateRoom = memCreateRoom,
     GetRoom = memGetRoom, GetUserRooms = memGetUserRooms ord, DeleteRoom = memDeleteRoom,
     AddRoomMember = memAddRoomMember, RemoveRoomMember = memRemoveRoomMember,
     GetRoomMembers = memGetRoomMembers ord, IsUserInRoom = memIsUserInRoom, SaveReadReceipt = memSaveReadReceipt\<rparr>"

section \<open>Membership\<close>

text \<open>
  What the chat server relies on: a room that was created is found, adding and removing a member
  changes that membership and no other, and none of these changes which rooms there are.
\<close>

locale membership_db =
  fixes ops :: "'db Database"
    and isMember :: "'db \<Rightarrow> string \<Rightarrow> string \<Rightarrow> bool"
    and hasRoom :: "'db \<Rightarrow> string \<Rightarrow> bool"
  assumes is_in: "IsUserInRoom ops r u d = Inr (isMember d r u)"
    and get_room: "(\<exists>room. GetRoom ops r d = Inr room) \<longleftrightarrow> hasRoom d r"
    and add_result: "fst (AddRoomMember ops mb d) = None"
    and add_member: "isMember (snd (AddRoomMember ops mb d)) r u \<longleftrightarrow>
      (r = mbRoomID mb \<and> u = mbUserID mb) \<or> isMember d r u"
    and add_rooms: "hasRoom (snd (AddRoomMember ops mb d)) r \<longleftrightarrow> hasRoom d r"
    and remove_member: "isMember (snd (RemoveRoomMember ops r u d)) r' u' \<longleftrightarrow>
      \<not> (r' = r \<and> u' = u) \<and> isMember d r' u'"
    and remove_result: "fst (RemoveRoomMember ops r u d) = None"
    and remove_rooms: "hasRoom (snd (RemoveRoomMember ops r u d)) r' \<longleftrightarrow> hasRoom d r'"
    and create_result: "\<not> hasRoom d (drID room) \<Longrightarrow> fst (CreateRoom ops room d) = None"
    and create_room: "hasRoom (snd (CreateRoom ops room d)) r \<longleftrightarrow> r = drID room \<or> hasRoom d r"
    and create_member: "r \<noteq> drID room \<Longrightarrow> isMember (snd (CreateRoom ops room d)) r u \<longleftrightarrow> isMember d r u"
    and create_new: "\<not> isMember (snd (CreateRoom ops room d)) (drID room) u"
begin

lemma remove_add:
  "\<not> isMember d (mbRoomID mb) (mbUserID mb) \<Longrightarrow>
   isMember (snd (RemoveRoomMember ops (mbRoomID mb) (mbUserID mb) (snd (AddRoomMember ops mb d)))) r u \<longleftrightarrow> isMember d r u"
  by (auto simp: remove_member add_member)

text \<open>A list of members added to one room, and to a new room.\<close>

definition addAll :: "DBRoomMember list \<Rightarrow> 'db \<Rightarrow> 'db" where
  "addAll mbs d = fold (\<lambda>mb d. snd (AddRoomMember ops mb d)) mbs d"

lemma addAll_simps [simp]: "addAll [] d = d" "addAll (mb # mbs) d = addAll mbs (snd (AddRoomMember ops mb d))"
  by (simp_all add: addAll_def)

lemma addAll_effect:
  assumes "\<forall>mb \<in> set mbs. mbRoomID mb = R"
  shows "(hasRoom (addAll mbs d) r \<longleftrightarrow> hasRoom d r) \<and>
    (isMember (addAll mbs d) r u \<longleftrightarrow> (r = R \<and> u \<in> mbUserID ` set mbs) \<or> isMember d r u)"
  using assms by (induction mbs arbitrary: d) (auto simp: add_member add_rooms)

lemma create_with_members:
  assumes "\<forall>mb \<in> set mbs. mbRoomID mb = drID room"
  shows "hasRoom (addAll mbs (snd (CreateRoom ops room d))) (drID room)"
    and "\<forall>mb \<in> set mbs. isMember (addAll mbs (snd (CreateRoom ops room d))) (drID room) (mbUserID mb)"
    and "r \<noteq> drID room \<Longrightarrow> isMember (addAll mbs (snd (CreateRoom ops room d))) r u \<longleftrightarrow> isMember d r u"
  using addAll_effect [OF assms] by (auto simp: create_room create_member)

end

definition memIsMember :: "InMemoryDB \<Rightarrow> string \<Rightarrow> string \<Rightarrow> bool" where
  "memIsMember m r u \<longleftrightarrow> tbl_member (roomMembers m) r u"

definition memHasRoom :: "InMemoryDB \<Rightarrow> string \<Rightarrow> bool" where
  "memHasRoom m r \<longleftrightarrow> m_has (dbRooms m) r"

lemmas mem_defs =
  memIsMember_def memHasRoom_def tbl_member_def memIsUserInRoom_def memGetRoom_def memAddRoomMember_def
  memRemoveRoomMember_def memCreateRoom_def

interpretation memdb: membership_db "inMemory ord" memIsMember memHasRoom
  for ord
  by unfold_locales
    (auto simp: inMemory_def mem_defs gomap_simps Let_def m_has_def split: option.splits)

section \<open>Pages\<close>

fun pageOf :: "(string + DBMessage list) outcome \<Rightarrow> DBMessage list" where
  "pageOf (Returned (Inr msgs)) = msgs"
| "pageOf _ = []"

definition roomMessages :: "(string list \<Rightarrow> string list) \<Rightarrow> string \<Rightarrow> InMemoryDB \<Rightarrow> DBMessage list" where
  "roomMessages ord r m = filter (\<lambda>msg. dmRoomID msg = r) (memValues ord (messages m))"

lemma memGetMessages_page:
  "pageOf (memGetMessages ord r (int n) (int k) m) = take n (drop k (roomMessages ord r m))"
proof -
  have nat: "nat (int k + int n) = k + n" by simp
  then show ?thesis
    by (auto simp: memGetMessages_def roomMessages_def [symmetric] Let_def nat_diff_distrib' nat split: if_splits)
qed

lemma take_drop_pages: "concat (map (\<lambda>k. take n (drop (k * n) xs)) [0..<K]) = take (K * n) xs"
proof (induction K)
  case (Suc K)
  have "take (K * n) xs @ take n (drop (K * n) xs) = take (K * n + n) xs" by (simp add: take_add)
  with Suc show ?case by (simp add: add.commute)
qed simp

lemma roomMessages_set:
  assumes "perm_fn ord" and "m_wf (messages m)"
  shows "mset (roomMessages ord r m) = mset (filter (\<lambda>msg. dmRoomID msg = r) (map snd (messages m)))"
proof -
  have "mset (memValues ord (messages m)) = mset (map (\<lambda>k. the (map_of (messages m) k)) (m_keys (messages m)))"
    unfolding memValues_def mset_map perm_fn_mset [OF assms(1)] by simp
  also have "map (\<lambda>k. the (map_of (messages m) k)) (m_keys (messages m)) = map snd (messages m)"
    using assms(2) by (auto simp: m_wf_def)
  finally show ?thesis unfolding roomMessages_def by (metis mset_filter)
qed

definition demo_msg :: "string \<Rightarrow> DBMessage" where
  "demo_msg i = \<lparr>dmID = i, dmRoomID = ''r'', dmSenderID = ''u'', dmContent = i, dmTimestamp = 0, dmParent = None,
     dmType = ''message'', dmFileData = None, dmFileName = None, dmFileSize = None, dmFileURL = None, dmFileType = None,
     dmMediaData = None, dmMediaType = None, dmDuration = None, dmLatitude = None, dmLongitude = None\<rparr>"

definition demo_db :: InMemoryDB where
  "demo_db = NewInMemoryDB\<lparr>messages := [(''a'', demo_msg ''a''), (''b'', demo_msg ''b'')]\<rparr>"

text \<open>
  Pagination of the in-memory database. If the runtime visited the map in the same order each
  time, the pages of one size would contain every message of the room once and nothing else. But
  the messages are not sorted first and the order of a map is random: two pages read one after
  the other can show one message twice and the other not at all. And a negative offset, which
  nothing refuses, panics.
\<close>

theorem GetMessages_pages:
  "(perm_fn ord \<and> m_wf (messages m) \<and> length (roomMessages ord r m) \<le> K * n \<longrightarrow>
     mset (concat (map (\<lambda>k. pageOf (memGetMessages ord r (int n) (int (k * n)) m)) [0..<K])) =
       mset (filter (\<lambda>msg. dmRoomID msg = r) (map snd (messages m)))) \<and>
   (\<exists>d ord'. perm_fn ord' \<and> m_wf (messages d) \<and> map dmID (map snd (messages d)) = [''a'', ''b''] \<and>
     map dmID (pageOf (memGetMessages id ''r'' 1 0 d)) = [''a''] \<and>
     map dmID (pageOf (memGetMessages ord' ''r'' 1 1 d)) = [''a'']) \<and>
   (off < 0 \<longrightarrow> memGetMessages ord r lim off m = Panicked)"
proof (intro conjI impI)
  assume a: "perm_fn ord \<and> m_wf (messages m) \<and> length (roomMessages ord r m) \<le> K * n"
  then show "mset (concat (map (\<lambda>k. pageOf (memGetMessages ord r (int n) (int (k * n)) m)) [0..<K])) =
      mset (filter (\<lambda>msg. dmRoomID msg = r) (map snd (messages m)))"
    by (simp add: memGetMessages_page take_drop_pages roomMessages_set del: of_nat_mult)
next
  show "\<exists>d ord'. perm_fn ord' \<and> m_wf (messages d) \<and> map dmID (map snd (messages d)) = [''a'', ''b''] \<and>
     map dmID (pageOf (memGetMessages id ''r'' 1 0 d)) = [''a''] \<and>
     map dmID (pageOf (memGetMessages ord' ''r'' 1 1 d)) = [''a'']"
    by (rule exI [of _ demo_db], rule exI [of _ rev])
      (simp add: demo_db_def NewInMemoryDB_def demo_msg_def m_wf_def memGetMessages_def memValues_def Let_def)
next
  assume "off < 0"
  then show "memGetMessages ord r lim off m = Panicked" by (simp add: memGetMessages_def Let_def)
qed

theorem GetMessages_pages_witness:
  "mset (concat (map (\<lambda>k. pageOf (memGetMessages rev ''r'' (int 1) (int (k * 1)) demo_db)) [0..<2])) =
     mset (filter (\<lambda>msg. dmRoomID msg = ''r'') (map snd (messages demo_db)))"
  using GetMessages_pages [of rev demo_db "''r''" 2 1]
  by (simp add: roomMessages_def memValues_def demo_db_def NewInMemoryDB_def demo_msg_def m_wf_def)

end
