(* ===== verification/ChatServer.thy ===== *)
theory ChatServer
  imports ChatDB
begin

text \<open>
  \<^verbatim>\<open>chat/server.go\<close>, first part: the state of the chat server, what it writes to its clients, rooms
  and permissions, the rate limit and the checks of a message. One call sees one time and one
  delivery of random bytes; handlers run one after the other (the code's locks cover single maps
  only).
\<close>

section \<open>State and surroundings\<close>

record SessionState =
  ssSessionID :: string
  ssUserID :: string
  ssUsername :: string
  ssRooms :: "string list"
  ssLastSeen :: int

text \<open>
  The fields of \<^verbatim>\<open>Server\<close> that its methods read or write, with what lies behind them: \<open>cstore\<close> is
  what the \<^verbatim>\<open>*Client\<close> of an id points at, \<open>redis\<close> the keys the server sets there, \<open>files\<close> the upload
  directory, \<open>leaving\<close> the goroutines started for \<^verbatim>\<open>handleClientDisconnect\<close>, by client.
\<close>

record 'db srv =
  db :: 'db
  clients :: "(cid, cid) gomap"
  rooms :: "(string, Room) gomap"
  rateLimiters :: "(cid, RateLimit) gomap"
  typingClients :: "(string, (cid, int) gomap) gomap"
  pendingFileMeta :: "(cid, struct) gomap"
  pendingMediaMeta :: "(cid, struct) gomap"
  cstore :: "cid \<Rightarrow> Client"
  redis :: "(string, SessionState) gomap"
  files :: "(string, byte list) gomap"
  leaving :: "cid list"

text \<open>
  What a call finds around it: the database's operations and the configuration, the time, the
  random bytes, the orders in which maps are visited (keys are strings in all of them), what
  reading JSON and printing values and times yields, the text of a JSON error, and the error of
  writing a file.
\<close>

record 'db env =
  ops :: "'db Database"
  security :: SecurityConfig
  now :: int
  rnd :: "byte list"
  ord :: "string list \<Rightarrow> string list"
  parse :: "byte list \<Rightarrow> json option"
  sprint :: "json \<Rightarrow> string"
  timeOk :: "string \<Rightarrow> bool"
  timeText :: "int \<Rightarrow> string"
  jsonErr :: string
  writeErr :: "string option"

definition updClient :: "cid \<Rightarrow> (Client \<Rightarrow> Client) \<Rightarrow> 'db srv \<Rightarrow> 'db srv" where
  "updClient c f s = s\<lparr>cstore := (cstore s)(c := f (cstore s c))\<rparr>"

lemma updClient_simps [simp]:
  "cstore (updClient c f s) d = (if d = c then f (cstore s c) else cstore s d)"
  "db (updClient c f s) = db s" "clients (updClient c f s) = clients s" "rooms (updClient c f s) = rooms s"
  "rateLimiters (updClient c f s) = rateLimiters s" "typingClients (updClient c f s) = typingClients s"
  "pendingFileMeta (updClient c f s) = pendingFileMeta s" "pendingMediaMeta (updClient c f s) = pendingMediaMeta s"
  "redis (updClient c f s) = redis s" "files (updClient c f s) = files s" "leaving (updClient c f s) = leaving s"
  by (simp_all add: updClient_def)

section \<open>Writing to clients\<close>

definition sendMessage :: "cid \<Rightarrow> ChatMessage \<Rightarrow> 'db srv \<Rightarrow> 'db srv" where
  "sendMessage c msg s =
     (if cBroken (cstore s c) then s\<lparr>leaving := leaving s @ [c]\<rparr>
      else updClient c (\<lambda>x. x\<lparr>cOut := cOut x @ [msg]\<rparr>) s)"

definition errorMessage :: "'db env \<Rightarrow> int \<Rightarrow> string \<Rightarrow> string \<Rightarrow> ChatMessage" where
  "errorMessage e code message details =
     \<lparr>cmType = TError, cmRoomID = '''', cmMessageID = '''', cmPayload = PError code message details, cmTimestamp = now e\<rparr>"

definition sendError :: "'db env \<Rightarrow> cid \<Rightarrow> int \<Rightarrow> string \<Rightarrow> string \<Rightarrow> 'db srv \<Rightarrow> 'db srv" where
  "sendError e c code message details s = sendMessage c (errorMessage e code message details) s"

definition broadcastToRoom :: "'db env \<Rightarrow> string \<Rightarrow> ChatMessage \<Rightarrow> cid \<Rightarrow> 'db srv \<Rightarrow> 'db srv" where
  "broadcastToRoom e roomID msg exclude s =
     (case map_of (rooms s) roomID of
        None \<Rightarrow> s
      | Some room \<Rightarrow>
          fold (\<lambda>c s. if c \<noteq> exclude then sendMessage c msg s else s) (ord e (m_keys (rClients room))) s)"

section \<open>Ids\<close>

fun natText :: "nat \<Rightarrow> string" where
  "natText n = (if n < 10 then [char_of (48 + n)] else natText (n div 10) @ [char_of (48 + n mod 10)])"

declare natText.simps [simp del]

definition intText :: "int \<Rightarrow> string" where
  "intText i = (if i < 0 then ''-'' @ natText (nat (- i)) else natText (nat i))"

definition unix :: "'db env \<Rightarrow> int" where
  "unix e = now e div 10 ^ 9"

definition charset :: string where
  "charset = ''abcdefghijklmnopqrstuvwxyzABCDEFGHIJKLMNOPQRSTUVWXYZ0123456789''"

definition randomString :: "'db env \<Rightarrow> nat \<Rightarrow> string" where
  "randomString e len = map (\<lambda>b. charset ! (unat b mod length charset)) (take len (rnd e))"

definition generateClientID :: "'db env \<Rightarrow> string" where
  "generateClientID e = ''client_'' @ intText (unix e) @ ''_'' @ randomString e 8"

definition generateMessageID :: "'db env \<Rightarrow> string" where
  "generateMessageID e = ''msg_'' @ intText (unix e) @ ''_'' @ randomString e 12"

section \<open>Rooms and permissions\<close>

definition createRoomRow :: "'db env \<Rightarrow> string \<Rightarrow> string \<Rightarrow> string \<Rightarrow> DBRoom" where
  "createRoomRow e roomID ty name = \<lparr>drID = roomID, drType = ty, drName = name, drMetadata = ''{}'', drCreated = now e\<rparr>"

definition roomTypeOf :: "string \<Rightarrow> string option" where
  "roomTypeOf roomID =
     (if hasPrefix roomID ''public:'' then Some PublicRoom
      else if hasPrefix roomID ''group:'' then Some GroupRoom
      else if hasPrefix roomID ''dm:'' then Some DMRoom
      else None)"

definition putRoom :: "string \<Rightarrow> Room \<Rightarrow> 'db srv \<Rightarrow> 'db srv" where
  "putRoom roomID room s = s\<lparr>rooms := m_put roomID room (rooms s)\<rparr>"

definition getOrCreateRoom :: "'db env \<Rightarrow> string \<Rightarrow> 'db srv \<Rightarrow> (string + Room) \<times> 'db srv" where
  "getOrCreateRoom e roomID s =
     (case map_of (rooms s) roomID of
        Some room \<Rightarrow> (Inr room, s)
      | None \<Rightarrow>
          (case roomTypeOf roomID of
             None \<Rightarrow> (Inl ''invalid room ID format'', s)
           | Some ty \<Rightarrow>
               if ty = PublicRoom
               then let room = \<lparr>rType = ty, rName = roomID, rClients = [], rCreated = now e\<rparr>
                    in (Inr room, putRoom roomID room s)
               else
                 (case (case GetRoom (ops e) roomID (db s) of
                          Inr row \<Rightarrow> (Inr row, s)
                        | Inl err \<Rightarrow>
                            if ty = DMRoom
                            then let row = createRoomRow e roomID ty roomID
                                 in (case CreateRoom (ops e) row (db s) of
                                       (Some err', d) \<Rightarrow> (Inl err', s\<lparr>db := d\<rparr>)
                                     | (None, d) \<Rightarrow> (Inr row, s\<lparr>db := d\<rparr>))
                            else (Inl err, s)) of
                    (Inl err, s1) \<Rightarrow> (Inl err, s1)
                  | (Inr row, s1) \<Rightarrow>
                      let room = \<lparr>rType = drType row, rName = drName row, rClients = [], rCreated = drCreated row\<rparr>
                      in (Inr room, putRoom roomID room s1))))"

text \<open>Group rooms ask the database; a conversation's room id holds the ids of its users.\<close>

definition checkRoomPermission :: "'db env \<Rightarrow> cid \<Rightarrow> string \<Rightarrow> 'db srv \<Rightarrow> string + bool" where
  "checkRoomPermission e c roomID s =
     (if hasPrefix roomID ''public:'' then Inr True
      else if hasPrefix roomID ''dm:''
      then Inr (cUserID (cstore s c) \<in> set (splitOn CHR ''_'' (trimPrefix roomID ''dm:'')))
      else IsUserInRoom (ops e) roomID (cUserID (cstore s c)) (db s))"

section \<open>Rate limit\<close>

text \<open>The limiter's part alone: a window that is over starts anew.\<close>

definition takeSlot :: "int \<Rightarrow> RateLimit \<Rightarrow> bool \<times> RateLimit" where
  "takeSlot t l =
     (let l1 = (if t - rlLastReset l \<ge> rlWindowSize l then l\<lparr>rlLastReset := t, rlCurrentUsed := 0\<rparr> else l)
      in if rlCurrentUsed l1 \<ge> rlRequests l1 then (False, l1)
         else (True, l1\<lparr>rlCurrentUsed := rlCurrentUsed l1 + 1\<rparr>))"

definition checkRateLimit :: "'db env \<Rightarrow> cid \<Rightarrow> 'db srv \<Rightarrow> bool \<times> 'db srv" where
  "checkRateLimit e c s =
     (let limiter = (case map_of (rateLimiters s) c of
            Some l \<Rightarrow> l
          | None \<Rightarrow> \<lparr>rlRequests = rlRequests (RateLimitPerSocket (security e)),
                     rlWindowSize = rlWindowSize (RateLimitPerSocket (security e)),
                     rlLastReset = now e, rlCurrentUsed = 0\<rparr>);
          (ok, limiter') = takeSlot (now e) limiter
      in (ok, s\<lparr>rateLimiters := m_put c limiter' (rateLimiters s)\<rparr>))"

section \<open>Reading and checking messages\<close>

definition toMessage :: "struct \<Rightarrow> ChatMessage" where
  "toMessage st = \<lparr>cmType = strField st ''type'', cmRoomID = strField st ''roomId'', cmMessageID = strField st ''messageId'',
     cmPayload = PRaw (anyField st ''payload''), cmTimestamp = 0\<rparr>"

definition readMessage :: "'db env \<Rightarrow> byte list \<Rightarrow> ChatMessage option" where
  "readMessage e data =
     (case parse e data of
        None \<Rightarrow> None
      | Some j \<Rightarrow> map_option toMessage (decodeStruct (timeOk e) envelopeS j))"

text \<open>The value of the payload, of the two kinds that are ever parsed.\<close>

fun payloadValue :: "payload \<Rightarrow> json" where
  "payloadValue (PRaw j) = j"
| "payloadValue (PStruct st) = JObj st"
| "payloadValue _ = JNull"

definition parsePayload :: "'db env \<Rightarrow> payload \<Rightarrow> schema \<Rightarrow> struct option" where
  "parsePayload e pl sch = decodeStruct (timeOk e) sch (payloadValue pl)"

text \<open>\<^verbatim>\<open>fmt.Sprintf("%v", c)\<close>; of values other than strings it is \<^const>\<open>sprint\<close>.\<close>

definition sprintV :: "'db env \<Rightarrow> json \<Rightarrow> string" where
  "sprintV e v = (case v of JStr s \<Rightarrow> s | _ \<Rightarrow> sprint e v)"

definition contentOf :: "'db env \<Rightarrow> payload \<Rightarrow> string" where
  "contentOf e pl =
     (case payloadValue pl of
        JObj kvs \<Rightarrow> (case map_of kvs ''content'' of None \<Rightarrow> '''' | Some v \<Rightarrow> sprintV e v)
      | _ \<Rightarrow> '''')"

definition validateMessage :: "'db env \<Rightarrow> ChatMessage \<Rightarrow> string option" where
  "validateMessage e msg =
     (if cmType msg = '''' then Some ''message type is required''
      else if cmRoomID msg = '''' then Some ''room ID is required''
      else if (cmType msg = TMessage \<or> cmType msg = TThreadReply) \<and>
        int (length (contentOf e (cmPayload msg))) > MaxMessageLength (security e)
      then Some ''message content too long''
      else None)"

section \<open>The rate limit bounds the traffic\<close>

text \<open>One client's calls at given times.\<close>

fun runSlots :: "int list \<Rightarrow> RateLimit \<Rightarrow> (int \<times> bool) list" where
  "runSlots [] l = []"
| "runSlots (t # ts) l = (case takeSlot t l of (ok, l') \<Rightarrow> (t, ok) # runSlots ts l')"

definition allowedIn :: "int \<Rightarrow> int \<Rightarrow> (int \<times> bool) list \<Rightarrow> int" where
  "allowedIn a b log = int (length (filter (\<lambda>(t, ok). ok \<and> a \<le> t \<and> t < b) log))"

lemma allowedIn_simps [simp]:
  "allowedIn a b [] = 0"
  "allowedIn a b ((t, ok) # log) = (if ok \<and> a \<le> t \<and> t < b then 1 else 0) + allowedIn a b log"
  by (simp_all add: allowedIn_def)

lemma takeSlot_cases:
  obtains (reset) "t - rlLastReset l \<ge> rlWindowSize l"
      "takeSlot t l = takeSlot t (l\<lparr>rlLastReset := t, rlCurrentUsed := 0\<rparr>)"
  | (full) "t - rlLastReset l < rlWindowSize l" "rlCurrentUsed l \<ge> rlRequests l" "takeSlot t l = (False, l)"
  | (slot) "t - rlLastReset l < rlWindowSize l" "rlCurrentUsed l < rlRequests l"
      "takeSlot t l = (True, l\<lparr>rlCurrentUsed := rlCurrentUsed l + 1\<rparr>)"
  by (cases "t - rlLastReset l \<ge> rlWindowSize l"; cases "rlCurrentUsed l \<ge> rlRequests l")
    (simp_all add: takeSlot_def Let_def)

text \<open>Inside one window no more than what is left of it is allowed.\<close>

lemma allowed_in_window:
  assumes "b \<le> rlLastReset l + rlWindowSize l" and "rlCurrentUsed l \<le> rlRequests l"
  shows "allowedIn a b (runSlots ts l) \<le> rlRequests l - rlCurrentUsed l \<or> \<not> sorted ts"
  using assms
proof (induction ts arbitrary: l)
  case (Cons t ts)
  show ?case
  proof (cases "t < b")
    case True
    then show ?thesis
      using Cons.prems Cons.IH [of l] Cons.IH [of "l\<lparr>rlCurrentUsed := rlCurrentUsed l + 1\<rparr>"]
      by (cases t l rule: takeSlot_cases) auto
  next
    case False
    have none: "allowedIn a b (runSlots ts' m) = 0" if "\<forall>t' \<in> set ts'. b \<le> t'" for ts' m
      using that by (induction ts' arbitrary: m) (auto split: prod.split)
    show ?thesis
    proof (cases "sorted (t # ts)")
      case True
      with False have "\<forall>t' \<in> set (t # ts). b \<le> t'" by auto
      from none [OF this] Cons.prems show ?thesis by simp
    qed simp
  qed
qed simp

lemma allowed_two_windows:
  assumes "sorted ts" and "\<forall>t \<in> set ts. a \<le> t" and "b \<le> a + rlWindowSize l"
    and "0 \<le> rlRequests l" and "rlCurrentUsed l \<le> rlRequests l" and "0 < rlWindowSize l"
  shows "allowedIn a b (runSlots ts l) \<le> 2 * rlRequests l - rlCurrentUsed l"
  using assms
proof (induction ts arbitrary: l)
  case (Cons t ts)
  show ?case
  proof (cases t l rule: takeSlot_cases)
    case reset
    let ?l = "l\<lparr>rlLastReset := t, rlCurrentUsed := 0\<rparr>"
    have "allowedIn a b (runSlots (t # ts) ?l) \<le> rlRequests l"
      using allowed_in_window [of b ?l a "t # ts"] Cons.prems by auto
    with reset(2) Cons.prems(5) show ?thesis by simp
  next
    case full
    then show ?thesis using Cons.IH [of l] Cons.prems by simp
  next
    case slot
    then show ?thesis
      using Cons.IH [of "l\<lparr>rlCurrentUsed := rlCurrentUsed l + 1\<rparr>"] Cons.prems by simp
  qed
qed simp

lemma takeSlot_keeps:
  assumes "takeSlot t l = (ok, l')"
  shows "rlRequests l' = rlRequests l" "rlWindowSize l' = rlWindowSize l"
    "0 \<le> rlRequests l \<Longrightarrow> rlCurrentUsed l \<le> rlRequests l \<Longrightarrow> rlCurrentUsed l' \<le> rlRequests l'"
  using assms by (auto simp: takeSlot_def Let_def split: if_splits)

lemma allowed_any_window:
  assumes "sorted ts" and "b \<le> a + rlWindowSize l" and "0 \<le> rlRequests l" and "rlCurrentUsed l \<le> rlRequests l"
    and "0 < rlWindowSize l" and "0 \<le> rlCurrentUsed l"
  shows "allowedIn a b (runSlots ts l) \<le> 2 * rlRequests l"
  using assms
proof (induction ts arbitrary: l)
  case (Cons t ts)
  show ?case
  proof (cases "a \<le> t")
    case True
    then have "\<forall>t' \<in> set (t # ts). a \<le> t'" using Cons.prems(1) by auto
    from allowed_two_windows [OF Cons.prems(1) this Cons.prems(2-5)] Cons.prems(6) show ?thesis by linarith
  next
    case False
    obtain ok l' where l': "takeSlot t l = (ok, l')" by fastforce
    have "0 \<le> rlCurrentUsed l'" using l' Cons.prems(6) by (auto simp: takeSlot_def Let_def split: if_splits)
    with Cons.IH [of l'] Cons.prems takeSlot_keeps [OF l'] False l' show ?thesis by simp
  qed
qed simp

text \<open>Calls of several clients interleaved.\<close>

fun runChecks :: "'db env \<Rightarrow> (int \<times> cid) list \<Rightarrow> 'db srv \<Rightarrow> (cid \<times> int \<times> bool) list" where
  "runChecks e [] s = []"
| "runChecks e ((t, c) # xs) s =
     (case checkRateLimit (e\<lparr>now := t\<rparr>) c s of (ok, s') \<Rightarrow> (c, t, ok) # runChecks e xs s')"

definition ofClient :: "cid \<Rightarrow> (cid \<times> 'a) list \<Rightarrow> 'a list" where
  "ofClient c xs = map snd (filter (\<lambda>x. fst x = c) xs)"

definition newLimiter :: "'db env \<Rightarrow> int \<Rightarrow> RateLimit" where
  "newLimiter e t = \<lparr>rlRequests = rlRequests (RateLimitPerSocket (security e)),
     rlWindowSize = rlWindowSize (RateLimitPerSocket (security e)), rlLastReset = t, rlCurrentUsed = 0\<rparr>"

lemma checkRateLimit_takeSlot:
  "checkRateLimit (e\<lparr>now := t\<rparr>) c s =
    (let r = takeSlot t (case map_of (rateLimiters s) c of Some l \<Rightarrow> l | None \<Rightarrow> newLimiter e t)
     in (fst r, s\<lparr>rateLimiters := m_put c (snd r) (rateLimiters s)\<rparr>))"
  by (cases "map_of (rateLimiters s) c") (simp_all add: checkRateLimit_def newLimiter_def Let_def case_prod_unfold)

lemma runChecks_known:
  "map_of (rateLimiters s) c = Some l \<Longrightarrow>
   ofClient c (runChecks e xs s) = runSlots (map fst (filter (\<lambda>x. snd x = c) xs)) l"
proof (induction xs arbitrary: s l)
  case (Cons x xs)
  obtain t d where x: "x = (t, d)" by fastforce
  show ?case
  proof (cases "d = c")
    case True
    then show ?thesis
      using Cons by (simp add: x checkRateLimit_takeSlot Let_def ofClient_def gomap_simps case_prod_unfold)
  next
    case False
    then show ?thesis
      using Cons by (simp add: x checkRateLimit_takeSlot Let_def ofClient_def gomap_simps case_prod_unfold)
  qed
qed (simp add: ofClient_def)

lemma runChecks_new:
  assumes "map_of (rateLimiters s) c = None"
  shows "ofClient c (runChecks e xs s) = (case map fst (filter (\<lambda>x. snd x = c) xs) of
    [] \<Rightarrow> [] | t # ts \<Rightarrow> runSlots (t # ts) (newLimiter e t))"
  using assms
proof (induction xs arbitrary: s)
  case (Cons x xs)
  obtain t d where x: "x = (t, d)" by fastforce
  show ?case
  proof (cases "d = c")
    case True
    then show ?thesis
      using Cons.prems
      by (simp add: x checkRateLimit_takeSlot Let_def ofClient_def gomap_simps case_prod_unfold
          runChecks_known [unfolded ofClient_def])
  next
    case False
    then show ?thesis
      using Cons by (simp add: x checkRateLimit_takeSlot Let_def ofClient_def gomap_simps case_prod_unfold)
  qed
qed (simp add: ofClient_def)


definition demo_client :: Client where
  "demo_client = \<lparr>cUserID = ''ann'', cUsername = ''Ann'', cRooms = [], cLastSeen = 0, cIsTyping = [], cOut = [],
     cBroken = False\<rparr>"

definition demo_env :: "InMemoryDB env" where
  "demo_env = \<lparr>ops = inMemory id,
     security = \<lparr>MaxMessageLength = 4096, AllowedOrigins = [''*''],
       RateLimitPerSocket = \<lparr>rlRequests = 100, rlWindowSize = 60 * 10 ^ 9, rlLastReset = 0, rlCurrentUsed = 0\<rparr>\<rparr>,
     now = 0, rnd = replicate 16 0, ord = id, parse = (\<lambda>_. None), sprint = (\<lambda>_. ''''), timeOk = (\<lambda>_. True),
     timeText = (\<lambda>_. ''''), jsonErr = '''', writeErr = None\<rparr>"

definition demo_srv :: "InMemoryDB srv" where
  "demo_srv = \<lparr>db = NewInMemoryDB, clients = [(''c1'', ''c1'')], rooms = [], rateLimiters = [], typingClients = [],
     pendingFileMeta = [], pendingMediaMeta = [], cstore = (\<lambda>_. demo_client), redis = [], files = [], leaving = []\<rparr>"


end
