(* ===== verification/ChatHandlers.thy ===== *)
theory ChatHandlers
  imports ChatServer
begin

text \<open>
  \<^verbatim>\<open>chat/server.go\<close>, second part: the handlers of the fifteen message types and the dispatch in
  \<^verbatim>\<open>handleMessage\<close>. Every handler is a function of the surroundings, the client and the message
  from state to state.
\<close>

section \<open>Shared steps\<close>

definition setSender :: "Client \<Rightarrow> struct \<Rightarrow> struct" where
  "setSender x p = setStr ''username'' (cUsername x) (setStr ''userId'' (cUserID x) p)"

definition ackMessage :: "'db env \<Rightarrow> string \<Rightarrow> string \<Rightarrow> string \<Rightarrow> ChatMessage" where
  "ackMessage e roomID messageID status =
     \<lparr>cmType = TAcknowledgment, cmRoomID = roomID, cmMessageID = messageID, cmPayload = PAck messageID status,
      cmTimestamp = now e\<rparr>"

definition presenceMessage :: "'db env \<Rightarrow> string \<Rightarrow> string \<Rightarrow> Client \<Rightarrow> string \<Rightarrow> ChatMessage" where
  "presenceMessage e ty roomID x status =
     \<lparr>cmType = ty, cmRoomID = roomID, cmMessageID = '''', cmPayload = PPresence (cUserID x) (cUsername x) status,
      cmTimestamp = now e\<rparr>"

text \<open>
  How twelve handlers begin: the client must be in the room, the payload must have the shape of
  the struct.
\<close>

definition withPayload ::
  "'db env \<Rightarrow> cid \<Rightarrow> ChatMessage \<Rightarrow> schema \<Rightarrow> (struct \<Rightarrow> 'db srv \<Rightarrow> 'db srv) \<Rightarrow> 'db srv \<Rightarrow> 'db srv" where
  "withPayload e c msg sch k s =
     (if \<not> inRooms (cstore s c) (cmRoomID msg)
      then sendError e c 403 ''Access denied'' ''You are not in this room'' s
      else case parsePayload e (cmPayload msg) sch of
             None \<Rightarrow> sendError e c 400 ''Invalid payload'' (jsonErr e) s
           | Some p \<Rightarrow> k p s)"

definition withID :: "'db env \<Rightarrow> struct \<Rightarrow> struct" where
  "withID e p = (if strField p ''messageId'' = '''' then setStr ''messageId'' (generateMessageID e) p else p)"

definition emptyRow :: "string \<Rightarrow> string \<Rightarrow> string \<Rightarrow> string \<Rightarrow> int \<Rightarrow> string \<Rightarrow> DBMessage" where
  "emptyRow i roomID sender content t ty =
     \<lparr>dmID = i, dmRoomID = roomID, dmSenderID = sender, dmContent = content, dmTimestamp = t, dmParent = None,
      dmType = ty, dmFileData = None, dmFileName = None, dmFileSize = None, dmFileURL = None, dmFileType = None,
      dmMediaData = None, dmMediaType = None, dmDuration = None, dmLatitude = None, dmLongitude = None\<rparr>"

text \<open>Saving a row, with the error answer of the handlers, and going on if that worked.\<close>

definition saveRow ::
  "'db env \<Rightarrow> cid \<Rightarrow> string \<Rightarrow> DBMessage \<Rightarrow> ('db srv \<Rightarrow> 'db srv) \<Rightarrow> 'db srv \<Rightarrow> 'db srv" where
  "saveRow e c failed row k s =
     (case SaveMessage (ops e) row (db s) of
        (Some err, d) \<Rightarrow> sendError e c 500 failed err (s\<lparr>db := d\<rparr>)
      | (None, d) \<Rightarrow> k (s\<lparr>db := d\<rparr>))"

section \<open>Joining and leaving\<close>

definition enterRoom :: "string \<Rightarrow> cid \<Rightarrow> 'db srv \<Rightarrow> 'db srv" where
  "enterRoom roomID c s =
     (case map_of (rooms s) roomID of
        None \<Rightarrow> s
      | Some room \<Rightarrow> updClient c (\<lambda>x. x\<lparr>cRooms := m_put roomID True (cRooms x)\<rparr>)
          (putRoom roomID (room\<lparr>rClients := m_put c c (rClients room)\<rparr>) s))"

definition sendHistory :: "'db env \<Rightarrow> string \<Rightarrow> cid \<Rightarrow> 'db srv \<Rightarrow> 'db srv" where
  "sendHistory e roomID c s =
     (case GetMessages (ops e) roomID 50 0 (db s) of
        Returned (Inr (m # ms)) \<Rightarrow> sendMessage c \<lparr>cmType = ''history'', cmRoomID = roomID, cmMessageID = '''',
            cmPayload = PHistory (m # ms), cmTimestamp = now e\<rparr> s
      | _ \<Rightarrow> s)"

definition handleJoinRoom :: "'db env \<Rightarrow> cid \<Rightarrow> ChatMessage \<Rightarrow> 'db srv \<Rightarrow> 'db srv" where
  "handleJoinRoom e c msg s =
     (let roomID = cmRoomID msg
      in case getOrCreateRoom e roomID s of
           (Inl err, s1) \<Rightarrow> sendError e c 404 ''Room not found'' err s1
         | (Inr room, s1) \<Rightarrow>
             if rType room \<noteq> PublicRoom \<and> checkRoomPermission e c roomID s1 \<noteq> Inr True
             then sendError e c 403 ''Access denied'' ''Not authorized to join this room'' s1
             else
               let s2 = enterRoom roomID c s1;
                   s3 = (if rType room \<noteq> PublicRoom
                         then s2\<lparr>db := snd (AddRoomMember (ops e) \<lparr>mbRoomID = roomID, mbUserID = cUserID (cstore s2 c),
                                mbRole = ''member'', mbJoinedAt = now e\<rparr> (db s2))\<rparr>
                         else s2);
                   s4 = sendHistory e roomID c s3;
                   s5 = broadcastToRoom e roomID (presenceMessage e TUserJoined roomID (cstore s4 c) ''online'') c s4
               in sendMessage c (ackMessage e roomID '''' StatusDelivered) s5)"

text \<open>Taking a client out of a room of the server; a room that is not public goes with its last client.\<close>

definition dropFromRoom :: "string \<Rightarrow> cid \<Rightarrow> 'db srv \<Rightarrow> 'db srv" where
  "dropFromRoom roomID c s =
     (case map_of (rooms s) roomID of
        None \<Rightarrow> s
      | Some room \<Rightarrow>
          let room' = room\<lparr>rClients := m_del c (rClients room)\<rparr>; s' = putRoom roomID room' s
          in if rClients room' = [] \<and> rType room' \<noteq> PublicRoom then s'\<lparr>rooms := m_del roomID (rooms s')\<rparr> else s')"

definition handleLeaveRoom :: "'db env \<Rightarrow> cid \<Rightarrow> ChatMessage \<Rightarrow> 'db srv \<Rightarrow> 'db srv" where
  "handleLeaveRoom e c msg s =
     (let roomID = cmRoomID msg
      in if \<not> inRooms (cstore s c) roomID then sendError e c 400 ''Not in room'' ''You are not in this room'' s
         else
           let s1 = dropFromRoom roomID c s;
               s2 = updClient c (\<lambda>x. x\<lparr>cRooms := m_del roomID (cRooms x)\<rparr>) s1;
               s3 = (if \<not> hasPrefix roomID ''public:''
                     then s2\<lparr>db := snd (RemoveRoomMember (ops e) roomID (cUserID (cstore s2 c)) (db s2))\<rparr> else s2)
           in broadcastToRoom e roomID (presenceMessage e TUserLeft roomID (cstore s3 c) ''offline'') c s3)"

section \<open>Messages\<close>

definition publish :: "'db env \<Rightarrow> cid \<Rightarrow> ChatMessage \<Rightarrow> struct \<Rightarrow> 'db srv \<Rightarrow> 'db srv" where
  "publish e c msg p s =
     sendMessage c (ackMessage e (cmRoomID msg) (strField p ''messageId'') StatusSent)
       (broadcastToRoom e (cmRoomID msg)
         (msg\<lparr>cmPayload := PStruct p, cmMessageID := strField p ''messageId''\<rparr>) '''' s)"

definition handleChatMessage :: "'db env \<Rightarrow> cid \<Rightarrow> ChatMessage \<Rightarrow> 'db srv \<Rightarrow> 'db srv" where
  "handleChatMessage e c msg s =
     withPayload e c msg MessagePayload
       (\<lambda>p0 s. let p = setSender (cstore s c) (withID e p0)
               in saveRow e c ''Failed to save message''
                    (emptyRow (strField p ''messageId'') (cmRoomID msg) (cUserID (cstore s c)) (strField p ''content'')
                      (cmTimestamp msg) (cmType msg))
                    (publish e c msg p) s) s"

definition handleThreadReply :: "'db env \<Rightarrow> cid \<Rightarrow> ChatMessage \<Rightarrow> 'db srv \<Rightarrow> 'db srv" where
  "handleThreadReply e c msg s =
     withPayload e c msg ThreadReplyPayload
       (\<lambda>p0 s. case GetMessage (ops e) (strField p0 ''parentMessageId'') (db s) of
            Inl err \<Rightarrow> sendError e c 404 ''Parent message not found'' err s
          | Inr _ \<Rightarrow>
              let p = setSender (cstore s c) (withID e p0)
              in saveRow e c ''Failed to save message''
                   ((emptyRow (strField p ''messageId'') (cmRoomID msg) (cUserID (cstore s c)) (strField p ''content'')
                      (cmTimestamp msg) (cmType msg))\<lparr>dmParent := Some (strField p ''parentMessageId'')\<rparr>)
                   (publish e c msg p) s) s"

definition handleTyping :: "'db env \<Rightarrow> cid \<Rightarrow> ChatMessage \<Rightarrow> 'db srv \<Rightarrow> 'db srv" where
  "handleTyping e c msg s =
     (let roomID = cmRoomID msg
      in if \<not> inRooms (cstore s c) roomID then s
         else case parsePayload e (cmPayload msg) TypingPayload of
           None \<Rightarrow> s
         | Some p0 \<Rightarrow>
             let p = setSender (cstore s c) p0;
                 entry = (case map_of (typingClients s) roomID of None \<Rightarrow> [] | Some m \<Rightarrow> m);
                 is = boolField p ''isTyping'';
                 entry' = (if is then m_put c (now e) entry else m_del c entry);
                 s1 = updClient c (\<lambda>x. x\<lparr>cIsTyping := m_put roomID is (cIsTyping x)\<rparr>)
                   (s\<lparr>typingClients := m_put roomID entry' (typingClients s)\<rparr>)
             in broadcastToRoom e roomID
                  (msg\<lparr>cmType := (if is then TTypingStart else TTypingStop), cmPayload := PStruct p\<rparr>) c s1)"

definition handleReadReceipt :: "'db env \<Rightarrow> cid \<Rightarrow> ChatMessage \<Rightarrow> 'db srv \<Rightarrow> 'db srv" where
  "handleReadReceipt e c msg s =
     withPayload e c msg ReadReceiptPayload
       (\<lambda>p0 s. let p = setStr ''readAt'' (timeText e (now e)) (setStr ''userId'' (cUserID (cstore s c)) p0)
               in case SaveReadReceipt (ops e) \<lparr>rrMessageID = strField p ''messageId'', rrUserID = cUserID (cstore s c),
                      rrReadAt = now e\<rparr> (db s) of
                    (Some err, d) \<Rightarrow> sendError e c 500 ''Failed to save read receipt'' err (s\<lparr>db := d\<rparr>)
                  | (None, d) \<Rightarrow> broadcastToRoom e (cmRoomID msg) (msg\<lparr>cmPayload := PStruct p\<rparr>) c (s\<lparr>db := d\<rparr>)) s"

text \<open>How the two sharing handlers end: the acknowledgment names no room.\<close>

definition publishShare :: "'db env \<Rightarrow> cid \<Rightarrow> ChatMessage \<Rightarrow> struct \<Rightarrow> 'db srv \<Rightarrow> 'db srv" where
  "publishShare e c msg p s =
     sendMessage c (ackMessage e '''' (strField p ''messageId'') StatusSent)
       (broadcastToRoom e (cmRoomID msg) (msg\<lparr>cmPayload := PStruct p\<rparr>) '''' s)"

definition handleFileShare :: "'db env \<Rightarrow> cid \<Rightarrow> ChatMessage \<Rightarrow> 'db srv \<Rightarrow> 'db srv" where
  "handleFileShare e c msg s =
     withPayload e c msg FileSharePayload
       (\<lambda>p0 s. let p = setSender (cstore s c) (withID e p0)
               in if intField p ''fileSize'' > 10 * 1024 * 1024
                  then sendError e c 413 ''File too large'' ''File size exceeds 10MB limit'' s
                  else saveRow e c ''Failed to save file''
                    ((emptyRow (strField p ''messageId'') (cmRoomID msg) (cUserID (cstore s c))
                       (''Shared file: '' @ strField p ''fileName'') (cmTimestamp msg) TFileShare)
                      \<lparr>dmFileData := Some (anyField p ''fileData''), dmFileName := Some (strField p ''fileName''),
                       dmFileSize := Some (intField p ''fileSize''), dmFileType := Some (strField p ''fileType'')\<rparr>)
                    (publishShare e c msg p) s) s"

definition handleMediaShare :: "'db env \<Rightarrow> cid \<Rightarrow> ChatMessage \<Rightarrow> 'db srv \<Rightarrow> 'db srv" where
  "handleMediaShare e c msg s =
     withPayload e c msg MediaSharePayload
       (\<lambda>p0 s. let p = setSender (cstore s c) (withID e p0)
               in saveRow e c ''Failed to save media''
                    ((emptyRow (strField p ''messageId'') (cmRoomID msg) (cUserID (cstore s c))
                       (''Shared '' @ strField p ''mediaType'' @ '' recording ('' @ intText (intField p ''duration'') @ ''s)'')
                       (cmTimestamp msg) TMediaShare)
                      \<lparr>dmMediaData := Some (strField p ''mediaData''), dmMediaType := Some (strField p ''mediaType''),
                       dmDuration := Some (intField p ''duration'')\<rparr>)
                    (publishShare e c msg p) s) s"

section \<open>Calls\<close>

text \<open>
  The handlers that only pass a message on: \<open>fill\<close> is what they set besides the sender.
\<close>

definition relay ::
  "'db env \<Rightarrow> cid \<Rightarrow> ChatMessage \<Rightarrow> schema \<Rightarrow> (struct \<Rightarrow> struct) \<Rightarrow> 'db srv \<Rightarrow> 'db srv" where
  "relay e c msg sch fill s =
     withPayload e c msg sch
       (\<lambda>p s. broadcastToRoom e (cmRoomID msg) (msg\<lparr>cmPayload := PStruct (fill (setSender (cstore s c) p))\<rparr>) c s) s"

definition handleCallInvite :: "'db env \<Rightarrow> cid \<Rightarrow> ChatMessage \<Rightarrow> 'db srv \<Rightarrow> 'db srv" where
  "handleCallInvite e c msg s = relay e c msg CallInvitePayload (setStr ''roomId'' (cmRoomID msg)) s"

definition handleCallAnswer :: "'db env \<Rightarrow> cid \<Rightarrow> ChatMessage \<Rightarrow> 'db srv \<Rightarrow> 'db srv" where
  "handleCallAnswer e c msg s = relay e c msg CallAnswerPayload id s"

definition handleCallEnd :: "'db env \<Rightarrow> cid \<Rightarrow> ChatMessage \<Rightarrow> 'db srv \<Rightarrow> 'db srv" where
  "handleCallEnd e c msg s = relay e c msg CallEndPayload id s"

definition handleWebRTCSignal :: "'db env \<Rightarrow> cid \<Rightarrow> ChatMessage \<Rightarrow> 'db srv \<Rightarrow> 'db srv" where
  "handleWebRTCSignal e c msg s = relay e c msg WebRTCSignalPayload id s"

definition handleScreenShare :: "'db env \<Rightarrow> cid \<Rightarrow> ChatMessage \<Rightarrow> 'db srv \<Rightarrow> 'db srv" where
  "handleScreenShare e c msg s = relay e c msg ScreenSharePayload id s"

definition handleRecordingStart :: "'db env \<Rightarrow> cid \<Rightarrow> ChatMessage \<Rightarrow> 'db srv \<Rightarrow> 'db srv" where
  "handleRecordingStart e c msg s = relay e c msg RecordingPayload (m_put ''isRecording'' (JBool True)) s"

definition handleRecordingStop :: "'db env \<Rightarrow> cid \<Rightarrow> ChatMessage \<Rightarrow> 'db srv \<Rightarrow> 'db srv" where
  "handleRecordingStop e c msg s = relay e c msg RecordingPayload (m_put ''isRecording'' (JBool False)) s"

section \<open>Dispatch\<close>

definition routeMessage :: "'db env \<Rightarrow> cid \<Rightarrow> ChatMessage \<Rightarrow> 'db srv \<Rightarrow> 'db srv" where
  "routeMessage e c msg s =
     (if cmType msg = TJoinRoom then handleJoinRoom e c msg s
      else if cmType msg = TLeaveRoom then handleLeaveRoom e c msg s
      else if cmType msg = TMessage then handleChatMessage e c msg s
      else if cmType msg = TThreadReply then handleThreadReply e c msg s
      else if cmType msg = TTyping then handleTyping e c msg s
      else if cmType msg = TReadReceipt then handleReadReceipt e c msg s
      else if cmType msg = TFileShare then handleFileShare e c msg s
      else if cmType msg = TMediaShare then handleMediaShare e c msg s
      else if cmType msg = TCallInvite then handleCallInvite e c msg s
      else if cmType msg = TCallAnswer then handleCallAnswer e c msg s
      else if cmType msg = TCallEnd then handleCallEnd e c msg s
      else if cmType msg = TWebRTCSignal then handleWebRTCSignal e c msg s
      else if cmType msg = TScreenShare then handleScreenShare e c msg s
      else if cmType msg = TRecordingStart then handleRecordingStart e c msg s
      else if cmType msg = TRecordingStop then handleRecordingStop e c msg s
      else sendError e c 400 ''Unknown message type'' (cmType msg) s)"

definition handleMessage :: "'db env \<Rightarrow> cid \<Rightarrow> byte list \<Rightarrow> 'db srv \<Rightarrow> 'db srv" where
  "handleMessage e c data s =
     (let s0 = updClient c (\<lambda>x. x\<lparr>cLastSeen := now e\<rparr>) s;
          (ok, s1) = checkRateLimit e c s0
      in if \<not> ok then sendError e c 429 ''Rate limit exceeded'' '''' s1
         else case readMessage e data of
                None \<Rightarrow> sendError e c 400 ''Invalid message format'' (jsonErr e) s1
              | Some msg \<Rightarrow>
                  (case validateMessage e msg of
                     Some err \<Rightarrow> sendError e c 400 ''Message validation failed'' err s1
                   | None \<Rightarrow> routeMessage e c (msg\<lparr>cmTimestamp := now e\<rparr>) s1))"

end
