(* ===== verification/ChatSafety.thy ===== *)
theory ChatSafety
  imports ChatHandlers
begin

text \<open>
  What the handlers can and cannot do: frame lemmas for the writing operations, a relation that
  tracks everything written to every client, and the safety properties of \<^verbatim>\<open>handleMessage\<close>.
\<close>

named_theorems chat_frame \<open>what an operation leaves alone\<close>

definition hasClient :: "'db srv \<Rightarrow> string \<Rightarrow> cid \<Rightarrow> bool" where
  "hasClient s r c \<longleftrightarrow> (case map_of (rooms s) r of None \<Rightarrow> False | Some room \<Rightarrow> m_has (rClients room) c)"

section \<open>Frames\<close>

text \<open>\<open>same_but_out s s'\<close>: only what was written to clients and the goroutines started may differ.\<close>

definition same_but_out :: "'db srv \<Rightarrow> 'db srv \<Rightarrow> bool" where
  "same_but_out s s' \<longleftrightarrow>
     db s' = db s \<and> clients s' = clients s \<and> rooms s' = rooms s \<and> rateLimiters s' = rateLimiters s \<and>
     typingClients s' = typingClients s \<and> pendingFileMeta s' = pendingFileMeta s \<and>
     pendingMediaMeta s' = pendingMediaMeta s \<and> redis s' = redis s \<and> files s' = files s \<and>
     (\<forall>d. (cstore s' d)\<lparr>cOut := []\<rparr> = (cstore s d)\<lparr>cOut := []\<rparr>)"

lemma same_refl [simp]: "same_but_out s s"
  by (simp add: same_but_out_def)

lemma same_trans: "same_but_out s t \<Longrightarrow> same_but_out t u \<Longrightarrow> same_but_out s u"
  by (simp add: same_but_out_def)

lemma same_sendMessage [simp]: "same_but_out s (sendMessage c m s)"
  by (simp add: same_but_out_def sendMessage_def)

lemma same_sendError [simp]: "same_but_out s (sendError e c code t u s)"
  by (simp add: sendError_def)

lemma same_fold:
  "(\<And>x s. x \<in> set xs \<Longrightarrow> same_but_out s (f x s)) \<Longrightarrow> same_but_out s (fold f xs s)"
  by (induction xs arbitrary: s) (auto intro: same_trans)

lemma same_broadcast [simp]: "same_but_out s (broadcastToRoom e r m x s)"
  by (auto simp: broadcastToRoom_def intro!: same_fold split: option.split)

lemma same_client:
  assumes "same_but_out s s'"
  shows "cUserID (cstore s' d) = cUserID (cstore s d)" "cUsername (cstore s' d) = cUsername (cstore s d)"
    "cRooms (cstore s' d) = cRooms (cstore s d)" "cBroken (cstore s' d) = cBroken (cstore s d)"
    "cIsTyping (cstore s' d) = cIsTyping (cstore s d)" "inRooms (cstore s' d) r = inRooms (cstore s d) r"
proof -
  have *: "(cstore s' d)\<lparr>cOut := []\<rparr> = (cstore s d)\<lparr>cOut := []\<rparr>"
    using assms by (simp add: same_but_out_def)
  show "cUserID (cstore s' d) = cUserID (cstore s d)" using arg_cong [OF *, of cUserID] by simp
  show "cUsername (cstore s' d) = cUsername (cstore s d)" using arg_cong [OF *, of cUsername] by simp
  show rooms: "cRooms (cstore s' d) = cRooms (cstore s d)" using arg_cong [OF *, of cRooms] by simp
  show "cBroken (cstore s' d) = cBroken (cstore s d)" using arg_cong [OF *, of cBroken] by simp
  show "cIsTyping (cstore s' d) = cIsTyping (cstore s d)" using arg_cong [OF *, of cIsTyping] by simp
  show "inRooms (cstore s' d) r = inRooms (cstore s d) r" by (simp add: inRooms_def rooms)
qed

lemma same_srv:
  assumes "same_but_out s s'"
  shows "db s' = db s" "rooms s' = rooms s" "clients s' = clients s" "typingClients s' = typingClients s"
    "rateLimiters s' = rateLimiters s" "redis s' = redis s" "files s' = files s" "hasClient s' r d = hasClient s r d"
    "pendingFileMeta s' = pendingFileMeta s" "pendingMediaMeta s' = pendingMediaMeta s"
  using assms by (simp_all add: same_but_out_def hasClient_def)

lemmas frame_send [chat_frame] = same_client [OF same_sendMessage] same_srv [OF same_sendMessage]
lemmas frame_error [chat_frame] = same_client [OF same_sendError] same_srv [OF same_sendError]
lemmas frame_broadcast [chat_frame] = same_client [OF same_broadcast] same_srv [OF same_broadcast]

section \<open>Who is written to\<close>

text \<open>The exact effect of a broadcast: one copy for every client in the room whose connection works.\<close>

definition delivered :: "ChatMessage \<Rightarrow> Client \<Rightarrow> Client" where
  "delivered m x = (if cBroken x then x else x\<lparr>cOut := cOut x @ [m]\<rparr>)"

lemma cstore_sendMessage: "cstore (sendMessage c m s) d = (if d = c then delivered m (cstore s c) else cstore s d)"
  by (auto simp: sendMessage_def delivered_def)

lemma cstore_fold_send:
  assumes "distinct cs"
  shows "cstore (fold (\<lambda>c s. if c \<noteq> x then sendMessage c m s else s) cs s) d =
    (if d \<in> set cs \<and> d \<noteq> x then delivered m (cstore s d) else cstore s d)"
  using assms
proof (induction cs arbitrary: s)
  case (Cons c cs)
  then show ?case by (auto simp: cstore_sendMessage)
qed simp

definition srv_ok :: "'db srv \<Rightarrow> bool" where
  "srv_ok s \<longleftrightarrow> m_wf (rooms s) \<and> (\<forall>r room. map_of (rooms s) r = Some room \<longrightarrow> m_wf (rClients room))"

lemma cstore_broadcast:
  assumes "srv_ok s" and "perm_fn (ord e)"
  shows "cstore (broadcastToRoom e r m x s) d =
    (if hasClient s r d \<and> d \<noteq> x then delivered m (cstore s d) else cstore s d)"
proof (cases "map_of (rooms s) r")
  case (Some room)
  with assms have "distinct (ord e (m_keys (rClients room)))"
    by (auto simp: srv_ok_def m_wf_def perm_fn_distinct)
  from cstore_fold_send [OF this, of x m s d] Some show ?thesis
    by (simp add: broadcastToRoom_def hasClient_def perm_fn_set [OF assms(2)] m_has_iff_keys)
qed (simp add: broadcastToRoom_def hasClient_def)

text \<open>\<open>wrote Q s s'\<close>: from \<open>s\<close> to \<open>s'\<close> clients kept their names and were only sent messages that \<open>Q\<close> allows.\<close>

definition wrote :: "(cid \<Rightarrow> ChatMessage \<Rightarrow> bool) \<Rightarrow> 'db srv \<Rightarrow> 'db srv \<Rightarrow> bool" where
  "wrote Q s s' \<longleftrightarrow> (\<forall>d. cUserID (cstore s' d) = cUserID (cstore s d) \<and> cUsername (cstore s' d) = cUsername (cstore s d) \<and>
     (\<exists>ms. cOut (cstore s' d) = cOut (cstore s d) @ ms \<and> (\<forall>m \<in> set ms. Q d m)))"

lemma wrote_refl [simp]: "wrote Q s s"
  by (simp add: wrote_def)

lemma wrote_cstore: "cstore s' = cstore s \<Longrightarrow> wrote Q s s'"
  by (simp add: wrote_def)

lemma wrote_trans:
  assumes "wrote Q s t" and "wrote Q t u"
  shows "wrote Q s u"
  unfolding wrote_def
proof (intro allI conjI)
  fix d
  from assms obtain ms ns where "cOut (cstore t d) = cOut (cstore s d) @ ms" "\<forall>m \<in> set ms. Q d m"
    "cOut (cstore u d) = cOut (cstore t d) @ ns" "\<forall>m \<in> set ns. Q d m"
    unfolding wrote_def by meson
  then have "cOut (cstore u d) = cOut (cstore s d) @ (ms @ ns)" "\<forall>m \<in> set (ms @ ns). Q d m" by auto
  then show "\<exists>ms. cOut (cstore u d) = cOut (cstore s d) @ ms \<and> (\<forall>m \<in> set ms. Q d m)" by blast
qed (use assms in \<open>auto simp: wrote_def\<close>)

lemma wrote_updClient:
  "(\<And>x. cOut (f x) = cOut x \<and> cUserID (f x) = cUserID x \<and> cUsername (f x) = cUsername x) \<Longrightarrow> wrote Q s (updClient c f s)"
  by (simp add: wrote_def)

lemma wrote_send: "Q c m \<Longrightarrow> wrote Q s (sendMessage c m s)"
  by (auto simp: wrote_def cstore_sendMessage delivered_def)

lemma wrote_fold:
  "(\<And>x s. x \<in> set xs \<Longrightarrow> wrote Q s (f x s)) \<Longrightarrow> wrote Q s (fold f xs s)"
  by (induction xs arbitrary: s) (auto intro: wrote_trans)

lemma wrote_broadcast:
  assumes "perm_fn (ord e)" and "\<And>d. hasClient s r d \<Longrightarrow> d \<noteq> x \<Longrightarrow> Q d m"
  shows "wrote Q s (broadcastToRoom e r m x s)"
proof (cases "map_of (rooms s) r")
  case (Some room)
  have "wrote Q t (fold (\<lambda>c s. if c \<noteq> x then sendMessage c m s else s) (ord e (m_keys (rClients room))) t)" for t
    by (rule wrote_fold)
      (use Some assms(2) in \<open>auto simp: perm_fn_set [OF assms(1)] hasClient_def m_has_iff_keys intro!: wrote_send\<close>)
  with Some show ?thesis by (simp add: broadcastToRoom_def)
qed (simp add: broadcastToRoom_def)

text \<open>
  What \<open>handleMessage\<close> for client \<open>c\<close> may send to \<open>d\<close>: answers to \<open>c\<close> itself, and messages that carry
  \<open>c\<close>'s own name to clients in the room they name.
\<close>

definition honest :: "'db srv \<Rightarrow> cid \<Rightarrow> cid \<Rightarrow> ChatMessage \<Rightarrow> bool" where
  "honest s c d m \<longleftrightarrow>
     (case cmPayload m of
        PStruct p \<Rightarrow> hasClient s (cmRoomID m) d \<and> strField p ''userId'' = cUserID (cstore s c) \<and>
          (m_has p ''username'' \<longrightarrow> strField p ''username'' = cUsername (cstore s c))
      | PPresence u n st \<Rightarrow> hasClient s (cmRoomID m) d \<and> u = cUserID (cstore s c) \<and> n = cUsername (cstore s c)
      | PRaw j \<Rightarrow> False
      | _ \<Rightarrow> d = c)"

lemma honest_answers [simp]:
  "honest s c d (errorMessage e code t u) \<longleftrightarrow> d = c" "honest s c d (ackMessage e r i st) \<longleftrightarrow> d = c"
  by (simp_all add: honest_def errorMessage_def ackMessage_def)

lemma wrote_error: "wrote (honest s0 c) s (sendError e c code t u s)"
  by (simp add: sendError_def wrote_send)

lemma honest_presence:
  "honest s c d (presenceMessage e ty r x st) \<longleftrightarrow>
   hasClient s r d \<and> cUserID x = cUserID (cstore s c) \<and> cUsername x = cUsername (cstore s c)"
  by (simp add: honest_def presenceMessage_def)

lemma sender_fields:
  "strField (setSender x p) ''userId'' = cUserID x" "strField (setSender x p) ''username'' = cUsername x"
  by (simp_all add: setSender_def)

section \<open>The handlers write honestly\<close>

lemma hasClient_simps [simp]:
  "hasClient (s\<lparr>db := d\<rparr>) = hasClient s" "hasClient (updClient c' f s) = hasClient s"
  "hasClient (s\<lparr>typingClients := ty\<rparr>) = hasClient s" "hasClient (s\<lparr>rateLimiters := rl\<rparr>) = hasClient s"
  by (simp_all add: hasClient_def fun_eq_iff)

lemma honest_frame:
  assumes "hasClient s' = hasClient s" and "cUserID (cstore s' c) = cUserID (cstore s c)"
    and "cUsername (cstore s' c) = cUsername (cstore s c)"
  shows "honest s' c = honest s c"
  using assms by (simp add: honest_def fun_eq_iff cong: payload.case_cong)

lemma strField_put [simp]: "m \<noteq> n \<Longrightarrow> strField (m_put n v p) m = strField p m"
  by (simp add: strField_def gomap_simps)

lemma wrote_withPayload:
  assumes "\<And>p. parsePayload e (cmPayload msg) sch = Some p \<Longrightarrow> wrote (honest s c) s (k p s)"
  shows "wrote (honest s c) s (withPayload e c msg sch k s)"
  using assms by (auto simp: withPayload_def wrote_error split: option.split)

lemma wrote_saveRow:
  assumes "\<And>d. wrote (honest s c) (s\<lparr>db := d\<rparr>) (k (s\<lparr>db := d\<rparr>))"
  shows "wrote (honest s c) s (saveRow e c t row k s)"
proof -
  have db: "wrote (honest s c) s (s\<lparr>db := d\<rparr>)" for d by (simp add: wrote_cstore)
  show ?thesis
    using wrote_trans [OF db assms] wrote_trans [OF db wrote_error]
    by (auto simp: saveRow_def split: prod.split option.split)
qed

text \<open>A broadcast with a struct that carries the sender, to the room the message names.\<close>

lemma wrote_struct:
  assumes "perm_fn (ord e)" and "hasClient s' = hasClient s"
    and "strField p ''userId'' = cUserID (cstore s c)"
    and "m_has p ''username'' \<longrightarrow> strField p ''username'' = cUsername (cstore s c)"
    and "cmPayload m = PStruct p" and "cmRoomID m = r"
  shows "wrote (honest s c) s' (broadcastToRoom e r m x s')"
  by (rule wrote_broadcast [OF assms(1)]) (simp add: honest_def assms)

lemma wrote_relay:
  assumes "perm_fn (ord e)" and "\<And>p n. n \<in> {''userId'', ''username''} \<Longrightarrow> strField (fill p) n = strField p n"
  shows "wrote (honest s c) s (relay e c msg sch fill s)"
  unfolding relay_def
  by (rule wrote_withPayload, rule wrote_struct) (simp_all add: assms sender_fields)

lemma wrote_publish:
  assumes "perm_fn (ord e)" and "hasClient s' = hasClient s" and "cmRoomID m = cmRoomID msg"
    and "strField p ''userId'' = cUserID (cstore s c)" and "strField p ''username'' = cUsername (cstore s c)"
    and "cmPayload m = PStruct p"
  shows "wrote (honest s c) s' (sendMessage c (ackMessage e r i st) (broadcastToRoom e (cmRoomID msg) m x s'))"
  by (rule wrote_trans [OF wrote_struct wrote_send]) (simp_all add: assms)

lemma wrote_share:
  assumes "perm_fn (ord e)"
  shows "wrote (honest s c) s (saveRow e c t row (publish e c msg (setSender (cstore s c) p)) s)"
    and "wrote (honest s c) s (saveRow e c t row (publishShare e c msg (setSender (cstore s c) p)) s)"
  by (rule wrote_saveRow; unfold publish_def publishShare_def; rule wrote_publish;
      simp add: assms sender_fields)+

lemma wrote_handleReadReceipt:
  assumes "perm_fn (ord e)"
  shows "wrote (honest s c) s (handleReadReceipt e c msg s)"
  unfolding handleReadReceipt_def
proof (rule wrote_withPayload)
  fix p0
  assume "parsePayload e (cmPayload msg) ReadReceiptPayload = Some p0"
  then have "map fst p0 = map fst ReadReceiptPayload"
    by (auto simp: parsePayload_def struct_ok_def dest: decodeStruct_ok)
  then have no: "\<not> m_has p0 ''username''" by (simp add: m_has_iff_keys ReadReceiptPayload_def)
  let ?p = "setStr ''readAt'' (timeText e (now e)) (setStr ''userId'' (cUserID (cstore s c)) p0)"
  have db: "wrote (honest s c) s (s\<lparr>db := d\<rparr>)" for d by (simp add: wrote_cstore)
  have "wrote (honest s c) (s\<lparr>db := d\<rparr>)
      (broadcastToRoom e (cmRoomID msg) (msg\<lparr>cmPayload := PStruct ?p\<rparr>) c (s\<lparr>db := d\<rparr>))" for d
    by (rule wrote_struct) (use no in \<open>simp_all add: assms m_has_put setStr_def strField_def gomap_simps\<close>)
  from wrote_trans [OF db this] wrote_trans [OF db wrote_error]
  show "wrote (honest s c) s
     (let p = ?p
      in case SaveReadReceipt (ops e) \<lparr>rrMessageID = strField p ''messageId'', rrUserID = cUserID (cstore s c),
             rrReadAt = now e\<rparr> (db s) of
           (Some err, d) \<Rightarrow> sendError e c 500 ''Failed to save read receipt'' err (s\<lparr>db := d\<rparr>)
         | (None, d) \<Rightarrow> broadcastToRoom e (cmRoomID msg) (msg\<lparr>cmPayload := PStruct p\<rparr>) c (s\<lparr>db := d\<rparr>))"
    by (auto simp: Let_def split: prod.split option.split)
qed

lemma wrote_handleTyping:
  assumes "perm_fn (ord e)"
  shows "wrote (honest s c) s (handleTyping e c msg s)"
proof -
  have "wrote (honest s c) s (broadcastToRoom e (cmRoomID msg) (msg\<lparr>cmType := ty, cmPayload := PStruct (setSender (cstore s c) p)\<rparr>) c
      (updClient c (\<lambda>x. x\<lparr>cIsTyping := f x\<rparr>) (s\<lparr>typingClients := tc\<rparr>)))" for ty p f tc
  proof (rule wrote_trans [OF _ wrote_struct])
    show "wrote (honest s c) s (updClient c (\<lambda>x. x\<lparr>cIsTyping := f x\<rparr>) (s\<lparr>typingClients := tc\<rparr>))"
      by (simp add: wrote_def)
  qed (simp_all add: assms sender_fields)
  then show ?thesis by (auto simp: handleTyping_def Let_def split: option.split)
qed

lemma hasClient_putRoom:
  "hasClient (putRoom r room s) r' d \<longleftrightarrow> (if r' = r then m_has (rClients room) d else hasClient s r' d)"
  by (simp add: putRoom_def hasClient_def gomap_simps)

lemma putRoom_simps [simp]:
  "cstore (putRoom r room s) = cstore s" "clients (putRoom r room s) = clients s"
  "typingClients (putRoom r room s) = typingClients s" "redis (putRoom r room s) = redis s"
  "files (putRoom r room s) = files s" "db (putRoom r room s) = db s"
  "rooms (putRoom r room s) = m_put r room (rooms s)"
  by (simp_all add: putRoom_def)

lemma getOrCreateRoom_frame:
  assumes "getOrCreateRoom e r s = (res, s1)"
  shows "cstore s1 = cstore s" and "hasClient s1 = hasClient s" and "clients s1 = clients s"
    and "typingClients s1 = typingClients s" and "redis s1 = redis s" and "files s1 = files s"
    and "res = Inr room \<Longrightarrow> map_of (rooms s1) r = Some room"
proof -
  have new: "map_of (rooms s) r = None \<Longrightarrow> hasClient s r d = False" for d by (simp add: hasClient_def)
  from assms show "cstore s1 = cstore s" "hasClient s1 = hasClient s" "clients s1 = clients s"
    "typingClients s1 = typingClients s" "redis s1 = redis s" "files s1 = files s"
    "res = Inr room \<Longrightarrow> map_of (rooms s1) r = Some room"
    by (auto simp: getOrCreateRoom_def Let_def fun_eq_iff hasClient_putRoom new gomap_simps
        split: option.splits if_splits sum.splits prod.splits)
qed

lemma hasClient_enterRoom:
  "hasClient (enterRoom r c s) r' d \<longleftrightarrow> (r' = r \<and> d = c \<and> m_has (rooms s) r) \<or> hasClient s r' d"
  by (auto simp: enterRoom_def hasClient_putRoom m_has_def [of "rooms s"] gomap_simps hasClient_def [of s]
      split: option.split)

lemma hasClient_dropFromRoom:
  "hasClient (dropFromRoom r c s) r' d \<longleftrightarrow> \<not> (r' = r \<and> d = c) \<and> hasClient s r' d"
proof (cases "map_of (rooms s) r")
  case (Some room)
  have "m_del c (rClients room) = [] \<Longrightarrow> m_has (rClients room) d \<Longrightarrow> d = c"
    using m_has_del [of c "rClients room" d] by simp
  with Some show ?thesis
    by (auto simp: dropFromRoom_def Let_def putRoom_def hasClient_def gomap_simps)
qed (auto simp: dropFromRoom_def hasClient_def)

lemma cstore_dropFromRoom [simp]: "cstore (dropFromRoom r c s) = cstore s"
  by (simp add: dropFromRoom_def Let_def putRoom_def split: option.split)

lemma wrote_enterRoom: "wrote Q s (enterRoom r c s)"
  by (auto simp: enterRoom_def putRoom_def wrote_def updClient_def split: option.split)

lemma wrote_presence:
  assumes "perm_fn (ord e)" and "\<And>d. hasClient s' r d \<Longrightarrow> d \<noteq> c \<Longrightarrow> hasClient s r d"
    and "cUserID x = cUserID (cstore s c)" and "cUsername x = cUsername (cstore s c)"
  shows "wrote (honest s c) s' (broadcastToRoom e r (presenceMessage e ty r x st) c s')"
  by (rule wrote_broadcast [OF assms(1)]) (simp add: honest_presence assms)

lemma wrote_handleLeaveRoom:
  assumes "perm_fn (ord e)"
  shows "wrote (honest s c) s (handleLeaveRoom e c msg s)"
proof -
  let ?r = "cmRoomID msg"
  let ?s2 = "updClient c (\<lambda>x. x\<lparr>cRooms := m_del ?r (cRooms x)\<rparr>) (dropFromRoom ?r c s)"
  have step: "wrote (honest s c) s (broadcastToRoom e ?r (presenceMessage e TUserLeft ?r (cstore s3 c) ''offline'') c s3)"
    if "s3 = ?s2 \<or> (\<exists>d. s3 = ?s2\<lparr>db := d\<rparr>)" for s3
  proof (rule wrote_trans [OF _ wrote_presence [OF assms]])
    show "wrote (honest s c) s s3" using that by (auto simp: wrote_def)
  qed (use that in \<open>auto simp: hasClient_dropFromRoom\<close>)
  show ?thesis
    unfolding handleLeaveRoom_def Let_def by (split if_split, intro conjI impI wrote_error step) auto
qed

lemma wrote_handleJoinRoom:
  assumes "perm_fn (ord e)"
  shows "wrote (honest s c) s (handleJoinRoom e c msg s)"
proof -
  let ?r = "cmRoomID msg"
  obtain res s1 where g: "getOrCreateRoom e ?r s = (res, s1)" by fastforce
  note fr = getOrCreateRoom_frame [OF g]
  have s1: "wrote (honest s c) s s1" by (simp add: wrote_cstore fr)
  note err = wrote_trans [OF s1 wrote_error]
  have go: "wrote (honest s c) s (sendMessage c (ackMessage e ?r '''' StatusDelivered)
      (broadcastToRoom e ?r (presenceMessage e TUserJoined ?r (cstore (sendHistory e ?r c s3) c) ''online'') c
        (sendHistory e ?r c s3)))"
    if "s3 = enterRoom ?r c s1 \<or> (\<exists>d. s3 = (enterRoom ?r c s1)\<lparr>db := d\<rparr>)" for s3
  proof -
    have s3: "wrote (honest s c) s s3"
      using that wrote_trans [OF s1 wrote_enterRoom] wrote_trans [OF wrote_trans [OF s1 wrote_enterRoom] wrote_cstore]
      by auto
    have h: "sendHistory e ?r c s3 = s3 \<or> (\<exists>m. sendHistory e ?r c s3 = sendMessage c m s3 \<and> honest s c c m)"
      by (auto simp: sendHistory_def honest_def split: outcome.split sum.split list.split)
    then have s4: "wrote (honest s c) s (sendHistory e ?r c s3)"
      using s3 wrote_trans [OF s3 wrote_send] by (elim disjE exE conjE) simp_all
    from h have "hasClient (sendHistory e ?r c s3) = hasClient s3" by (auto simp: fun_eq_iff chat_frame)
    with that have "d \<noteq> c \<Longrightarrow> hasClient (sendHistory e ?r c s3) ?r d \<Longrightarrow> hasClient s ?r d" for d
      by (auto simp: hasClient_enterRoom fr)
    moreover from s4 have "cUserID (cstore (sendHistory e ?r c s3) c) = cUserID (cstore s c)"
      "cUsername (cstore (sendHistory e ?r c s3) c) = cUsername (cstore s c)" by (auto simp: wrote_def)
    ultimately show ?thesis
      by (intro wrote_trans [OF wrote_trans [OF s4 wrote_presence [OF assms]] wrote_send]) simp_all
  qed
  show ?thesis
    unfolding handleJoinRoom_def Let_def g by (auto intro: go err split: sum.split)
qed

subsection \<open>All handlers at once\<close>



lemma wrote_routeMessage:
  assumes "perm_fn (ord e)"
  shows "wrote (honest s c) s (routeMessage e c msg s)"
proof -
  have chat: "wrote (honest s c) s (handleChatMessage e c msg s)"
    unfolding handleChatMessage_def Let_def by (rule wrote_withPayload, rule wrote_share [OF assms])
  have thread: "wrote (honest s c) s (handleThreadReply e c msg s)"
    unfolding handleThreadReply_def Let_def
    by (rule wrote_withPayload) (auto intro: wrote_error wrote_share [OF assms] split: sum.split)
  have share: "wrote (honest s c) s (handleFileShare e c msg s)" "wrote (honest s c) s (handleMediaShare e c msg s)"
    unfolding handleFileShare_def handleMediaShare_def Let_def
    by (rule wrote_withPayload, simp add: wrote_error wrote_share [OF assms])+
  have calls: "wrote (honest s c) s (handleCallInvite e c msg s)" "wrote (honest s c) s (handleCallAnswer e c msg s)"
    "wrote (honest s c) s (handleCallEnd e c msg s)" "wrote (honest s c) s (handleWebRTCSignal e c msg s)"
    "wrote (honest s c) s (handleScreenShare e c msg s)" "wrote (honest s c) s (handleRecordingStart e c msg s)"
    "wrote (honest s c) s (handleRecordingStop e c msg s)"
    unfolding handleCallInvite_def handleCallAnswer_def handleCallEnd_def handleWebRTCSignal_def handleScreenShare_def
      handleRecordingStart_def handleRecordingStop_def
    by (rule wrote_relay [OF assms]; auto)+
  from chat thread share calls show ?thesis
    by (auto simp: routeMessage_def wrote_error wrote_handleJoinRoom [OF assms] wrote_handleLeaveRoom [OF assms]
        wrote_handleTyping [OF assms] wrote_handleReadReceipt [OF assms])
qed

text \<open>The part before the dispatch changes the client's last-seen time and its limiter only.\<close>

definition beforeRoute :: "'db env \<Rightarrow> cid \<Rightarrow> 'db srv \<Rightarrow> 'db srv" where
  "beforeRoute e c s = snd (checkRateLimit e c (updClient c (\<lambda>x. x\<lparr>cLastSeen := now e\<rparr>) s))"

lemma beforeRoute_frame [simp]:
  "db (beforeRoute e c s) = db s" "rooms (beforeRoute e c s) = rooms s" "clients (beforeRoute e c s) = clients s"
  "typingClients (beforeRoute e c s) = typingClients s" "redis (beforeRoute e c s) = redis s"
  "files (beforeRoute e c s) = files s" "hasClient (beforeRoute e c s) = hasClient s"
  "cstore (beforeRoute e c s) d = (if d = c then (cstore s c)\<lparr>cLastSeen := now e\<rparr> else cstore s d)"
  by (simp_all add: beforeRoute_def checkRateLimit_def Let_def case_prod_unfold hasClient_def fun_eq_iff)

lemma inRooms_beforeRoute [simp]: "inRooms (cstore (beforeRoute e c s) d) r = inRooms (cstore s d) r"
  by (simp add: inRooms_def)

lemma checkRoomPermission_frame:
  assumes "db s' = db s" and "cUserID (cstore s' c) = cUserID (cstore s c)"
  shows "checkRoomPermission e c r s' = checkRoomPermission e c r s"
  using assms by (simp add: checkRoomPermission_def)

lemma handleMessage_cases:
  obtains (refused) code t u where "handleMessage e c data s = sendError e c code t u (beforeRoute e c s)"
  | (routed) msg where "readMessage e data = Some msg"
      "handleMessage e c data s = routeMessage e c (msg\<lparr>cmTimestamp := now e\<rparr>) (beforeRoute e c s)"
  by (cases "fst (checkRateLimit e c (updClient c (\<lambda>x. x\<lparr>cLastSeen := now e\<rparr>) s))"; cases "readMessage e data";
      cases "validateMessage e (the (readMessage e data))")
    (auto simp: handleMessage_def beforeRoute_def Let_def case_prod_unfold)

text \<open>
  C12. Nobody can speak in another's name or outside his rooms. Whatever bytes a client sends, what the
  server writes in consequence are answers to that client, and messages that carry the client's own user id
  and name, to clients that are in the room the message names; what a client has
  already been sent stays.
\<close>

theorem handleMessage_honest:
  assumes "perm_fn (ord e)"
  shows "\<exists>ms. cOut (cstore (handleMessage e c data s) d) = cOut (cstore s d) @ ms \<and> (\<forall>m \<in> set ms. honest s c d m)"
proof -
  have h: "honest (beforeRoute e c s) c = honest s c" by (rule honest_frame) simp_all
  have "wrote (honest s c) s (beforeRoute e c s)" by (simp add: wrote_def)
  moreover have "wrote (honest s c) (beforeRoute e c s) (handleMessage e c data s)"
    using wrote_routeMessage [OF assms, of "beforeRoute e c s" c] wrote_error [of s c "beforeRoute e c s" e]
    by (cases rule: handleMessage_cases [of e c data s]) (simp_all add: h)
  ultimately have "wrote (honest s c) s (handleMessage e c data s)" by (rule wrote_trans)
  then show ?thesis unfolding wrote_def by blast
qed

definition demo_chat :: "InMemoryDB srv" where
  "demo_chat = demo_srv\<lparr>rooms := [(''public:a'', \<lparr>rType = ''public'', rName = '''', rClients = [(''c1'', ''c1''), (''c2'', ''c2'')],
     rCreated = 0\<rparr>)], cstore := (\<lambda>c. if c = ''c1'' then demo_client\<lparr>cRooms := [(''public:a'', True)]\<rparr>
       else demo_client\<lparr>cUserID := ''bob'', cUsername := ''Bob'', cRooms := [(''public:a'', True)]\<rparr>)\<rparr>"

theorem handleMessage_honest_witness:
  "\<exists>ms. cOut (cstore (handleMessage demo_env ''c1'' [1] demo_chat) ''c2'') = cOut (cstore demo_chat ''c2'') @ ms \<and>
    (list_all (honest demo_chat ''c1'' ''c2'') ms)"
  using handleMessage_honest [of demo_env "''c1''" "[1]" demo_chat "''c2''"]
  by (simp add: demo_env_def list_all_iff)

lemma routeMessage_outsider:
  assumes "cmType msg \<noteq> TJoinRoom" and "\<not> inRooms (cstore s c) (cmRoomID msg)"
  shows "routeMessage e c msg s = s \<or> (\<exists>code t u. routeMessage e c msg s = sendError e c code t u s)"
proof -
  have payload: "withPayload e c msg sch k s = sendError e c 403 ''Access denied'' ''You are not in this room'' s" for sch k
    using assms(2) by (simp add: withPayload_def)
  have other: "handleLeaveRoom e c msg s = sendError e c 400 ''Not in room'' ''You are not in this room'' s"
    "handleTyping e c msg s = s"
    using assms(2) by (simp_all add: handleLeaveRoom_def handleTyping_def)
  define P where "P x \<longleftrightarrow> x = s \<or> (\<exists>code t u. x = sendError e c code t u s)" for x
  have P: "P s" "P (sendError e c code t u s)" for code t u by (auto simp: P_def)
  have "P (routeMessage e c msg s)"
    using assms(1)
    by (simp add: P payload other routeMessage_def relay_def handleChatMessage_def handleThreadReply_def
        handleReadReceipt_def handleFileShare_def handleMediaShare_def handleCallInvite_def handleCallAnswer_def
        handleCallEnd_def handleWebRTCSignal_def handleScreenShare_def handleRecordingStart_def
        handleRecordingStop_def)
  then show ?thesis by (simp add: P_def)
qed

lemma handleMessage_outsider:
  assumes "\<forall>msg. readMessage e data = Some msg \<longrightarrow> cmType msg \<noteq> TJoinRoom \<and> \<not> inRooms (cstore s c) (cmRoomID msg)"
  shows "handleMessage e c data s = beforeRoute e c s \<or>
    (\<exists>code t u. handleMessage e c data s = sendError e c code t u (beforeRoute e c s))"
proof (cases rule: handleMessage_cases [of e c data s])
  case (routed msg)
  let ?s = "beforeRoute e c s"
  from assms routed have "cmType msg \<noteq> TJoinRoom" "\<not> inRooms (cstore ?s c) (cmRoomID msg)"
    unfolding inRooms_beforeRoute by simp_all
  with routed(2) routeMessage_outsider [of "msg\<lparr>cmTimestamp := now e\<rparr>" ?s c e] show ?thesis by simp
qed blast

text \<open>
  C18. Outsiders change nothing. Unless it is a request to join, a message from a client that is not in the
  room it names leaves the database, all rooms, the typing indicators, the stored sessions and files and
  every other client as they were; its sender gets at most one message, an error.
\<close>

theorem outsiders_change_nothing:
  assumes "\<forall>msg. readMessage e data = Some msg \<longrightarrow> cmType msg \<noteq> TJoinRoom \<and> \<not> inRooms (cstore s c) (cmRoomID msg)"
  shows "db (handleMessage e c data s) = db s \<and> rooms (handleMessage e c data s) = rooms s \<and>
    typingClients (handleMessage e c data s) = typingClients s \<and> redis (handleMessage e c data s) = redis s \<and>
    files (handleMessage e c data s) = files s \<and>
    (\<forall>d. d \<noteq> c \<longrightarrow> cstore (handleMessage e c data s) d = cstore s d) \<and>
    (cOut (cstore (handleMessage e c data s) c) = cOut (cstore s c) \<or>
     (\<exists>code t u. cOut (cstore (handleMessage e c data s) c) = cOut (cstore s c) @ [errorMessage e code t u]))"
  using handleMessage_outsider [OF assms]
  by (elim disjE exE) (auto simp: sendError_def chat_frame cstore_sendMessage delivered_def)

definition talk :: "string \<Rightarrow> string \<Rightarrow> json \<Rightarrow> byte list \<Rightarrow> json option" where
  "talk ty roomID pl data = Some (JObj [(''type'', JStr ty), (''roomId'', JStr roomID), (''payload'', pl)])"

theorem outsiders_change_nothing_witness:
  "db (handleMessage (demo_env\<lparr>parse := talk ''message'' ''public:b'' JNull\<rparr>) ''c1'' [] demo_chat) = db demo_chat \<and>
   rooms (handleMessage (demo_env\<lparr>parse := talk ''message'' ''public:b'' JNull\<rparr>) ''c1'' [] demo_chat) = rooms demo_chat"
proof -
  let ?e = "demo_env\<lparr>parse := talk ''message'' ''public:b'' JNull\<rparr>"
  have "readMessage ?e [] = Some \<lparr>cmType = ''message'', cmRoomID = ''public:b'', cmMessageID = '''', cmPayload = PRaw JNull,
      cmTimestamp = 0\<rparr>"
    by (simp add: readMessage_def talk_def demo_env_def decodeStruct_def decodeInto_def decodeMember_def findField_def
        envelopeS_def zeroStruct_def toMessage_def strField_def anyField_def)
  moreover have "\<not> inRooms (cstore demo_chat ''c1'') ''public:b''"
    by (simp add: demo_chat_def demo_client_def inRooms_def)
  ultimately show ?thesis
    using outsiders_change_nothing [of ?e "[]" demo_chat "''c1''"] by (simp add: TJoinRoom_def)
qed

section \<open>Who gets into a room\<close>

text \<open>\<open>keeps s s'\<close>: no client entered or left a room, on either side.\<close>

definition keeps :: "'db srv \<Rightarrow> 'db srv \<Rightarrow> bool" where
  "keeps s s' \<longleftrightarrow> rooms s' = rooms s \<and> clients s' = clients s \<and> redis s' = redis s \<and> files s' = files s \<and>
     (\<forall>d. cRooms (cstore s' d) = cRooms (cstore s d))"

lemma keeps_trans: "keeps s t \<Longrightarrow> keeps t u \<Longrightarrow> keeps s u"
  by (simp add: keeps_def)

lemma keeps_same: "same_but_out s s' \<Longrightarrow> keeps s s'"
  by (simp add: keeps_def same_client same_srv)

lemma keeps_simps [simp]:
  "keeps s s" "keeps s (s\<lparr>db := d\<rparr>)" "keeps s (sendMessage c m s)" "keeps s (sendError e c code t u s)"
  "keeps s (broadcastToRoom e r m x s)"
  by (simp_all add: keeps_same) (simp add: keeps_def)

lemma keeps_withPayload:
  "(\<And>p. keeps s (k p s)) \<Longrightarrow> keeps s (withPayload e c msg sch k s)"
  by (simp add: withPayload_def split: option.split)

lemma keeps_saveRow:
  assumes "\<And>s. keeps s (k s)"
  shows "keeps s (saveRow e c t row k s)"
proof -
  have "keeps s (f (s\<lparr>db := d\<rparr>))" if "\<And>s. keeps s (f s)" for d f
    using keeps_trans [OF _ that, of s "s\<lparr>db := d\<rparr>"] by simp
  from this [of k] this [of "sendError e c 500 t u" for u] assms show ?thesis
    by (simp add: saveRow_def split: prod.split option.split)
qed

lemma keeps_publish [simp]: "keeps s (publish e c msg p s)" "keeps s (publishShare e c msg p s)"
  by (simp_all add: publish_def publishShare_def keeps_trans [OF keeps_simps(5) keeps_simps(3)])

lemma keeps_receipt: "keeps s (handleReadReceipt e c msg s)"
proof -
  have "keeps s (broadcastToRoom e r m c (s\<lparr>db := d\<rparr>))" "keeps s (sendError e c code t u (s\<lparr>db := d\<rparr>))" for r m code t u d
    by (rule keeps_trans [OF keeps_simps(2) keeps_simps(5)], rule keeps_trans [OF keeps_simps(2) keeps_simps(4)])
  then show ?thesis
    by (auto simp: handleReadReceipt_def Let_def intro!: keeps_withPayload split: prod.split option.split)
qed

lemma keeps_typing: "keeps s (handleTyping e c msg s)"
proof -
  have "keeps s (updClient c (\<lambda>x. x\<lparr>cIsTyping := f x\<rparr>) (s\<lparr>typingClients := tc\<rparr>))" for f tc
    by (simp add: keeps_def)
  from keeps_trans [OF this keeps_simps(5)] show ?thesis
    by (auto simp: handleTyping_def Let_def split: option.split)
qed

lemma keeps_saving:
  "keeps s (handleChatMessage e c msg s)" "keeps s (handleThreadReply e c msg s)"
  "keeps s (handleFileShare e c msg s)" "keeps s (handleMediaShare e c msg s)"
  unfolding handleChatMessage_def handleThreadReply_def handleFileShare_def handleMediaShare_def Let_def
  by (auto intro!: keeps_withPayload keeps_saveRow split: sum.split)

lemma keeps_routeMessage:
  assumes "cmType msg \<noteq> TJoinRoom" and "cmType msg \<noteq> TLeaveRoom"
  shows "keeps s (routeMessage e c msg s)"
proof -
  have "keeps s (relay e c msg sch fill s)" for sch fill
    unfolding relay_def by (rule keeps_withPayload) simp
  then show ?thesis
    using assms
    by (simp add: keeps_saving keeps_receipt keeps_typing routeMessage_def handleCallInvite_def handleCallAnswer_def handleCallEnd_def
        handleWebRTCSignal_def handleScreenShare_def handleRecordingStart_def handleRecordingStop_def)
qed

text \<open>Where a request to join leads: refused without a trace in the rooms, or into that one room with leave.\<close>

definition mayEnter :: "'db env \<Rightarrow> cid \<Rightarrow> string \<Rightarrow> 'db srv \<Rightarrow> bool" where
  "mayEnter e c r s \<longleftrightarrow>
     (\<exists>room. fst (getOrCreateRoom e r s) = Inr room \<and>
        (rType room = PublicRoom \<or> checkRoomPermission e c r (snd (getOrCreateRoom e r s)) = Inr True))"

lemma sendHistory_same: "same_but_out s (sendHistory e r c s)"
  by (simp add: sendHistory_def split: outcome.split sum.split list.split)

lemma hasClient_handleJoinRoom:
  "hasClient (handleJoinRoom e c msg s) r d \<longleftrightarrow>
   hasClient s r d \<or> (r = cmRoomID msg \<and> d = c \<and> mayEnter e c r s)"
proof -
  obtain res s1 where g: "getOrCreateRoom e (cmRoomID msg) s = (res, s1)" by fastforce
  note fr = getOrCreateRoom_frame [OF g]
  have frame: "hasClient (sendError e c code t u s1) = hasClient s"
    "hasClient (sendMessage c m (broadcastToRoom e r' m' x (sendHistory e r' c s3))) = hasClient s3" for code t u m r' m' x s3
    by (simp_all add: fun_eq_iff chat_frame fr same_srv(8) [OF sendHistory_same])
  show ?thesis
  proof (cases res)
    case (Inl err)
    with g have "handleJoinRoom e c msg s = sendError e c 404 ''Room not found'' err s1"
      by (simp add: handleJoinRoom_def Let_def)
    with g Inl frame(1) show ?thesis by (auto simp: mayEnter_def)
  next
    case (Inr room)
    have "m_has (rooms s1) (cmRoomID msg)" using fr(7) [OF Inr] by (simp add: m_has_def)
    with g Inr frame show ?thesis
      by (auto simp: handleJoinRoom_def Let_def mayEnter_def hasClient_enterRoom fr)
  qed
qed

text \<open>A permission that is granted when a room is set up would have been granted before.\<close>

lemma mayEnter_permission:
  assumes "mayEnter e c r s"
  shows "checkRoomPermission e c r s = Inr True \<or>
    (\<exists>room. map_of (rooms s) r = Some room \<and> rType room = PublicRoom) \<or>
    (\<exists>row. GetRoom (ops e) r (db s) = Inr row \<and> drType row = PublicRoom)"
proof -
  obtain res s1 where g: "getOrCreateRoom e r s = (res, s1)" by fastforce
  note fr = getOrCreateRoom_frame [OF g]
  from assms g obtain room where room: "res = Inr room" "rType room = PublicRoom \<or> checkRoomPermission e c r s1 = Inr True"
    by (auto simp: mayEnter_def)
  have "db s1 = db s \<or> hasPrefix r ''dm:''"
    using g by (auto simp: getOrCreateRoom_def Let_def roomTypeOf_def room_type_defs split: option.splits if_splits sum.splits prod.splits)
  then have same: "checkRoomPermission e c r s1 = checkRoomPermission e c r s"
    by (auto simp: checkRoomPermission_def fr)
  have "rType room = PublicRoom \<Longrightarrow> hasPrefix r ''public:'' \<or>
      (\<exists>room. map_of (rooms s) r = Some room \<and> rType room = PublicRoom) \<or>
      (\<exists>row. GetRoom (ops e) r (db s) = Inr row \<and> drType row = PublicRoom)"
    using g room(1) by (auto simp: getOrCreateRoom_def Let_def roomTypeOf_def createRoomRow_def room_type_defs
        split: option.splits if_splits sum.splits prod.splits)
  moreover have "hasPrefix r ''public:'' \<Longrightarrow> checkRoomPermission e c r s = Inr True"
    by (simp add: checkRoomPermission_def)
  ultimately show ?thesis using room(2) same by auto
qed

text \<open>
  C13. Access control. The only clients a message can bring into a room are its sender into the room it
  names, by a request to join, and only if that room is public or the permission check
  (name prefix, conversation partner, or membership in the database) allows it.
\<close>

theorem joining_needs_permission:
  assumes "hasClient (handleMessage e c data s) r d" and "\<not> hasClient s r d"
  shows "d = c \<and> (\<exists>msg. readMessage e data = Some msg \<and> cmType msg = TJoinRoom \<and> cmRoomID msg = r) \<and>
    (checkRoomPermission e c r s = Inr True \<or>
     (\<exists>room. map_of (rooms s) r = Some room \<and> rType room = PublicRoom) \<or>
     (\<exists>row. GetRoom (ops e) r (db s) = Inr row \<and> drType row = PublicRoom))"
proof (cases rule: handleMessage_cases [of e c data s])
  case (refused code t u)
  with assms show ?thesis by (simp add: chat_frame)
next
  case (routed msg)
  let ?s = "beforeRoute e c s" and ?msg = "msg\<lparr>cmTimestamp := now e\<rparr>"
  show ?thesis
  proof (cases "cmType msg = TJoinRoom")
    case True
    then have "handleMessage e c data s = handleJoinRoom e c ?msg ?s" by (simp add: routed routeMessage_def)
    with assms have enter: "r = cmRoomID msg" "d = c" "mayEnter e c r ?s" by (auto simp: hasClient_handleJoinRoom)
    moreover have "checkRoomPermission e c r ?s = checkRoomPermission e c r s"
      by (rule checkRoomPermission_frame) simp_all
    ultimately show ?thesis using mayEnter_permission [OF enter(3)] routed(1) True by auto
  next
    case False
    have "hasClient (routeMessage e c ?msg ?s) r d \<Longrightarrow> hasClient s r d"
    proof (cases "cmType msg = TLeaveRoom")
      case True
      assume "hasClient (routeMessage e c ?msg ?s) r d"
      with True False show ?thesis
        by (auto simp: routeMessage_def handleLeaveRoom_def Let_def chat_frame hasClient_dropFromRoom split: if_splits)
    next
      assume "cmType msg \<noteq> TLeaveRoom" and h: "hasClient (routeMessage e c ?msg ?s) r d"
      with False have "keeps ?s (routeMessage e c ?msg ?s)" by (intro keeps_routeMessage) simp_all
      with h show ?thesis by (simp add: keeps_def hasClient_def)
    qed
    with assms routed show ?thesis by simp
  qed
qed

theorem joining_needs_permission_witness:
  "hasClient (handleMessage (demo_env\<lparr>parse := talk ''join_room'' ''public:b'' JNull\<rparr>) ''c1'' [] demo_chat) ''public:b'' ''c1'' \<and>
   checkRoomPermission (demo_env\<lparr>parse := talk ''join_room'' ''public:b'' JNull\<rparr>) ''c1'' ''public:b'' demo_chat = Inr True"
proof
  let ?e = "demo_env\<lparr>parse := talk ''join_room'' ''public:b'' JNull\<rparr>"
  let ?msg = "\<lparr>cmType = ''join_room'', cmRoomID = ''public:b'', cmMessageID = '''', cmPayload = PRaw JNull, cmTimestamp = 0\<rparr>"
  have "readMessage ?e [] = Some ?msg"
    by (simp add: readMessage_def talk_def demo_env_def decodeStruct_def decodeInto_def decodeMember_def findField_def
        envelopeS_def zeroStruct_def toMessage_def strField_def anyField_def)
  then have "handleMessage ?e ''c1'' [] demo_chat = handleJoinRoom ?e ''c1'' (?msg\<lparr>cmTimestamp := 0\<rparr>) (beforeRoute ?e ''c1'' demo_chat)"
    by (simp add: handleMessage_def validateMessage_def routeMessage_def type_defs Let_def case_prod_unfold beforeRoute_def
        checkRateLimit_def takeSlot_def demo_chat_def demo_srv_def demo_env_def)
  moreover have "mayEnter ?e ''c1'' ''public:b'' (beforeRoute ?e ''c1'' demo_chat)"
    by (simp add: mayEnter_def getOrCreateRoom_def demo_chat_def roomTypeOf_def hasPrefix_def Let_def)
  ultimately show h: "hasClient (handleMessage ?e ''c1'' [] demo_chat) ''public:b'' ''c1''"
    by (simp add: hasClient_handleJoinRoom)
  have "\<not> hasClient demo_chat ''public:b'' ''c1''" by (simp add: hasClient_def demo_chat_def)
  from joining_needs_permission [OF h this] show "checkRoomPermission ?e ''c1'' ''public:b'' demo_chat = Inr True"
    by (auto simp: demo_chat_def demo_env_def inMemory_def memGetRoom_def demo_srv_def NewInMemoryDB_def)
qed

end
