(* ===== verification/ChatSession.thy ===== *)
theory ChatSession
  imports ChatSafety
begin

text \<open>
  \<^verbatim>\<open>chat/server.go\<close>, third part: connections coming and going, uploads, the typing indicators, and
  the rooms made by the server itself.
\<close>

section \<open>Connections\<close>

text \<open>
  \<^verbatim>\<open>redisGet\<close> is what Redis answers for a key: \<^const>\<open>None\<close> when it fails, has nothing or holds no
  session.
\<close>

definition sessionKey :: "string \<Rightarrow> string" where
  "sessionKey sessionID = ''session:'' @ sessionID"

definition sessionOf :: "'db env \<Rightarrow> string \<Rightarrow> int \<Rightarrow> Client \<Rightarrow> SessionState" where
  "sessionOf e sessionID t x =
     \<lparr>ssSessionID = sessionID, ssUserID = cUserID x, ssUsername = cUsername x, ssRooms = ord e (m_keys (cRooms x)),
      ssLastSeen = t\<rparr>"

definition handleNewConnectionWithUser ::
  "'db env \<Rightarrow> (string \<Rightarrow> SessionState option) \<Rightarrow> string \<Rightarrow> string \<Rightarrow> string \<Rightarrow> 'db srv \<Rightarrow> cid \<times> 'db srv" where
  "handleNewConnectionWithUser e redisGet userID username sessionID s =
     (let clientID = generateClientID e;
          restored = (if sessionID \<noteq> '''' then redisGet (sessionKey sessionID) else None);
          client = \<lparr>cUserID = (case restored of Some ss \<Rightarrow> ssUserID ss | None \<Rightarrow> userID),
                    cUsername = (case restored of Some ss \<Rightarrow> ssUsername ss | None \<Rightarrow> username),
                    cRooms = (case restored of Some ss \<Rightarrow> fold (\<lambda>r m. m_put r True m) (ssRooms ss) [] | None \<Rightarrow> []),
                    cLastSeen = now e, cIsTyping = [], cOut = [], cBroken = False\<rparr>
      in (clientID,
          s\<lparr>clients := m_put clientID clientID (clients s), cstore := (cstore s)(clientID := client),
            redis := m_put (sessionKey sessionID) (sessionOf e sessionID (cLastSeen client) client) (redis s)\<rparr>))"

definition hexDigit :: "nat \<Rightarrow> char" where
  "hexDigit n = ''0123456789abcdef'' ! n"

definition hexText :: "byte list \<Rightarrow> string" where
  "hexText bs = concat (map (\<lambda>b. [hexDigit (unat b div 16), hexDigit (unat b mod 16)]) bs)"

text \<open>\<^verbatim>\<open>handleNewConnection\<close>: the negotiated subprotocol serves as session id; names come from the clock.\<close>

definition handleNewConnection ::
  "'db env \<Rightarrow> (string \<Rightarrow> SessionState option) \<Rightarrow> string \<Rightarrow> 'db srv \<Rightarrow> cid \<times> 'db srv" where
  "handleNewConnection e redisGet proto s =
     (let sessionID = (if proto \<noteq> '''' then proto else hexText (take 16 (rnd e)))
      in handleNewConnectionWithUser e redisGet (''user_'' @ intText (unix e)) (''User_'' @ intText (unix e mod 1000))
           sessionID s)"

definition originAllowed :: "SecurityConfig \<Rightarrow> string \<Rightarrow> bool" where
  "originAllowed sec origin \<longleftrightarrow>
     AllowedOrigins sec = [] \<or> list_ex (\<lambda>allowed. allowed = ''*'' \<or> allowed = origin) (AllowedOrigins sec)"

section \<open>Disconnecting\<close>

definition leaveOne :: "'db env \<Rightarrow> cid \<Rightarrow> string \<Rightarrow> 'db srv \<Rightarrow> 'db srv" where
  "leaveOne e c roomID s =
     dropFromRoom roomID c
       (broadcastToRoom e roomID (presenceMessage e TUserLeft roomID (cstore s c) ''offline'') c s)"

definition handleClientDisconnect :: "'db env \<Rightarrow> cid \<Rightarrow> 'db srv \<Rightarrow> 'db srv" where
  "handleClientDisconnect e c s =
     (let s1 = fold (leaveOne e c) (ord e (m_keys (cRooms (cstore s c)))) s;
          s2 = s1\<lparr>typingClients := map (\<lambda>(r, m). (r, m_del c m)) (typingClients s1), clients := m_del c (clients s1),
                  rateLimiters := m_del c (rateLimiters s1)\<rparr>
      in s2\<lparr>redis := m_put (sessionKey '''') (sessionOf e '''' (now e) (cstore s2 c)) (redis s2)\<rparr>)"

section \<open>Uploads\<close>

text \<open>The text part of \<^verbatim>\<open>OnMessage\<close>: metadata of a file or a recording is kept for the next binary message.\<close>

definition someRoom :: "'db env \<Rightarrow> cid \<Rightarrow> 'db srv \<Rightarrow> string" where
  "someRoom e c s = (case ord e (m_keys (cRooms (cstore s c))) of [] \<Rightarrow> '''' | r # _ \<Rightarrow> r)"

definition withRoom :: "'db env \<Rightarrow> cid \<Rightarrow> 'db srv \<Rightarrow> struct \<Rightarrow> struct" where
  "withRoom e c s meta = (if strField meta ''roomId'' = '''' then setStr ''roomId'' (someRoom e c s) meta else meta)"

definition stashMeta :: "'db env \<Rightarrow> cid \<Rightarrow> byte list \<Rightarrow> 'db srv \<Rightarrow> 'db srv" where
  "stashMeta e c data s =
     (case readMessage e data of
        None \<Rightarrow> s
      | Some msg \<Rightarrow>
          if cmType msg = TFileShare
          then (case parsePayload e (cmPayload msg) FileSharePayload of
                  None \<Rightarrow> s
                | Some meta \<Rightarrow> s\<lparr>pendingFileMeta := m_put c (withRoom e c s meta) (pendingFileMeta s)\<rparr>)
          else if cmType msg = TMediaShare
          then (case parsePayload e (cmPayload msg) MediaSharePayload of
                  None \<Rightarrow> s
                | Some meta \<Rightarrow> s\<lparr>pendingMediaMeta := m_put c (withRoom e c s meta) (pendingMediaMeta s)\<rparr>)
          else s)"

text \<open>\<^verbatim>\<open>filepath.Ext\<close>: from the last dot of the last path element.\<close>

definition fileExt :: "string \<Rightarrow> string" where
  "fileExt path =
     (let tl = takeWhile (\<lambda>c. c \<noteq> CHR ''/'' \<and> c \<noteq> CHR ''.'') (rev path)
      in case drop (length tl) (rev path) of
           [] \<Rightarrow> ''''
         | c # _ \<Rightarrow> if c = CHR ''.'' then CHR ''.'' # rev tl else '''')"

definition saveUploadedFile :: "'db env \<Rightarrow> byte list \<Rightarrow> string \<Rightarrow> 'db srv \<Rightarrow> string option \<times> 'db srv" where
  "saveUploadedFile e data filename s =
     (case writeErr e of
        Some err \<Rightarrow> (Some err, s)
      | None \<Rightarrow> (None, s\<lparr>files := m_put (''uploads/'' @ filename) data (files s)\<rparr>))"

text \<open>How both uploads end: the row (its error is dropped), the broadcast, the acknowledgment.\<close>

definition announceUpload ::
  "'db env \<Rightarrow> cid \<Rightarrow> string \<Rightarrow> string \<Rightarrow> string \<Rightarrow> DBMessage \<Rightarrow> struct \<Rightarrow> 'db srv \<Rightarrow> 'db srv" where
  "announceUpload e c ty roomID fileID row p s =
     sendMessage c (ackMessage e roomID fileID StatusSent)
       (broadcastToRoom e roomID
         \<lparr>cmType = ty, cmRoomID = roomID, cmMessageID = '''', cmPayload = PStruct p, cmTimestamp = now e\<rparr> ''''
         (s\<lparr>db := snd (SaveMessage (ops e) row (db s))\<rparr>))"

definition handleBinaryMessage :: "'db env \<Rightarrow> cid \<Rightarrow> byte list \<Rightarrow> string \<Rightarrow> string \<Rightarrow> string \<Rightarrow> 'db srv \<Rightarrow> 'db srv" where
  "handleBinaryMessage e c data fileType fileName roomID s =
     (let fileID = generateMessageID e; storedName = fileID @ fileExt fileName; x = cstore s c
      in case saveUploadedFile e data storedName s of
           (Some err, s1) \<Rightarrow> sendError e c 500 ''Failed to save file'' err s1
         | (None, s1) \<Rightarrow>
             announceUpload e c TFileShare roomID fileID
               ((emptyRow fileID roomID (cUserID x) ''[File uploaded]'' (now e) TFileShare)
                  \<lparr>dmFileName := Some fileName, dmFileSize := Some (int (length data)), dmFileType := Some fileType,
                   dmFileURL := Some (''/files/'' @ storedName)\<rparr>)
               (setSender x (setStr ''messageId'' fileID (setStr ''fileName'' fileName
                 (m_put ''fileSize'' (JNum (int (length data))) (setStr ''fileType'' fileType
                   (setStr ''fileUrl'' (''/files/'' @ storedName) (setStr ''roomId'' roomID (zeroStruct FileSharePayload)))))))) s1)"

definition handleBinaryMediaMessage :: "'db env \<Rightarrow> cid \<Rightarrow> byte list \<Rightarrow> struct \<Rightarrow> 'db srv \<Rightarrow> 'db srv" where
  "handleBinaryMediaMessage e c data meta s =
     (let fileID = generateMessageID e; mediaType = strField meta ''mediaType''; roomID = strField meta ''roomId'';
          ext = (if mediaType = ''audio'' then ''.webm'' else if mediaType = ''video'' then ''.webm''
                 else if mediaType = ''screen'' then ''.webm'' else '''');
          storedName = fileID @ ext; x = cstore s c
      in case saveUploadedFile e data storedName s of
           (Some err, s1) \<Rightarrow> sendError e c 500 ''Failed to save media'' err s1
         | (None, s1) \<Rightarrow>
             announceUpload e c TMediaShare roomID fileID
               ((emptyRow fileID roomID (cUserID x) ''[Media uploaded]'' (now e) TMediaShare)
                  \<lparr>dmMediaType := Some mediaType, dmFileURL := Some (''/files/'' @ storedName)\<rparr>)
               (setSender x (setStr ''messageId'' fileID (setStr ''mediaType'' mediaType
                 (setStr ''fileUrl'' (''/files/'' @ storedName) (setStr ''roomId'' roomID
                   (zeroStruct MediaSharePayload)))))) s1)"

text \<open>\<^verbatim>\<open>OnMessage\<close>: text and binary messages.\<close>

definition onText :: "'db env \<Rightarrow> cid \<Rightarrow> byte list \<Rightarrow> 'db srv \<Rightarrow> 'db srv" where
  "onText e c data s = handleMessage e c data (stashMeta e c data s)"

definition onBinary :: "'db env \<Rightarrow> cid \<Rightarrow> byte list \<Rightarrow> 'db srv \<Rightarrow> 'db srv" where
  "onBinary e c data s =
     (let fileMeta = map_of (pendingFileMeta s) c; mediaMeta = map_of (pendingMediaMeta s) c;
          s1 = s\<lparr>pendingFileMeta := m_del c (pendingFileMeta s), pendingMediaMeta := m_del c (pendingMediaMeta s)\<rparr>
      in case fileMeta of
           Some m \<Rightarrow> handleBinaryMessage e c data (strField m ''fileType'') (strField m ''fileName'') (strField m ''roomId'') s1
         | None \<Rightarrow>
             (case mediaMeta of
                Some m \<Rightarrow> handleBinaryMediaMessage e c data m s1
              | None \<Rightarrow> sendError e c 400 ''No file metadata for binary upload'' ''Send metadata before binary data'' s1))"

section \<open>Typing indicators\<close>

definition typingStopMessage :: "'db env \<Rightarrow> string \<Rightarrow> Client \<Rightarrow> ChatMessage" where
  "typingStopMessage e roomID x =
     \<lparr>cmType = TTypingStop, cmRoomID = roomID, cmMessageID = '''',
      cmPayload = PStruct (m_put ''isTyping'' (JBool False) (setSender x (zeroStruct TypingPayload))), cmTimestamp = now e\<rparr>"

text \<open>One entry of one room at a tick: removed when older than ten seconds, and its client's room told.\<close>

definition expireOne :: "'db env \<Rightarrow> string \<Rightarrow> cid \<times> int \<Rightarrow> 'db srv \<Rightarrow> 'db srv" where
  "expireOne e roomID entry s =
     (let c = fst entry
      in if now e - snd entry > 10 * 10 ^ 9
         then let s1 = s\<lparr>typingClients := (case map_of (typingClients s) roomID of
                    None \<Rightarrow> typingClients s | Some m \<Rightarrow> m_put roomID (m_del c m) (typingClients s))\<rparr>
              in if m_has (clients s1) c
                 then let s2 = updClient c (\<lambda>x. x\<lparr>cIsTyping := m_put roomID False (cIsTyping x)\<rparr>) s1
                      in broadcastToRoom e roomID (typingStopMessage e roomID (cstore s2 c)) c s2
                 else s1
         else s)"

definition expireRoom :: "'db env \<Rightarrow> string \<Rightarrow> 'db srv \<Rightarrow> 'db srv" where
  "expireRoom e roomID s =
     (let entries = (case map_of (typingClients s) roomID of None \<Rightarrow> [] | Some m \<Rightarrow> m);
          s1 = fold (expireOne e roomID) (map (\<lambda>c. (c, the (map_of entries c))) (ord e (m_keys entries))) s
      in if map_of (typingClients s1) roomID = Some [] then s1\<lparr>typingClients := m_del roomID (typingClients s1)\<rparr> else s1)"

definition cleanupTypingIndicators :: "'db env \<Rightarrow> 'db srv \<Rightarrow> 'db srv" where
  "cleanupTypingIndicators e s = fold (expireRoom e) (ord e (m_keys (typingClients s))) s"

section \<open>Rooms made by the server\<close>

definition defaultRoom :: "'db env \<Rightarrow> string \<times> string \<Rightarrow> 'db srv \<Rightarrow> 'db srv" where
  "defaultRoom e room s =
     putRoom (fst room) \<lparr>rType = PublicRoom, rName = snd room, rClients = [], rCreated = now e\<rparr>
       (s\<lparr>db := snd (CreateRoom (ops e) (createRoomRow e (fst room) PublicRoom (snd room)) (db s))\<rparr>)"

definition initializeDefaultRooms :: "'db env \<Rightarrow> 'db srv \<Rightarrow> 'db srv" where
  "initializeDefaultRooms e s =
     fold (defaultRoom e) [(''public:lobby'', ''General Lobby''), (''public:random'', ''Random Chat''), (''public:help'', ''Help & Support'')] s"

definition newMember :: "'db env \<Rightarrow> string \<Rightarrow> string \<Rightarrow> string \<Rightarrow> DBRoomMember" where
  "newMember e roomID userID role = \<lparr>mbRoomID = roomID, mbUserID = userID, mbRole = role, mbJoinedAt = now e\<rparr>"

fun addMembers :: "'db env \<Rightarrow> string \<Rightarrow> (string \<times> string) list \<Rightarrow> 'db \<Rightarrow> string option \<times> 'db" where
  "addMembers e roomID [] d = (None, d)"
| "addMembers e roomID ((u, role) # us) d =
     (case AddRoomMember (ops e) (newMember e roomID u role) d of
        (Some err, d') \<Rightarrow> (Some err, d')
      | (None, d') \<Rightarrow> addMembers e roomID us d')"

definition makeRoom ::
  "'db env \<Rightarrow> string \<Rightarrow> string \<Rightarrow> string \<Rightarrow> (string \<times> string) list \<Rightarrow> 'db srv \<Rightarrow> (string + string) \<times> 'db srv" where
  "makeRoom e roomID ty name members s =
     (case CreateRoom (ops e) (createRoomRow e roomID ty name) (db s) of
        (Some err, d) \<Rightarrow> (Inl err, s\<lparr>db := d\<rparr>)
      | (None, d) \<Rightarrow>
          (case addMembers e roomID members d of
             (Some err, d') \<Rightarrow> (Inl err, s\<lparr>db := d'\<rparr>)
           | (None, d') \<Rightarrow> (Inr roomID, s\<lparr>db := d'\<rparr>)))"

definition CreateGroupRoom :: "'db env \<Rightarrow> string \<Rightarrow> string \<Rightarrow> 'db srv \<Rightarrow> (string + string) \<times> 'db srv" where
  "CreateGroupRoom e name creatorID s =
     makeRoom e (''group:'' @ randomString e 16) GroupRoom name [(creatorID, ''owner'')] s"

definition conversationID :: "string \<Rightarrow> string \<Rightarrow> string" where
  "conversationID u1 u2 = (let us = sort [u1, u2] in ''dm:'' @ us ! 0 @ ''_'' @ us ! 1)"

definition CreateDMRoom :: "'db env \<Rightarrow> string \<Rightarrow> string \<Rightarrow> 'db srv \<Rightarrow> (string + string) \<times> 'db srv" where
  "CreateDMRoom e userID1 userID2 s =
     (let users = sort [userID1, userID2]; roomID = conversationID userID1 userID2
      in case GetRoom (ops e) roomID (db s) of
           Inr _ \<Rightarrow> (Inr roomID, s)
         | Inl _ \<Rightarrow> makeRoom e roomID DMRoom (''DM: '' @ users ! 0 @ '', '' @ users ! 1)
               (map (\<lambda>u. (u, ''member'')) users) s)"

end
