(* ===== verification/ChatHttp.thy ===== *)
theory ChatHttp
  imports ChatSession
begin

text \<open>
  \<^verbatim>\<open>chat/http.go\<close> and the part of \<^verbatim>\<open>chat/server.go\<close> that serves it: the handlers of the REST interface,
  the routes, and the CORS wrapper. A handler gets the request and the response headers set so
  far, and gives the response and the new state of the chat server.
\<close>

section \<open>Requests and responses\<close>

text \<open>
  A request as the handlers see it: \<open>rqQuery\<close>, \<open>rqHeader\<close> and \<open>rqFormValue\<close> are the \<^verbatim>\<open>Get\<close> and \<^verbatim>\<open>FormValue\<close>
  calls, \<open>rqBody\<close> the value that \<^verbatim>\<open>json.Decoder\<close> reads from the body (if any), \<open>rqFiles\<close> the files of
  the parsed form (if it parses). Of a file, \<open>fhRead\<close> is what the buffer holds after the call of
  \<^verbatim>\<open>Read\<close>, if that gives no error.
\<close>

record FileHeader =
  fhFilename :: string
  fhSize :: int
  fhType :: string
  fhOpens :: bool
  fhRead :: "byte list option"

record request =
  rqMethod :: string
  rqPath :: string
  rqQuery :: "string \<Rightarrow> string"
  rqHeader :: "string \<Rightarrow> string"
  rqRemoteAddr :: string
  rqBody :: "json option"
  rqFiles :: "FileHeader list option"
  rqFormValue :: "string \<Rightarrow> string"

text \<open>What \<^verbatim>\<open>GetRoomMembers\<close> tells of a client, and the upload handler of a file.\<close>

record Member =
  mUserID :: string
  mUsername :: string
  mClientID :: cid
  mOnline :: bool
  mLastSeen :: int

record FileInfo =
  fiID :: string
  fiName :: string
  fiSize :: int
  fiType :: string
  fiMessageID :: string
  fiURL :: string

text \<open>The body of a response before it is printed. (An empty list may be printed as \<^verbatim>\<open>null\<close>.)\<close>

datatype body =
    BEmpty
  | BText string
  | BRooms "DBRoom list"
  | BMessages "DBMessage list"
  | BMembers string "Member list" nat
  | BCreated string
  | BUploads "FileInfo list" nat
  | BUsers "(string \<times> string) list" nat
  | BFile "byte list"
  | BPage string

type_synonym headers = "(string, string) gomap"

record response =
  rsStatus :: int
  rsHeaders :: headers
  rsBody :: body

definition httpError :: "headers \<Rightarrow> string \<Rightarrow> int \<Rightarrow> response" where
  "httpError h text code =
     \<lparr>rsStatus = code, rsHeaders = m_put ''X-Content-Type-Options'' ''nosniff''
        (m_put ''Content-Type'' ''text/plain; charset=utf-8'' h), rsBody = BText text\<rparr>"

definition httpJSON :: "headers \<Rightarrow> body \<Rightarrow> response" where
  "httpJSON h b = \<lparr>rsStatus = 200, rsHeaders = m_put ''Content-Type'' ''application/json'' h, rsBody = b\<rparr>"

definition noContent :: "headers \<Rightarrow> response" where
  "noContent h = \<lparr>rsStatus = 204, rsHeaders = h, rsBody = BEmpty\<rparr>"

definition notFound :: "headers \<Rightarrow> response" where
  "notFound h = httpError h ''404 page not found'' 404"

text \<open>\<^verbatim>\<open>strconv.Atoi\<close>: a sign, digits, the range of \<^verbatim>\<open>int\<close>.\<close>

fun digits :: "int \<Rightarrow> string \<Rightarrow> int option" where
  "digits acc [] = Some acc"
| "digits acc (c # s) =
     (if 48 \<le> code_of c \<and> code_of c \<le> 57 then digits (10 * acc + (int (code_of c) - 48)) s else None)"

definition inInt :: "int \<Rightarrow> int option" where
  "inInt i = (if - (2 ^ 63) \<le> i \<and> i < 2 ^ 63 then Some i else None)"

definition Atoi :: "string \<Rightarrow> int option" where
  "Atoi s =
     (case s of
        [] \<Rightarrow> None
      | c # t \<Rightarrow>
          if c = CHR ''-'' then (if t = [] then None else Option.bind (digits 0 t) (\<lambda>i. inInt (- i)))
          else if c = CHR ''+'' then (if t = [] then None else Option.bind (digits 0 t) inInt)
          else Option.bind (digits 0 s) inInt)"

section \<open>Rooms and messages\<close>

definition GetRoomsHandler :: "'db env \<Rightarrow> request \<Rightarrow> headers \<Rightarrow> 'db srv \<Rightarrow> response" where
  "GetRoomsHandler e r h s =
     (let userID = (if rqQuery r ''user_id'' = '''' then rqHeader r ''X-User-ID'' else rqQuery r ''user_id'')
      in if userID = '''' then httpError h ''User ID required'' 400
         else case GetUserRooms (ops e) userID (db s) of
                Inl _ \<Rightarrow> httpError h ''Failed to get rooms'' 500
              | Inr rs \<Rightarrow> httpJSON h (BRooms rs))"

text \<open>The parts of the path behind \<^verbatim>\<open>/api/rooms/\<close>.\<close>

definition roomPath :: "request \<Rightarrow> string" where
  "roomPath r = trimPrefix (rqPath r) ''/api/rooms/''"

definition pathParts :: "request \<Rightarrow> string list" where
  "pathParts r = splitOn CHR ''/'' (roomPath r)"

definition pageLimit :: "string \<Rightarrow> int" where
  "pageLimit text = (if text \<noteq> '''' then (case Atoi text of Some l \<Rightarrow> if l > 0 \<and> l \<le> 1000 then l else 50 | None \<Rightarrow> 50) else 50)"

definition pageOffset :: "string \<Rightarrow> int" where
  "pageOffset text = (if text \<noteq> '''' then (case Atoi text of Some i \<Rightarrow> if i \<ge> 0 then i else 0 | None \<Rightarrow> 0) else 0)"

definition GetMessagesHandler :: "'db env \<Rightarrow> request \<Rightarrow> headers \<Rightarrow> 'db srv \<Rightarrow> response outcome" where
  "GetMessagesHandler e r h s =
     (if length (pathParts r) < 2 \<or> pathParts r ! 1 \<noteq> ''messages'' then Returned (httpError h ''Invalid URL format'' 400)
      else case GetMessages (ops e) (pathParts r ! 0) (pageLimit (rqQuery r ''limit'')) (pageOffset (rqQuery r ''offset'')) (db s) of
             Panicked \<Rightarrow> Panicked
           | Returned (Inl _) \<Rightarrow> Returned (httpError h ''Failed to get messages'' 500)
           | Returned (Inr msgs) \<Rightarrow> Returned (httpJSON h (BMessages msgs)))"

definition GetThreadHandler :: "'db env \<Rightarrow> request \<Rightarrow> headers \<Rightarrow> 'db srv \<Rightarrow> response" where
  "GetThreadHandler e r h s =
     (if rqQuery r ''parent'' = '''' then httpError h ''Parent message ID required'' 400
      else case GetThreadMessages (ops e) (rqQuery r ''parent'') (db s) of
             Inl _ \<Rightarrow> httpError h ''Failed to get thread messages'' 500
           | Inr msgs \<Rightarrow> httpJSON h (BMessages msgs))"

text \<open>\<^verbatim>\<open>Server.GetRoomMembers\<close>.\<close>

definition memberOf :: "'db srv \<Rightarrow> cid \<Rightarrow> Member" where
  "memberOf s c = \<lparr>mUserID = cUserID (cstore s c), mUsername = cUsername (cstore s c), mClientID = c, mOnline = True,
     mLastSeen = cLastSeen (cstore s c)\<rparr>"

definition onlineMembers :: "'db env \<Rightarrow> string \<Rightarrow> 'db srv \<Rightarrow> Member list" where
  "onlineMembers e roomID s =
     (case map_of (rooms s) roomID of
        None \<Rightarrow> []
      | Some room \<Rightarrow> map (memberOf s) (ord e (m_keys (rClients room))))"

definition GetRoomMembersHandler :: "'db env \<Rightarrow> request \<Rightarrow> headers \<Rightarrow> 'db srv \<Rightarrow> response" where
  "GetRoomMembersHandler e r h s =
     (if length (pathParts r) < 2 \<or> pathParts r ! 1 \<noteq> ''members'' then httpError h ''Invalid URL format'' 400
      else let members = onlineMembers e (pathParts r ! 0) s
           in httpJSON h (BMembers (pathParts r ! 0) members (length members)))"

text \<open>The anonymous structs that request bodies are decoded into.\<close>

definition createRequest :: schema where
  "createRequest = [(''name'', KStr), (''type'', KStr), (''userId'', KStr), (''userId2'', KStr)]"

definition userRequest :: schema where
  "userRequest = [(''userId'', KStr)]"

definition decodeBody :: "'db env \<Rightarrow> schema \<Rightarrow> request \<Rightarrow> struct option" where
  "decodeBody e sch r = Option.bind (rqBody r) (decodeStruct (timeOk e) sch)"

definition CreateRoomHandler :: "'db env \<Rightarrow> request \<Rightarrow> headers \<Rightarrow> 'db srv \<Rightarrow> response \<times> 'db srv" where
  "CreateRoomHandler e r h s =
     (if rqMethod r \<noteq> ''POST'' then (httpError h ''Method not allowed'' 405, s)
      else case decodeBody e createRequest r of
        None \<Rightarrow> (httpError h ''Invalid request body'' 400, s)
      | Some q \<Rightarrow>
          if strField q ''name'' = '''' \<or> strField q ''type'' = '''' \<or> strField q ''userId'' = ''''
          then (httpError h ''Name, type, and userId are required'' 400, s)
          else let answer = (\<lambda>res. case fst res of
                     Inl _ \<Rightarrow> (httpError h ''Failed to create room'' 500, snd res)
                   | Inr roomID \<Rightarrow> (httpJSON h (BCreated roomID), snd res))
               in if strField q ''type'' = ''group''
                  then answer (CreateGroupRoom e (strField q ''name'') (strField q ''userId'') s)
                  else if strField q ''type'' = ''dm''
                  then (if strField q ''userId2'' = '''' then (httpError h ''userId2 required for DM rooms'' 400, s)
                        else answer (CreateDMRoom e (strField q ''userId'') (strField q ''userId2'') s))
                  else (httpError h ''Invalid room type'' 400, s))"

section \<open>Administration\<close>

definition DeleteRoomHandler :: "'db env \<Rightarrow> request \<Rightarrow> headers \<Rightarrow> 'db srv \<Rightarrow> response \<times> 'db srv" where
  "DeleteRoomHandler e r h s =
     (if rqMethod r \<noteq> ''DELETE'' then (httpError h ''Method not allowed'' 405, s)
      else if roomPath r = '''' then (httpError h ''Room ID required'' 400, s)
      else case DeleteRoom (ops e) (roomPath r) (db s) of
             (Some _, d) \<Rightarrow> (httpError h ''Failed to delete room'' 500, s\<lparr>db := d\<rparr>)
           | (None, d) \<Rightarrow> (noContent h, s\<lparr>db := d\<rparr>))"

text \<open>How the three handlers for one user of a room begin.\<close>

definition withUser ::
  "'db env \<Rightarrow> request \<Rightarrow> headers \<Rightarrow> (string \<Rightarrow> 'db srv \<Rightarrow> response \<times> 'db srv) \<Rightarrow> 'db srv \<Rightarrow> response \<times> 'db srv" where
  "withUser e r h k s =
     (if rqMethod r \<noteq> ''POST'' then (httpError h ''Method not allowed'' 405, s)
      else case decodeBody e userRequest r of
             None \<Rightarrow> (httpError h ''userId required'' 400, s)
           | Some q \<Rightarrow> if strField q ''userId'' = '''' then (httpError h ''userId required'' 400, s) else k (strField q ''userId'') s)"

definition InviteUserHandler :: "'db env \<Rightarrow> request \<Rightarrow> headers \<Rightarrow> 'db srv \<Rightarrow> response \<times> 'db srv" where
  "InviteUserHandler e r h s =
     withUser e r h
       (\<lambda>u s. case AddRoomMember (ops e) (newMember e (trimSuffix (roomPath r) ''/invite'') u ''member'') (db s) of
            (Some _, d) \<Rightarrow> (httpError h ''Failed to invite user'' 500, s\<lparr>db := d\<rparr>)
          | (None, d) \<Rightarrow> (noContent h, s\<lparr>db := d\<rparr>)) s"

definition RemoveUserHandler :: "'db env \<Rightarrow> request \<Rightarrow> headers \<Rightarrow> 'db srv \<Rightarrow> response \<times> 'db srv" where
  "RemoveUserHandler e r h s =
     withUser e r h
       (\<lambda>u s. case RemoveRoomMember (ops e) (trimSuffix (roomPath r) ''/remove'') u (db s) of
            (Some _, d) \<Rightarrow> (httpError h ''Failed to remove user'' 500, s\<lparr>db := d\<rparr>)
          | (None, d) \<Rightarrow> (noContent h, s\<lparr>db := d\<rparr>)) s"

text \<open>Banning is not implemented: the request is checked and nothing happens.\<close>

definition BanUserHandler :: "'db env \<Rightarrow> request \<Rightarrow> headers \<Rightarrow> 'db srv \<Rightarrow> response \<times> 'db srv" where
  "BanUserHandler e r h s = withUser e r h (\<lambda>u s. (noContent h, s)) s"

definition GetUsersHandler :: "'db env \<Rightarrow> headers \<Rightarrow> 'db srv \<Rightarrow> response" where
  "GetUsersHandler e h s =
     (let users = map (\<lambda>c. (cUserID (cstore s c), cUsername (cstore s c))) (ord e (m_keys (clients s)))
      in httpJSON h (BUsers users (length users)))"

section \<open>Uploads over HTTP\<close>

text \<open>
  The client that an upload speaks for: the first one visited with the user id of the header. None
  online, and the message is dropped.
\<close>

definition clientOf :: "'db env \<Rightarrow> string \<Rightarrow> 'db srv \<Rightarrow> cid option" where
  "clientOf e userID s = List.find (\<lambda>c. cUserID (cstore s c) = userID) (ord e (m_keys (clients s)))"

definition handleFileShareFromHTTP :: "'db env \<Rightarrow> string \<Rightarrow> ChatMessage \<Rightarrow> 'db srv \<Rightarrow> 'db srv" where
  "handleFileShareFromHTTP e userID msg s =
     (case clientOf e userID s of None \<Rightarrow> s | Some c \<Rightarrow> handleFileShare e c msg s)"

definition handleMediaShareFromHTTP :: "'db env \<Rightarrow> string \<Rightarrow> ChatMessage \<Rightarrow> 'db srv \<Rightarrow> 'db srv" where
  "handleMediaShareFromHTTP e userID msg s =
     (case clientOf e userID s of None \<Rightarrow> s | Some c \<Rightarrow> handleMediaShare e c msg s)"

text \<open>The two id generators of the handler: sixteen random bytes in hex.\<close>

definition generateFileID :: "'db env \<Rightarrow> string" where
  "generateFileID e = hexText (take 16 (rnd e))"

definition generateHTTPMessageID :: "'db env \<Rightarrow> string" where
  "generateHTTPMessageID e = hexText (take 16 (drop 16 (rnd e)))"

definition mediaUpload :: "'db env \<Rightarrow> string \<Rightarrow> string \<Rightarrow> string \<Rightarrow> string \<Rightarrow> byte list \<Rightarrow> string \<Rightarrow> ChatMessage" where
  "mediaUpload e userID username roomID mediaType data messageID =
     \<lparr>cmType = TMediaShare, cmRoomID = roomID, cmMessageID = messageID,
      cmPayload = PStruct (setStr ''mediaType'' mediaType (setStr ''mediaData'' (b64_encode data)
        (setStr ''userId'' userID (setStr ''username'' username (setStr ''messageId'' messageID (zeroStruct MediaSharePayload)))))),
      cmTimestamp = now e\<rparr>"

definition fileUpload :: "'db env \<Rightarrow> string \<Rightarrow> string \<Rightarrow> string \<Rightarrow> FileHeader \<Rightarrow> byte list \<Rightarrow> string \<Rightarrow> ChatMessage" where
  "fileUpload e userID username roomID f data messageID =
     \<lparr>cmType = TFileShare, cmRoomID = roomID, cmMessageID = messageID,
      cmPayload = PStruct (setStr ''fileName'' (fhFilename f) (m_put ''fileSize'' (JNum (fhSize f)) (setStr ''fileType'' (fhType f)
        (m_put ''fileData'' (JStr (b64_encode data)) (setStr ''userId'' userID (setStr ''username'' username
          (setStr ''messageId'' messageID (zeroStruct FileSharePayload)))))))),
      cmTimestamp = now e\<rparr>"

definition fileInfo :: "FileHeader \<Rightarrow> string \<Rightarrow> string \<Rightarrow> FileInfo" where
  "fileInfo f fileID messageID =
     \<lparr>fiID = fileID, fiName = fhFilename f, fiSize = fhSize f, fiType = fhType f, fiMessageID = messageID,
      fiURL = ''/api/files/'' @ fileID\<rparr>"

text \<open>
  The loop over the files. A file that cannot be opened or read is passed over; one that is too large
  ends the request, with what was shared before it shared. Each file takes its own random bytes.
\<close>

fun uploadLoop ::
  "'db env \<Rightarrow> string \<Rightarrow> string \<Rightarrow> string \<Rightarrow> string \<Rightarrow> FileHeader list \<Rightarrow> FileInfo list \<Rightarrow> 'db srv \<Rightarrow>
   (string + FileInfo list) \<times> 'db srv" where
  "uploadLoop e userID username roomID mediaType [] acc s = (Inr acc, s)"
| "uploadLoop e userID username roomID mediaType (f # fs) acc s =
     (if \<not> fhOpens f then uploadLoop e userID username roomID mediaType fs acc s
      else if fhSize f > 10 * 1024 * 1024 then (Inl (''File '' @ fhFilename f @ '' is too large (max 10MB)''), s)
      else case fhRead f of
             None \<Rightarrow> uploadLoop e userID username roomID mediaType fs acc s
           | Some data \<Rightarrow>
               let messageID = generateHTTPMessageID e; e' = e\<lparr>rnd := drop 32 (rnd e)\<rparr>;
                   s' = (if mediaType \<noteq> ''''
                         then handleMediaShareFromHTTP e' userID (mediaUpload e userID username roomID mediaType data messageID) s
                         else handleFileShareFromHTTP e' userID (fileUpload e userID username roomID f data messageID) s)
               in uploadLoop e' userID username roomID mediaType fs (acc @ [fileInfo f (generateFileID e) messageID]) s')"

definition uploadHeaders :: "headers \<Rightarrow> headers" where
  "uploadHeaders h =
     m_put ''Access-Control-Allow-Headers'' ''X-User-ID, X-Username, Content-Type''
       (m_put ''Access-Control-Allow-Methods'' ''POST'' (m_put ''Access-Control-Allow-Origin'' ''*'' h))"

text \<open>(The branch for \<^verbatim>\<open>OPTIONS\<close> behind the check of the method is kept as the code has it.)\<close>

definition FileUploadHandler :: "'db env \<Rightarrow> request \<Rightarrow> headers \<Rightarrow> 'db srv \<Rightarrow> response \<times> 'db srv" where
  "FileUploadHandler e r h s =
     (if rqMethod r \<noteq> ''POST'' then (httpError h ''Method not allowed'' 405, s)
      else
        let h' = uploadHeaders h
        in if rqMethod r = ''OPTIONS'' then (\<lparr>rsStatus = 200, rsHeaders = h', rsBody = BEmpty\<rparr>, s)
           else case rqFiles r of
             None \<Rightarrow> (httpError h' ''Failed to parse form data'' 400, s)
           | Some fs \<Rightarrow>
               let userID = rqHeader r ''X-User-ID''; username = rqHeader r ''X-Username''; roomID = rqFormValue r ''roomId''
               in if userID = '''' \<or> username = '''' \<or> roomID = '''' then (httpError h' ''Missing required parameters'' 400, s)
                  else if fs = [] then (httpError h' ''No files uploaded'' 400, s)
                  else case uploadLoop e userID username roomID (rqFormValue r ''mediaType'') fs [] s of
                         (Inl err, s') \<Rightarrow> (httpError h' err 413, s')
                       | (Inr infos, s') \<Rightarrow> (httpJSON h' (BUploads infos (length infos)), s'))"

section \<open>Downloads\<close>

text \<open>\<^verbatim>\<open>filepath.Base\<close>, and \<^verbatim>\<open>filepath.Join\<close> of \<^verbatim>\<open>./uploads\<close> with a name that has no slash inside.\<close>

definition baseName :: "string \<Rightarrow> string" where
  "baseName path =
     (if path = '''' then ''.''
      else let p = rev (dropWhile (\<lambda>c. c = CHR ''/'') (rev path));
               b = rev (takeWhile (\<lambda>c. c \<noteq> CHR ''/'') (rev p))
           in if b = '''' then ''/'' else b)"

definition joinUploads :: "string \<Rightarrow> string" where
  "joinUploads name =
     (if name = '''' \<or> name = ''.'' \<or> name = ''/'' then ''uploads''
      else if name = ''..'' then ''.''
      else ''uploads/'' @ name)"

text \<open>
  \<^verbatim>\<open>os.Open\<close> with \<^verbatim>\<open>io.Copy\<close>: a directory opens, but copying it gives nothing. (The upload directory exists
  once a file is stored.)
\<close>

definition openFile :: "'db srv \<Rightarrow> string \<Rightarrow> byte list option" where
  "openFile s path =
     (if path = ''.'' \<or> path = ''uploads'' \<and> files s \<noteq> [] then Some [] else map_of (files s) path)"

definition fileServerHandler :: "request \<Rightarrow> headers \<Rightarrow> 'db srv \<Rightarrow> response" where
  "fileServerHandler r h s =
     (let filename = baseName (rqPath r)
      in case openFile s (joinUploads filename) of
           None \<Rightarrow> notFound h
         | Some data \<Rightarrow>
             \<lparr>rsStatus = 200, rsHeaders = m_put ''Content-Type'' ''application/octet-stream''
                (m_put ''Content-Disposition'' (''attachment; filename='' @ filename) h), rsBody = BFile data\<rparr>)"

section \<open>Upgrades\<close>

text \<open>
  Neither handler upgrades anything. The second one notes the user in a table (here a state of its
  own) that nothing reads.
\<close>

definition WebSocketHandler :: "request \<Rightarrow> headers \<Rightarrow> response" where
  "WebSocketHandler r h =
     httpError h ''WebSocket upgrade not fully implemented - connect directly to WebSocket server'' 501"

record UserInfo =
  uiUserID :: string
  uiUsername :: string

definition HandleWebSocketUpgrade ::
  "'db env \<Rightarrow> request \<Rightarrow> headers \<Rightarrow> (string, UserInfo) gomap \<Rightarrow> response \<times> (string, UserInfo) gomap" where
  "HandleWebSocketUpgrade e r h pending =
     (let userID = (if rqQuery r ''user_id'' = '''' then ''user_'' @ intText (unix e) else rqQuery r ''user_id'');
          username = (if rqQuery r ''username'' = '''' then ''User_'' @ intText (unix e mod 1000) else rqQuery r ''username'')
      in (httpError h ''Connect directly to WebSocket server with user info'' 400,
          m_put (rqRemoteAddr r @ '':'' @ userID) \<lparr>uiUserID = userID, uiUsername = username\<rparr> pending))"

section \<open>Routes\<close>

text \<open>The function behind \<^verbatim>\<open>/api/rooms/\<close>.\<close>

definition roomRoutes :: "'db env \<Rightarrow> request \<Rightarrow> headers \<Rightarrow> 'db srv \<Rightarrow> response outcome \<times> 'db srv" where
  "roomRoutes e r h s =
     (let sub = (\<lambda>(resp, s'). (Returned resp, s'))
      in if hasSuffix (rqPath r) ''/messages'' then (GetMessagesHandler e r h s, s)
         else if hasSuffix (rqPath r) ''/members'' then (Returned (GetRoomMembersHandler e r h s), s)
         else if hasSuffix (rqPath r) ''/invite'' then sub (InviteUserHandler e r h s)
         else if hasSuffix (rqPath r) ''/remove'' then sub (RemoveUserHandler e r h s)
         else if hasSuffix (rqPath r) ''/ban'' then sub (BanUserHandler e r h s)
         else if rqMethod r = ''DELETE'' then sub (DeleteRoomHandler e r h s)
         else if containsStr (rqPath r) ''/threads'' then (Returned (GetThreadHandler e r h s), s)
         else (Returned (notFound h), s))"

text \<open>
  \<^verbatim>\<open>SetupRoutes\<close> with the matching of \<^verbatim>\<open>http.ServeMux\<close>: a fixed path wins over the two subtrees. (The mux's own
  redirects of paths that are not clean are left out; \<^verbatim>\<open>BPage\<close> stands for the file it names.)
\<close>

definition SetupRoutes :: "'db env \<Rightarrow> request \<Rightarrow> headers \<Rightarrow> 'db srv \<Rightarrow> response outcome \<times> 'db srv" where
  "SetupRoutes e r h s =
     (let p = rqPath r; sub = (\<lambda>(resp, s'). (Returned resp, s'))
      in if p = ''/ws'' then (Returned (WebSocketHandler r h), s)
         else if p = ''/api/rooms'' then (Returned (GetRoomsHandler e r h s), s)
         else if p = ''/api/rooms/create'' then sub (CreateRoomHandler e r h s)
         else if p = ''/api/upload'' then sub (FileUploadHandler e r h s)
         else if p = ''/enhanced'' then (Returned \<lparr>rsStatus = 200, rsHeaders = h, rsBody = BPage ''./static/enhanced-chat.html''\<rparr>, s)
         else if p = ''/api/users'' then (Returned (GetUsersHandler e h s), s)
         else if hasPrefix p ''/api/rooms/'' then roomRoutes e r h s
         else if hasPrefix p ''/files/'' then (Returned (fileServerHandler r h s), s)
         else (Returned (notFound h), s))"

definition corsHeaders :: "headers \<Rightarrow> headers" where
  "corsHeaders h =
     m_put ''Access-Control-Allow-Headers'' ''Content-Type, Authorization, X-User-ID, X-Username''
       (m_put ''Access-Control-Allow-Methods'' ''GET, POST, PUT, DELETE, OPTIONS'' (m_put ''Access-Control-Allow-Origin'' ''*'' h))"

definition CORS ::
  "(request \<Rightarrow> headers \<Rightarrow> 'db srv \<Rightarrow> response outcome \<times> 'db srv) \<Rightarrow> request \<Rightarrow> headers \<Rightarrow> 'db srv \<Rightarrow> response outcome \<times> 'db srv" where
  "CORS handler r h s =
     (if rqMethod r = ''OPTIONS'' then (Returned \<lparr>rsStatus = 200, rsHeaders = corsHeaders h, rsBody = BEmpty\<rparr>, s)
      else handler r (corsHeaders h) s)"

text \<open>What \<^verbatim>\<open>StartHTTPServer\<close> serves.\<close>

definition httpServe :: "'db env \<Rightarrow> request \<Rightarrow> 'db srv \<Rightarrow> response outcome \<times> 'db srv" where
  "httpServe e r s = CORS (SetupRoutes e) r [] s"

section \<open>What a request can change\<close>

lemma makeRoom_db: "\<exists>d. snd (makeRoom e i ty name ms s) = s\<lparr>db := d\<rparr>"
  by (auto simp: makeRoom_def split: prod.split option.split)

lemma keeps_create: "keeps s (snd (CreateGroupRoom e name u s))" "keeps s (snd (CreateDMRoom e u1 u2 s))"
proof -
  have "keeps s (snd (makeRoom e i ty name ms s))" for i ty name ms
    using makeRoom_db [of e i ty name ms s] by auto
  then show "keeps s (snd (CreateGroupRoom e name u s))" "keeps s (snd (CreateDMRoom e u1 u2 s))"
    by (simp_all add: CreateGroupRoom_def CreateDMRoom_def Let_def split: sum.split)
qed

lemma keeps_uploadLoop: "keeps s (snd (uploadLoop e userID username roomID mediaType fs acc s))"
proof (induction fs arbitrary: e acc s)
  case (Cons f fs)
  have "keeps s (handleFileShareFromHTTP e' u m s)" "keeps s (handleMediaShareFromHTTP e' u m s)" for e' u m
    by (simp_all add: handleFileShareFromHTTP_def handleMediaShareFromHTTP_def keeps_saving split: option.split)
  from keeps_trans [OF this(1) Cons.IH] keeps_trans [OF this(2) Cons.IH] Cons.IH show ?case
    by (auto simp: Let_def split: option.split)
qed simp

lemma keeps_withUser: "(\<And>u. keeps s (snd (k u s))) \<Longrightarrow> keeps s (snd (withUser e r h k s))"
  by (simp add: withUser_def split: option.split)

lemma keeps_handlers:
  "keeps s (snd (CreateRoomHandler e r h s))" "keeps s (snd (FileUploadHandler e r h s))"
  "keeps s (snd (DeleteRoomHandler e r h s))" "keeps s (snd (InviteUserHandler e r h s))"
  "keeps s (snd (RemoveUserHandler e r h s))" "keeps s (snd (BanUserHandler e r h s))"
proof -
  show "keeps s (snd (CreateRoomHandler e r h s))"
    using keeps_create by (auto simp: CreateRoomHandler_def Let_def split: option.split sum.split)
  have "keeps s s'" if "uploadLoop e u n i t fs [] s = (res, s')" for u n i t fs res s'
    using keeps_uploadLoop [of s e u n i t fs "[]"] that by simp
  then show "keeps s (snd (FileUploadHandler e r h s))"
    by (auto simp: FileUploadHandler_def Let_def split: option.split prod.split sum.split)
  show "keeps s (snd (DeleteRoomHandler e r h s))"
    by (auto simp: DeleteRoomHandler_def split: prod.split option.split)
  show "keeps s (snd (InviteUserHandler e r h s))" "keeps s (snd (RemoveUserHandler e r h s))" "keeps s (snd (BanUserHandler e r h s))"
    unfolding InviteUserHandler_def RemoveUserHandler_def BanUserHandler_def
    by (auto intro!: keeps_withUser split: prod.split option.split)
qed

lemma keeps_httpServe: "keeps s (snd (httpServe e r s))"
proof -
  have "keeps s (snd (roomRoutes e r h s))" for h
    by (simp add: roomRoutes_def case_prod_unfold keeps_handlers)
  then have "keeps s (snd (SetupRoutes e r h s))" for h
    by (simp add: SetupRoutes_def Let_def case_prod_unfold keeps_handlers)
  then show ?thesis unfolding httpServe_def CORS_def Let_def by simp
qed

end
