(* ===== verification/ChatReach.thy ===== *)
theory ChatReach
  imports ChatHttp
begin

text \<open>
  The chat server as a state machine: the states it can reach by connections, messages, uploads,
  disconnects, ticks, room creations and HTTP requests in any order; the invariant that every client a room
  delivers to has the room in its own list; and what follows for deliveries and disconnects.
\<close>

section \<open>Reachable states\<close>

definition NewChatServer :: "'db \<Rightarrow> 'db srv" where
  "NewChatServer d = \<lparr>db = d, clients = [], rooms = [], rateLimiters = [], typingClients = [], pendingFileMeta = [],
     pendingMediaMeta = [], cstore = (\<lambda>_. \<lparr>cUserID = '''', cUsername = '''', cRooms = [], cLastSeen = 0, cIsTyping = [],
       cOut = [], cBroken = False\<rparr>), redis = [], files = [], leaving = []\<rparr>"

text \<open>
  The steps of a server that serves the clients it has. Each has its own surroundings, among them the random
  bytes. The length of a message is an \<^verbatim>\<open>int\<close>. \<open>Break\<close> is a connection that fails.
\<close>

inductive serve_step :: "'db srv \<Rightarrow> 'db srv \<Rightarrow> bool" where
  TextMsg: "perm_fn (ord e) \<Longrightarrow> serve_step s (onText e c data s)"
| BinaryMsg: "perm_fn (ord e) \<Longrightarrow> int (length data) < 2 ^ 63 \<Longrightarrow> serve_step s (onBinary e c data s)"
| Disconnect: "perm_fn (ord e) \<Longrightarrow> serve_step s (handleClientDisconnect e c s)"
| Tick: "perm_fn (ord e) \<Longrightarrow> serve_step s (cleanupTypingIndicators e s)"
| Break: "serve_step s (updClient c (\<lambda>x. x\<lparr>cBroken := True\<rparr>) s)"
| Group: "serve_step s (snd (CreateGroupRoom e name u s))"
| Direct: "serve_step s (snd (CreateDMRoom e u1 u2 s))"
| Http: "perm_fn (ord e) \<Longrightarrow> serve_step s (snd (httpServe e r s))"

text \<open>
  The states it can reach. A new client's id is one that no room holds. Redis, when it answers, answers what this
  server stored.
\<close>

inductive chat_reach :: "'db srv \<Rightarrow> bool" where
  Start: "chat_reach (initializeDefaultRooms e (NewChatServer d))"
| Connect: "chat_reach s \<Longrightarrow> perm_fn (ord e) \<Longrightarrow> \<forall>r. \<not> hasClient s r (generateClientID e) \<Longrightarrow>
    \<forall>k ss. redisGet k = Some ss \<longrightarrow> map_of (redis s) k = Some ss \<Longrightarrow>
    chat_reach (snd (handleNewConnection e redisGet proto s))"
| Serve: "chat_reach s \<Longrightarrow> serve_step s s' \<Longrightarrow> chat_reach s'"

lemma reach_text: "chat_reach s \<Longrightarrow> perm_fn (ord e) \<Longrightarrow> chat_reach (onText e c data s)"
  by (blast intro: Serve TextMsg)

lemma reach_later: "serve_step\<^sup>*\<^sup>* s s' \<Longrightarrow> chat_reach s \<Longrightarrow> chat_reach s'"
  by (induction rule: rtranclp_induct) (blast intro: Serve)+

text \<open>A property that no step breaks holds in every reachable state.\<close>

lemma reach_invariant [consumes 1, case_names Start Connect Serve]:
  assumes "chat_reach s"
    and "\<And>e d. P (initializeDefaultRooms e (NewChatServer d))"
    and "\<And>s e redisGet proto. chat_reach s \<Longrightarrow> P s \<Longrightarrow> perm_fn (ord e) \<Longrightarrow> \<forall>r. \<not> hasClient s r (generateClientID e) \<Longrightarrow>
      \<forall>k ss. redisGet k = Some ss \<longrightarrow> map_of (redis s) k = Some ss \<Longrightarrow> P (snd (handleNewConnection e redisGet proto s))"
    and "\<And>s s'. chat_reach s \<Longrightarrow> P s \<Longrightarrow> serve_step s s' \<Longrightarrow> P s'"
  shows "P s"
  using assms(1) by (induction rule: chat_reach.induct) (blast intro: assms(2-4))+

section \<open>The invariant\<close>

definition chat_inv :: "'db srv \<Rightarrow> bool" where
  "chat_inv s \<longleftrightarrow> srv_ok s \<and> (\<forall>r d. hasClient s r d \<longrightarrow> inRooms (cstore s d) r)"

lemma srv_ok_rooms: "rooms s' = rooms s \<Longrightarrow> srv_ok s' = srv_ok s"
  by (simp add: srv_ok_def)

lemma inv_keeps:
  assumes "keeps s s'" and "chat_inv s"
  shows "chat_inv s'"
  using assms by (auto simp: chat_inv_def keeps_def hasClient_def inRooms_def srv_ok_def)

lemma srv_ok_putRoom: "srv_ok s \<Longrightarrow> m_wf (rClients room) \<Longrightarrow> srv_ok (putRoom r room s)"
  by (auto simp: srv_ok_def gomap_simps)

lemma srv_ok_db [simp]: "srv_ok (s\<lparr>db := d\<rparr>) = srv_ok s"
  by (simp add: srv_ok_def)

lemma srv_ok_updClient [simp]: "srv_ok (updClient c f s) = srv_ok s"
  by (simp add: srv_ok_def)

lemma srv_ok_getOrCreateRoom: "srv_ok s \<Longrightarrow> srv_ok (snd (getOrCreateRoom e r s))"
  by (auto simp: getOrCreateRoom_def Let_def intro!: srv_ok_putRoom split: option.split sum.split prod.split)

lemma srv_ok_enterRoom: "srv_ok s \<Longrightarrow> srv_ok (enterRoom r c s)"
  by (auto simp: enterRoom_def srv_ok_def gomap_simps split: option.split)

lemma srv_ok_dropFromRoom: "srv_ok s \<Longrightarrow> srv_ok (dropFromRoom r c s)"
  by (auto simp: dropFromRoom_def Let_def srv_ok_def gomap_simps split: option.splits if_splits)

lemma inRooms_put: "inRooms (x\<lparr>cRooms := m_put r True (cRooms x)\<rparr>) r' \<longleftrightarrow> r' = r \<or> inRooms x r'"
  by (simp add: inRooms_def gomap_simps)

lemma inRooms_del: "inRooms (x\<lparr>cRooms := m_del r (cRooms x)\<rparr>) r' \<longleftrightarrow> r' \<noteq> r \<and> inRooms x r'"
  by (simp add: inRooms_def gomap_simps)

lemma inv_enterRoom:
  assumes "chat_inv s"
  shows "chat_inv (enterRoom r c s)"
proof -
  have "hasClient (enterRoom r c s) r' d \<Longrightarrow> inRooms (cstore (enterRoom r c s) d) r'" for r' d
    unfolding hasClient_enterRoom using assms
    by (auto simp: chat_inv_def enterRoom_def inRooms_put m_has_def split: option.split)
  then show ?thesis using assms by (simp add: chat_inv_def srv_ok_enterRoom)
qed

lemma inv_dropFromRoom: "chat_inv s \<Longrightarrow> chat_inv (dropFromRoom r c s)"
  by (simp add: chat_inv_def srv_ok_dropFromRoom hasClient_dropFromRoom)

lemma inv_same: "same_but_out s s' \<Longrightarrow> chat_inv s \<Longrightarrow> chat_inv s'"
  by (rule inv_keeps [OF keeps_same])

lemma inv_db [simp]: "chat_inv (s\<lparr>db := d\<rparr>) = chat_inv s"
  by (simp add: chat_inv_def)

lemma inv_handleJoinRoom:
  assumes "chat_inv s"
  shows "chat_inv (handleJoinRoom e c msg s)"
proof -
  obtain res s1 where g: "getOrCreateRoom e (cmRoomID msg) s = (res, s1)" by fastforce
  note fr = getOrCreateRoom_frame [OF g]
  have s1: "chat_inv s1"
    using assms srv_ok_getOrCreateRoom [of s e "cmRoomID msg"] by (simp add: chat_inv_def fr g)
  have tail: "chat_inv (sendMessage c m (broadcastToRoom e r m' x (sendHistory e r' c s3)))" if "chat_inv s3" for m r m' x r' s3
    using that by (blast intro: inv_same same_sendMessage same_broadcast sendHistory_same)
  have err: "chat_inv (sendError e c code t u s1)" for code t u
    by (rule inv_same [OF same_sendError s1])
  show ?thesis
    unfolding handleJoinRoom_def Let_def g
    by (cases res) (auto intro!: tail err inv_enterRoom [OF s1])
qed

lemma inv_handleLeaveRoom:
  assumes "chat_inv s"
  shows "chat_inv (handleLeaveRoom e c msg s)"
proof -
  let ?r = "cmRoomID msg"
  let ?s2 = "updClient c (\<lambda>x. x\<lparr>cRooms := m_del ?r (cRooms x)\<rparr>) (dropFromRoom ?r c s)"
  have "chat_inv ?s2"
    using assms by (auto simp: chat_inv_def srv_ok_dropFromRoom hasClient_dropFromRoom inRooms_del)
  then have "chat_inv (broadcastToRoom e ?r m c (if b then ?s2\<lparr>db := d\<rparr> else ?s2))" for m b d
    by (intro inv_same [OF same_broadcast]) simp
  then show ?thesis
    unfolding handleLeaveRoom_def Let_def using inv_same [OF same_sendError assms] by simp
qed

lemma inv_handleMessage:
  assumes "chat_inv s"
  shows "chat_inv (handleMessage e c data s)"
proof -
  have s: "chat_inv (beforeRoute e c s)" using assms by (simp add: chat_inv_def srv_ok_def inRooms_def)
  show ?thesis
  proof (cases rule: handleMessage_cases [of e c data s])
    case (refused code t u)
    then show ?thesis using inv_same [OF same_sendError s] by simp
  next
    case (routed msg)
    let ?msg = "msg\<lparr>cmTimestamp := now e\<rparr>"
    have "chat_inv (routeMessage e c ?msg (beforeRoute e c s))"
      using inv_handleJoinRoom [OF s, of e c ?msg] inv_handleLeaveRoom [OF s, of e c ?msg]
        inv_keeps [OF keeps_routeMessage s, of ?msg]
      by (cases "cmType msg = TJoinRoom"; cases "cmType msg = TLeaveRoom") (simp_all add: routeMessage_def)
    with routed show ?thesis by simp
  qed
qed

lemma inv_stashMeta: "chat_inv s \<Longrightarrow> chat_inv (stashMeta e c data s)"
  by (rule inv_keeps [rotated]) (auto simp: stashMeta_def keeps_def split: option.split)

lemma keeps_broadcast_after: "keeps s s' \<Longrightarrow> keeps s (sendMessage c m (broadcastToRoom e r m' x s'))"
  by (blast intro: keeps_trans keeps_simps)

text \<open>Uploads and ticks change neither the server's rooms nor the clients' lists of them nor a session.\<close>

definition keepsRooms :: "'db srv \<Rightarrow> 'db srv \<Rightarrow> bool" where
  "keepsRooms s s' \<longleftrightarrow> rooms s' = rooms s \<and> redis s' = redis s \<and> (\<forall>d. cRooms (cstore s' d) = cRooms (cstore s d))"

lemma keepsRooms_trans: "keepsRooms s t \<Longrightarrow> keepsRooms t u \<Longrightarrow> keepsRooms s u"
  by (simp add: keepsRooms_def)

lemma keepsRooms_same: "same_but_out s s' \<Longrightarrow> keepsRooms s s'"
  by (simp add: keepsRooms_def same_client same_srv)

lemma inv_keepsRooms: "keepsRooms s s' \<Longrightarrow> chat_inv s \<Longrightarrow> chat_inv s'"
  by (auto simp: chat_inv_def keepsRooms_def hasClient_def inRooms_def srv_ok_def)

lemma keepsRooms_announce: "keepsRooms s (announceUpload e c ty r i row p s)"
  unfolding announceUpload_def
  by (rule keepsRooms_trans [OF _ keepsRooms_trans [OF keepsRooms_same [OF same_broadcast] keepsRooms_same [OF same_sendMessage]]])
    (simp add: keepsRooms_def)

lemma keepsRooms_uploads:
  "keepsRooms s (handleBinaryMessage e c data ft fn r s)" "keepsRooms s (handleBinaryMediaMessage e c data meta s)"
proof -
  have "keepsRooms s (announceUpload e c ty r i row p (s\<lparr>files := f\<rparr>))"
    "keepsRooms s (sendError e c code t u (s\<lparr>files := f\<rparr>))" "keepsRooms s (sendError e c code t u s)" for ty r i row p f code t u
    using keepsRooms_announce [of "s\<lparr>files := f\<rparr>" e c ty r i row p] keepsRooms_same [OF same_sendError, of "s\<lparr>files := f\<rparr>"]
      keepsRooms_same [OF same_sendError, of s]
    by (auto simp: keepsRooms_def)
  then show "keepsRooms s (handleBinaryMessage e c data ft fn r s)" "keepsRooms s (handleBinaryMediaMessage e c data meta s)"
    by (auto simp: handleBinaryMessage_def handleBinaryMediaMessage_def saveUploadedFile_def Let_def split: option.split)
qed

lemma inv_onBinary:
  assumes "chat_inv s"
  shows "chat_inv (onBinary e c data s)"
proof -
  let ?s = "s\<lparr>pendingFileMeta := m_del c (pendingFileMeta s), pendingMediaMeta := m_del c (pendingMediaMeta s)\<rparr>"
  have "chat_inv ?s" using assms by (simp add: chat_inv_def srv_ok_def hasClient_def)
  note inv_keepsRooms [OF keepsRooms_uploads(1) this] inv_keepsRooms [OF keepsRooms_uploads(2) this]
    inv_same [OF same_sendError this]
  then show ?thesis by (simp add: onBinary_def Let_def split: option.split)
qed

lemma keepsRooms_expireOne: "keepsRooms s (expireOne e r x s)"
proof -
  have "keepsRooms s (broadcastToRoom e r m c (updClient c (\<lambda>x. x\<lparr>cIsTyping := f x\<rparr>) (s\<lparr>typingClients := tc\<rparr>)))" for m c f tc
    by (rule keepsRooms_trans [OF _ keepsRooms_same [OF same_broadcast]]) (simp add: keepsRooms_def)
  then show ?thesis by (simp add: expireOne_def Let_def) (simp add: keepsRooms_def)
qed

lemma keepsRooms_fold: "(\<And>x s. keepsRooms s (f x s)) \<Longrightarrow> keepsRooms s (fold f xs s)"
  by (induction xs arbitrary: s) (simp add: keepsRooms_def, metis fold_simps(2) keepsRooms_trans)

lemma keepsRooms_tick: "keepsRooms s (cleanupTypingIndicators e s)"
proof -
  have "keepsRooms s (expireRoom e r s)" for r and s :: "'a srv"
    using keepsRooms_fold [OF keepsRooms_expireOne]
    by (simp add: expireRoom_def Let_def) (simp add: keepsRooms_def)
  then show ?thesis unfolding cleanupTypingIndicators_def by (rule keepsRooms_fold)
qed

lemma leaveOne_frame:
  "hasClient (leaveOne e c r s) r' d \<longleftrightarrow> \<not> (r' = r \<and> d = c) \<and> hasClient s r' d"
  "inRooms (cstore (leaveOne e c r s) d) r' = inRooms (cstore s d) r'"
  "cUserID (cstore (leaveOne e c r s) d) = cUserID (cstore s d)"
  "cUsername (cstore (leaveOne e c r s) d) = cUsername (cstore s d)"
  "cBroken (cstore (leaveOne e c r s) d) = cBroken (cstore s d)"
  "cRooms (cstore (leaveOne e c r s) d) = cRooms (cstore s d)"
  by (simp_all add: leaveOne_def hasClient_dropFromRoom chat_frame)

lemma inv_leaveOne: "chat_inv s \<Longrightarrow> chat_inv (leaveOne e c r s)"
  unfolding leaveOne_def by (intro inv_dropFromRoom inv_same [OF same_broadcast])

lemma inv_leaveAll: "chat_inv s \<Longrightarrow> chat_inv (fold (leaveOne e c) rs s)"
  by (induction rs arbitrary: s) (simp_all add: inv_leaveOne)

lemma inv_disconnect: "chat_inv s \<Longrightarrow> chat_inv (handleClientDisconnect e c s)"
  using inv_leaveAll [of s e c "ord e (m_keys (cRooms (cstore s c)))"]
  by (simp add: handleClientDisconnect_def Let_def chat_inv_def srv_ok_def hasClient_def)

lemma inv_connect:
  assumes "chat_inv s" and "\<forall>r. \<not> hasClient s r (generateClientID e)"
  shows "chat_inv (snd (handleNewConnectionWithUser e redisGet u n i s))"
  using assms by (auto simp: handleNewConnectionWithUser_def Let_def chat_inv_def srv_ok_def hasClient_def)

lemma inv_start: "chat_inv (initializeDefaultRooms e (NewChatServer d))"
proof -
  define empty where "empty s \<longleftrightarrow> chat_inv s \<and> (\<forall>r d. \<not> hasClient s r d)" for s :: "'a srv"
  have "empty s \<Longrightarrow> empty (defaultRoom e x s)" for x s
    by (auto simp: empty_def chat_inv_def defaultRoom_def hasClient_putRoom intro!: srv_ok_putRoom)
  moreover have "empty (NewChatServer d)"
    by (simp add: empty_def NewChatServer_def chat_inv_def srv_ok_def hasClient_def)
  ultimately show ?thesis by (simp add: initializeDefaultRooms_def empty_def)
qed

lemma inv_makeRoom: "chat_inv s \<Longrightarrow> chat_inv (snd (makeRoom e i ty name ms s))"
  using makeRoom_db [of e i ty name ms s] by auto

lemma inv_serve: "serve_step s s' \<Longrightarrow> chat_inv s \<Longrightarrow> chat_inv s'"
proof (induction rule: serve_step.induct)
  case (TextMsg e s c data)
  then show ?case by (simp add: onText_def inv_handleMessage inv_stashMeta)
next
  case (Break s c)
  then show ?case by (auto simp: chat_inv_def inRooms_def)
next
  case (Direct s e u1 u2)
  then show ?case by (simp add: CreateDMRoom_def Let_def inv_makeRoom split: sum.split)
next
  case (Http e s r)
  then show ?case using inv_keeps [OF keeps_httpServe] by blast
qed (simp_all add: inv_onBinary inv_disconnect inv_keepsRooms [OF keepsRooms_tick] CreateGroupRoom_def inv_makeRoom)

lemma reach_inv: "chat_reach s \<Longrightarrow> chat_inv s"
  by (induction rule: reach_invariant) (simp_all add: inv_start inv_serve handleNewConnection_def Let_def inv_connect)

section \<open>Deliveries\<close>


definition demo_join :: "InMemoryDB env" where
  "demo_join = demo_env\<lparr>parse := talk ''join_room'' ''public:lobby'' JNull\<rparr>"

definition demo_lobby :: "InMemoryDB srv" where
  "demo_lobby = onText demo_join ''c1'' [] (initializeDefaultRooms demo_env (NewChatServer NewInMemoryDB))"

lemma demo_lobby_reach: "chat_reach demo_lobby"
  unfolding demo_lobby_def
  by (rule reach_text [OF Start]) (simp add: demo_join_def demo_env_def)


text \<open>The message and the row that \<^verbatim>\<open>handleChatMessage\<close> makes of a payload.\<close>

definition chatPayload :: "'db env \<Rightarrow> Client \<Rightarrow> struct \<Rightarrow> struct" where
  "chatPayload e x p0 = setSender x (withID e p0)"

definition chatRow :: "'db env \<Rightarrow> Client \<Rightarrow> string \<Rightarrow> struct \<Rightarrow> DBMessage" where
  "chatRow e x r p0 = emptyRow (strField (chatPayload e x p0) ''messageId'') r (cUserID x) (strField p0 ''content'') (now e) TMessage"

definition chatOut :: "'db env \<Rightarrow> Client \<Rightarrow> string \<Rightarrow> struct \<Rightarrow> ChatMessage" where
  "chatOut e x r p0 = \<lparr>cmType = TMessage, cmRoomID = r, cmMessageID = strField (chatPayload e x p0) ''messageId'',
     cmPayload = PStruct (chatPayload e x p0), cmTimestamp = now e\<rparr>"

lemma withID_content [simp]: "n \<noteq> ''messageId'' \<Longrightarrow> strField (withID e p) n = strField p n"
  by (simp add: withID_def)

lemma setSender_other [simp]:
  "n \<noteq> ''userId'' \<Longrightarrow> n \<noteq> ''username'' \<Longrightarrow> strField (setSender x p) n = strField p n"
  by (simp add: setSender_def)

lemma handleChatMessage_saved:
  assumes "inRooms (cstore s c) r" and "parsePayload e (cmPayload msg) MessagePayload = Some p0"
    and "SaveMessage (ops e) (chatRow e (cstore s c) r p0) (db s) = (None, d)"
    and "cmRoomID msg = r" and "cmType msg = TMessage" and "cmTimestamp msg = now e"
  shows "handleChatMessage e c msg s =
    sendMessage c (ackMessage e r (strField (chatPayload e (cstore s c) p0) ''messageId'') StatusSent)
      (broadcastToRoom e r (chatOut e (cstore s c) r p0) '''' (s\<lparr>db := d\<rparr>))"
proof -
  have msg: "msg\<lparr>cmPayload := PStruct (chatPayload e (cstore s c) p0),
      cmMessageID := strField (chatPayload e (cstore s c) p0) ''messageId''\<rparr> = chatOut e (cstore s c) r p0"
    using assms(4-6) by (simp add: chatOut_def)
  then have pub: "publish e c msg (chatPayload e (cstore s c) p0) t =
      sendMessage c (ackMessage e r (strField (chatPayload e (cstore s c) p0) ''messageId'') StatusSent)
        (broadcastToRoom e r (chatOut e (cstore s c) r p0) '''' t)" for t
    by (simp add: publish_def assms(4))
  have row: "chatRow e (cstore s c) r p0 = emptyRow (strField (chatPayload e (cstore s c) p0) ''messageId'') r
      (cUserID (cstore s c)) (strField (chatPayload e (cstore s c) p0) ''content'') (now e) TMessage"
    by (simp add: chatRow_def chatPayload_def)
  from assms(1-3) show ?thesis
    unfolding handleChatMessage_def withPayload_def Let_def chatPayload_def [symmetric] saveRow_def row
    by (simp add: assms(4-6) pub)
qed

text \<open>
  C11. A chat message arrives. When a client that is in a room sends a well-formed message to it, within the rate
  limit, and the database stores it, then one row with the client's user id and the content is stored, every
  client in the room with a working connection gets exactly one copy (with the sender's own id and
  name, whatever the payload claimed), and the sender gets one acknowledgment with the
  message's id after its copy. Nobody else gets anything.
\<close>

theorem chat_message_delivered:
  assumes "chat_reach s" and "perm_fn (ord e)"
    and "fst (checkRateLimit e c s)" and "readMessage e data = Some msg" and "validateMessage e msg = None"
    and "cmType msg = TMessage" and "inRooms (cstore s c) (cmRoomID msg)"
    and "parsePayload e (cmPayload msg) MessagePayload = Some p0"
    and "SaveMessage (ops e) (chatRow e (cstore s c) (cmRoomID msg) p0) (db s) = (None, d)"
    and "x \<noteq> ''''"
  shows "db (onText e c data s) = d \<and>
    cOut (cstore (onText e c data s) x) = cOut (cstore s x) @
      (if hasClient s (cmRoomID msg) x \<and> \<not> cBroken (cstore s x) then [chatOut e (cstore s c) (cmRoomID msg) p0] else []) @
      (if x = c \<and> \<not> cBroken (cstore s x)
       then [ackMessage e (cmRoomID msg) (cmMessageID (chatOut e (cstore s c) (cmRoomID msg) p0)) StatusSent] else [])"
proof -
  let ?r = "cmRoomID msg" and ?s = "beforeRoute e c s" and ?msg = "msg\<lparr>cmTimestamp := now e\<rparr>"
  have "chat_inv s" using assms(1) by (rule reach_inv)
  then have "srv_ok ?s" by (simp add: chat_inv_def srv_ok_def)
  then have ok: "srv_ok (?s\<lparr>db := d\<rparr>)" by simp
  have c: "chatRow e (cstore ?s c) ?r p0 = chatRow e (cstore s c) ?r p0" "chatPayload e (cstore ?s c) p0 = chatPayload e (cstore s c) p0"
    "chatOut e (cstore ?s c) ?r p0 = chatOut e (cstore s c) ?r p0"
    by (simp_all add: chatRow_def chatPayload_def chatOut_def setSender_def)
  have rate: "fst (checkRateLimit e c (updClient c (\<lambda>x. x\<lparr>cLastSeen := now e\<rparr>) s))"
    using assms(3) by (simp add: checkRateLimit_def Let_def case_prod_unfold)
  have "onText e c data s = handleMessage e c data s"
    using assms(4,6) by (simp add: onText_def stashMeta_def type_defs)
  also have "\<dots> = routeMessage e c ?msg ?s"
    using rate assms(4,5) by (simp add: handleMessage_def beforeRoute_def Let_def case_prod_unfold)
  also have "\<dots> = handleChatMessage e c ?msg ?s" using assms(6) by (simp add: routeMessage_def type_defs)
  also have "\<dots> = sendMessage c (ackMessage e ?r (strField (chatPayload e (cstore s c) p0) ''messageId'') StatusSent)
      (broadcastToRoom e ?r (chatOut e (cstore s c) ?r p0) '''' (?s\<lparr>db := d\<rparr>))"
    using handleChatMessage_saved [of ?s c ?r e ?msg p0 d] assms(6-9) unfolding c inRooms_beforeRoute by simp
  finally show ?thesis
    using assms(10) cstore_broadcast [OF ok assms(2), of ?r "chatOut e (cstore s c) ?r p0" "''''"]
    by (auto simp: chat_frame cstore_sendMessage delivered_def chatOut_def)
qed

definition demo_say :: "InMemoryDB env" where
  "demo_say = demo_env\<lparr>parse := talk ''message'' ''public:lobby'' (JObj [(''content'', JStr ''hi'')]), now := 1\<rparr>"

definition demo_said :: ChatMessage where
  "demo_said = the (readMessage demo_say [])"

definition demo_text :: struct where
  "demo_text = the (parsePayload demo_say (cmPayload demo_said) MessagePayload)"

definition demo_saved :: InMemoryDB where
  "demo_saved = snd (SaveMessage (ops demo_say) (chatRow demo_say (cstore demo_lobby ''c1'') ''public:lobby'' demo_text) (db demo_lobby))"

theorem chat_message_delivered_witness:
  "db (onText demo_say ''c1'' [] demo_lobby) = demo_saved \<and>
   cOut (cstore (onText demo_say ''c1'' [] demo_lobby) ''c1'') = cOut (cstore demo_lobby ''c1'') @
     [chatOut demo_say (cstore demo_lobby ''c1'') ''public:lobby'' demo_text,
      ackMessage demo_say ''public:lobby'' (cmMessageID (chatOut demo_say (cstore demo_lobby ''c1'') ''public:lobby'' demo_text))
        StatusSent]"
proof -
  have say: "fst (checkRateLimit demo_say ''c1'' demo_lobby)" "readMessage demo_say [] = Some demo_said"
    "validateMessage demo_say demo_said = None" "cmType demo_said = TMessage"
    by code_simp+
  have room: "inRooms (cstore demo_lobby ''c1'') (cmRoomID demo_said)"
    "parsePayload demo_say (cmPayload demo_said) MessagePayload = Some demo_text"
    "SaveMessage (ops demo_say) (chatRow demo_say (cstore demo_lobby ''c1'') (cmRoomID demo_said) demo_text) (db demo_lobby) =
      (None, demo_saved)"
    by code_simp+
  have at: "cmRoomID demo_said = ''public:lobby''" "hasClient demo_lobby ''public:lobby'' ''c1''"
    "\<not> cBroken (cstore demo_lobby ''c1'')"
    by code_simp+
  have "perm_fn (ord demo_say)" by (simp add: demo_say_def demo_env_def)
  from chat_message_delivered [OF demo_lobby_reach this say room, of "''c1''"] show ?thesis by (simp add: at)
qed

section \<open>Disconnects\<close>

lemma inRooms_keys: "inRooms x r \<Longrightarrow> r \<in> set (m_keys (cRooms x))"
  using map_of_SomeD by (force simp: inRooms_def split: option.splits)

lemma leaveOne_out:
  assumes "srv_ok s" and "perm_fn (ord e)" and "d \<noteq> c"
  shows "cOut (cstore (leaveOne e c r s) d) = cOut (cstore s d) @
    (if hasClient s r d \<and> \<not> cBroken (cstore s d) then [presenceMessage e TUserLeft r (cstore s c) ''offline''] else [])"
  using assms by (simp add: leaveOne_def cstore_broadcast delivered_def)

lemma presence_cong:
  "cUserID x = cUserID y \<Longrightarrow> cUsername x = cUsername y \<Longrightarrow> presenceMessage e ty r x st = presenceMessage e ty r y st"
  by (simp add: presenceMessage_def)

lemma srv_ok_leaveOne: "srv_ok s \<Longrightarrow> srv_ok (leaveOne e c r s)"
  by (simp add: leaveOne_def srv_ok_dropFromRoom srv_ok_rooms [OF same_srv(2) [OF same_broadcast]])

lemma leaveAll_effect:
  assumes "srv_ok s" and "perm_fn (ord e)"
  shows "(hasClient (fold (leaveOne e c) rs s) r d \<longleftrightarrow> \<not> (d = c \<and> r \<in> set rs) \<and> hasClient s r d) \<and>
    (d \<noteq> c \<longrightarrow> cOut (cstore (fold (leaveOne e c) rs s) d) = cOut (cstore s d) @
      (if cBroken (cstore s d) then []
       else map (\<lambda>r. presenceMessage e TUserLeft r (cstore s c) ''offline'') (filter (\<lambda>r. hasClient s r d) rs))) \<and>
    clients (fold (leaveOne e c) rs s) = clients s \<and> typingClients (fold (leaveOne e c) rs s) = typingClients s \<and>
    rateLimiters (fold (leaveOne e c) rs s) = rateLimiters s \<and> redis (fold (leaveOne e c) rs s) = redis s"
  using assms(1)
proof (induction rs arbitrary: s)
  case (Cons q rs)
  note IH = Cons.IH [OF srv_ok_leaveOne [OF Cons.prems, of e c q]]
  have drop: "clients (dropFromRoom q c t) = clients t" "typingClients (dropFromRoom q c t) = typingClients t"
    "rateLimiters (dropFromRoom q c t) = rateLimiters t" "redis (dropFromRoom q c t) = redis t" for t :: "'a srv"
    by (simp_all add: dropFromRoom_def Let_def putRoom_def split: option.split)
  have same: "presenceMessage e TUserLeft q' (cstore (leaveOne e c q s) c) ''offline'' =
      presenceMessage e TUserLeft q' (cstore s c) ''offline''" for q'
    by (rule presence_cong) (simp_all add: leaveOne_frame)
  have "clients (leaveOne e c q s) = clients s" "typingClients (leaveOne e c q s) = typingClients s"
    "rateLimiters (leaveOne e c q s) = rateLimiters s" "redis (leaveOne e c q s) = redis s"
    by (simp_all add: leaveOne_def drop chat_frame)
  with IH show ?case
    by (auto simp: leaveOne_frame leaveOne_out [OF Cons.prems assms(2)] same cong: filter_cong)
qed simp


definition demo_two :: "InMemoryDB srv" where
  "demo_two = onText demo_join ''c2'' [] demo_lobby"


section \<open>Sessions\<close>

text \<open>Only one key ever holds rooms: the one \<^verbatim>\<open>handleClientDisconnect\<close> writes, with an empty session id.\<close>

definition sessions_empty :: "'db srv \<Rightarrow> bool" where
  "sessions_empty s \<longleftrightarrow> (\<forall>k ss. k \<noteq> sessionKey '''' \<longrightarrow> map_of (redis s) k = Some ss \<longrightarrow> ssRooms ss = [])"

lemma redis_handleMessage: "redis (handleMessage e c data s) = redis s"
proof (cases rule: handleMessage_cases [of e c data s])
  case (routed msg)
  let ?s = "beforeRoute e c s" and ?msg = "msg\<lparr>cmTimestamp := now e\<rparr>"
  have enter: "redis (enterRoom r c t) = redis t" "redis (dropFromRoom r c t) = redis t" for r and t :: "'a srv"
    by (simp_all add: enterRoom_def dropFromRoom_def Let_def split: option.split)
  have "redis (handleJoinRoom e c ?msg ?s) = redis ?s"
    using getOrCreateRoom_frame(5) [of e "cmRoomID ?msg" ?s]
    by (auto simp: handleJoinRoom_def Let_def chat_frame enter same_srv(6) [OF sendHistory_same] split: prod.split sum.split)
  moreover have "redis (handleLeaveRoom e c ?msg ?s) = redis ?s"
    by (simp add: handleLeaveRoom_def Let_def chat_frame enter)
  ultimately have "redis (routeMessage e c ?msg ?s) = redis ?s"
    using keeps_routeMessage [of ?msg ?s e c]
    by (cases "cmType msg = TJoinRoom"; cases "cmType msg = TLeaveRoom") (simp_all add: routeMessage_def keeps_def)
  with routed show ?thesis by simp
qed (simp add: chat_frame)

lemma redis_stashMeta: "redis (stashMeta e c data s) = redis s"
  by (auto simp: stashMeta_def split: option.split)

lemma redis_onBinary: "redis (onBinary e c data s) = redis s"
  by (simp add: onBinary_def Let_def keepsRooms_uploads [unfolded keepsRooms_def] chat_frame split: option.split)

lemma redis_makeRoom: "redis (snd (makeRoom e i ty name ms s)) = redis s"
  by (simp add: makeRoom_def split: prod.split option.split)

lemma sessions_connect:
  assumes "sessions_empty s" and "\<forall>k ss. redisGet k = Some ss \<longrightarrow> map_of (redis s) k = Some ss"
    and "ord e [] = []"
  shows "cRooms (cstore (snd (handleNewConnectionWithUser e redisGet u n i s)) (fst (handleNewConnectionWithUser e redisGet u n i s))) = []"
    and "sessions_empty (snd (handleNewConnectionWithUser e redisGet u n i s))"
proof -
  have "i \<noteq> '''' \<Longrightarrow> sessionKey i \<noteq> sessionKey ''''" by (simp add: sessionKey_def)
  then have "i \<noteq> '''' \<Longrightarrow> redisGet (sessionKey i) = Some ss \<Longrightarrow> ssRooms ss = []" for ss
    using assms(1,2) by (auto simp: sessions_empty_def)
  then show "cRooms (cstore (snd (handleNewConnectionWithUser e redisGet u n i s))
      (fst (handleNewConnectionWithUser e redisGet u n i s))) = []"
    "sessions_empty (snd (handleNewConnectionWithUser e redisGet u n i s))"
    using assms(1,3) by (auto simp: handleNewConnectionWithUser_def Let_def sessions_empty_def sessionOf_def gomap_simps
        split: option.split)
qed

lemma perm_fn_Nil: "perm_fn f \<Longrightarrow> f [] = []"
  using perm_fn_length [of f "[]"] by simp

lemma redis_disconnect:
  "redis (handleClientDisconnect e c s) = m_put (sessionKey '''') (sessionOf e '''' (now e) (cstore s c)) (redis s)"
  if "srv_ok s" and "perm_fn (ord e)"
proof -
  note eff = leaveAll_effect [OF that, of c "ord e (m_keys (cRooms (cstore s c)))"]
  have "cUserID (cstore (fold (leaveOne e c) rs s) c) = cUserID (cstore s c) \<and>
      cUsername (cstore (fold (leaveOne e c) rs s) c) = cUsername (cstore s c) \<and>
      cRooms (cstore (fold (leaveOne e c) rs s) c) = cRooms (cstore s c)" for rs
    by (induction rs arbitrary: s) (simp_all add: leaveOne_frame)
  with eff show ?thesis by (simp add: handleClientDisconnect_def Let_def sessionOf_def)
qed

text \<open>A server that serves writes no other key.\<close>

lemma redis_serve:
  "serve_step s s' \<Longrightarrow> srv_ok s \<Longrightarrow> k \<noteq> sessionKey '''' \<Longrightarrow> map_of (redis s') k = map_of (redis s) k"
proof (induction rule: serve_step.induct)
  case (Http e s r)
  then show ?case using keeps_httpServe [of s e r] by (simp add: keeps_def)
next
  case (Direct s e u1 u2)
  then show ?case by (simp add: CreateDMRoom_def Let_def redis_makeRoom split: sum.split)
qed (simp_all add: onText_def redis_handleMessage redis_stashMeta redis_onBinary keepsRooms_tick [unfolded keepsRooms_def]
    redis_disconnect gomap_simps CreateGroupRoom_def redis_makeRoom)

lemma reach_sessions: "chat_reach s \<Longrightarrow> sessions_empty s"
proof (induction rule: reach_invariant)
  case (Start e d)
  then show ?case
    by (simp add: initializeDefaultRooms_def defaultRoom_def NewChatServer_def sessions_empty_def)
next
  case (Connect s e redisGet proto)
  then show ?case by (simp add: handleNewConnection_def Let_def sessions_connect perm_fn_Nil)
next
  case (Serve s s')
  then have "srv_ok s" using reach_inv by (auto simp: chat_inv_def)
  with Serve show ?case by (auto simp: sessions_empty_def redis_serve)
qed

text \<open>
  A session never remembers a room. The rooms of a session are stored when a client connects, before it
  has joined any, and again when it disconnects, but then under the key of the empty session id; joins and
  leaves store nothing. So, whatever happened before and whether Redis answers or not, a
  client that comes back with its session id starts with no room at all, though the code
  means to restore them; the sessions of all clients that leave overwrite one another.
\<close>

theorem sessions_forget_rooms:
  assumes "chat_reach s" and "perm_fn (ord e)"
    and "\<forall>k ss. redisGet k = Some ss \<longrightarrow> map_of (redis s) k = Some ss"
  shows "cRooms (cstore (snd (handleNewConnection e redisGet proto s)) (fst (handleNewConnection e redisGet proto s))) = [] \<and>
    redis (handleClientDisconnect e c s) = m_put ''session:'' (sessionOf e '''' (now e) (cstore s c)) (redis s)"
proof
  show "cRooms (cstore (snd (handleNewConnection e redisGet proto s)) (fst (handleNewConnection e redisGet proto s))) = []"
    unfolding handleNewConnection_def Let_def
    by (rule sessions_connect(1) [OF reach_sessions [OF assms(1)] assms(3) perm_fn_Nil [OF assms(2)]])
  have "srv_ok s" using reach_inv [OF assms(1)] by (simp add: chat_inv_def)
  then show "redis (handleClientDisconnect e c s) = m_put ''session:'' (sessionOf e '''' (now e) (cstore s c)) (redis s)"
    by (simp add: redis_disconnect assms(2) sessionKey_def)
qed

theorem sessions_forget_rooms_witness:
  "cRooms (cstore (snd (handleNewConnection demo_env (map_of (redis demo_lobby)) ''abc'' demo_lobby))
     (fst (handleNewConnection demo_env (map_of (redis demo_lobby)) ''abc'' demo_lobby))) = [] \<and>
   redis (handleClientDisconnect demo_env ''c1'' demo_lobby) =
     m_put ''session:'' (sessionOf demo_env '''' (now demo_env) (cstore demo_lobby ''c1'')) (redis demo_lobby)"
  by (rule sessions_forget_rooms [OF demo_lobby_reach]) (simp_all add: demo_env_def)

end
