(* ===== verification/ChatRooms.thy ===== *)
theory ChatRooms
  imports ChatReach
begin

text \<open>
  Conversations, groups, typing indicators and uploads of the chat server: what the operations of
  \<open>ChatSession\<close> achieve.
\<close>

section \<open>Conversations\<close>

lemma conversationID_two: "conversationID u1 u2 = (if u1 \<le> u2 then ''dm:'' @ u1 @ ''_'' @ u2 else ''dm:'' @ u2 @ ''_'' @ u1)"
  by (simp add: conversationID_def Let_def)

lemma splitOn_at: "splitOn sep (a @ sep # b) = splitOn sep a @ splitOn sep b"
proof (induction a)
  case (Cons x a)
  then show ?case by (cases "splitOn sep a") auto
qed simp

lemma splitOn_no_sep: "w \<in> set (splitOn sep s) \<Longrightarrow> sep \<notin> set w"
proof (induction sep s arbitrary: w rule: splitOn.induct)
  case (2 sep c s)
  then show ?case by (cases "splitOn sep s") (auto split: if_splits)
qed simp

lemma users_of_conversation:
  "set (splitOn CHR ''_'' (trimPrefix (conversationID u1 u2) ''dm:'')) =
   set (splitOn CHR ''_'' u1) \<union> set (splitOn CHR ''_'' u2)"
proof -
  have "set (splitOn CHR ''_'' (trimPrefix (''dm:'' @ a @ ''_'' @ b) ''dm:'')) =
      set (splitOn CHR ''_'' a) \<union> set (splitOn CHR ''_'' b)" for a b
    unfolding trimPrefix_append by (simp add: splitOn_at)
  then show ?thesis by (simp add: conversationID_two Un_commute del: append_Cons append.simps)
qed

text \<open>
  Conversations. The room of two users is the same whoever opens it, and the permission check lets in
  whoever's id is a piece, between underscores, of one of the two ids. If neither id has an underscore
  these are exactly the two users. But a user whose id has an underscore is let into no conversation
  at all, not even its own, and every id the server makes up itself (\<open>user_<time>\<close>) is of this kind; and
  somebody called like a piece of another's id gets into that one's conversations.
\<close>

theorem conversation_permission:
  "conversationID u1 u2 = conversationID u2 u1 \<and>
   checkRoomPermission e c (conversationID u1 u2) s =
     Inr (cUserID (cstore s c) \<in> set (splitOn CHR ''_'' u1) \<union> set (splitOn CHR ''_'' u2)) \<and>
   (CHR ''_'' \<notin> set u1 \<and> CHR ''_'' \<notin> set u2 \<longrightarrow>
      (checkRoomPermission e c (conversationID u1 u2) s = Inr True \<longleftrightarrow> cUserID (cstore s c) \<in> {u1, u2})) \<and>
   (CHR ''_'' \<in> set (cUserID (cstore s c)) \<longrightarrow> checkRoomPermission e c (conversationID u1 u2) s = Inr False)"
proof (intro conjI impI)
  show "conversationID u1 u2 = conversationID u2 u1" by (auto simp: conversationID_two)
  have "\<not> hasPrefix (conversationID u1 u2) ''public:''" "hasPrefix (conversationID u1 u2) ''dm:''"
    by (auto simp: conversationID_two hasPrefix_def)
  then show check: "checkRoomPermission e c (conversationID u1 u2) s =
      Inr (cUserID (cstore s c) \<in> set (splitOn CHR ''_'' u1) \<union> set (splitOn CHR ''_'' u2))"
    by (simp add: checkRoomPermission_def users_of_conversation)
  show "checkRoomPermission e c (conversationID u1 u2) s = Inr True \<longleftrightarrow> cUserID (cstore s c) \<in> {u1, u2}"
    if "CHR ''_'' \<notin> set u1 \<and> CHR ''_'' \<notin> set u2"
    using that by (auto simp: check splitOn_none)
  show "checkRoomPermission e c (conversationID u1 u2) s = Inr False" if "CHR ''_'' \<in> set (cUserID (cstore s c))"
    using that splitOn_no_sep by (auto simp: check)
qed

theorem conversation_permission_witness:
  "(checkRoomPermission demo_env ''c1'' (conversationID ''ann'' ''bob'') demo_srv = Inr True) \<and>
   checkRoomPermission demo_env ''c1'' (conversationID ''user_1'' ''user_2'')
     (updClient ''c1'' (\<lambda>x. x\<lparr>cUserID := ''user_1''\<rparr>) demo_srv) = Inr False"
proof
  have "cUserID (cstore demo_srv ''c1'') \<in> {''ann'', ''bob''}" by (simp add: demo_srv_def demo_client_def)
  with conversation_permission [of "''ann''" "''bob''" demo_env "''c1''" demo_srv]
  show "checkRoomPermission demo_env ''c1'' (conversationID ''ann'' ''bob'') demo_srv = Inr True" by auto
  have "CHR ''_'' \<in> set (cUserID (cstore (updClient ''c1'' (\<lambda>x. x\<lparr>cUserID := ''user_1''\<rparr>) demo_srv) ''c1''))" by simp
  with conversation_permission [of "''user_1''" "''user_2''" demo_env "''c1''" "updClient ''c1'' (\<lambda>x. x\<lparr>cUserID := ''user_1''\<rparr>) demo_srv"]
  show "checkRoomPermission demo_env ''c1'' (conversationID ''user_1'' ''user_2'')
      (updClient ''c1'' (\<lambda>x. x\<lparr>cUserID := ''user_1''\<rparr>) demo_srv) = Inr False" by blast
qed

section \<open>Rooms that the server makes\<close>

text \<open>On the in-memory database adding members never fails.\<close>

lemma addMembers_mem:
  assumes "ops e = inMemory w"
  shows "addMembers e r us d = (None, memdb.addAll w (map (\<lambda>(u, role). newMember e r u role) us) d)"
proof (induction us arbitrary: d)
  case (Cons x us)
  obtain u role where x: "x = (u, role)" by fastforce
  obtain err d' where a: "AddRoomMember (inMemory w) (newMember e r u role) d = (err, d')" by fastforce
  then have "err = None" using memdb.add_result [of w "newMember e r u role" d] by simp
  with Cons a assms show ?case by (simp add: x)
qed simp

lemma makeRoom_mem:
  assumes "ops e = inMemory w"
  shows "makeRoom e r ty name us s =
    (Inr r, s\<lparr>db := memdb.addAll w (map (\<lambda>(u, role). newMember e r u role) us)
       (snd (CreateRoom (inMemory w) (createRoomRow e r ty name) (db s)))\<rparr>)"
proof -
  have "fst (CreateRoom (inMemory w) room d) = None" for room d
    by (simp add: inMemory_def memCreateRoom_def)
  then obtain d where "CreateRoom (inMemory w) (createRoomRow e r ty name) (db s) = (None, d)"
    by (metis prod.collapse)
  then show ?thesis by (simp add: makeRoom_def assms addMembers_mem [OF assms])
qed

lemma makeRoom_members:
  assumes "ops e = inMemory w" and "makeRoom e r ty name us s = (res, s')"
  shows "res = Inr r" "memHasRoom (db s') r" "(u, role) \<in> set us \<Longrightarrow> memIsMember (db s') r u"
    "q \<noteq> r \<Longrightarrow> memIsMember (db s') q u \<longleftrightarrow> memIsMember (db s) q u"
proof -
  let ?room = "createRoomRow e r ty name" and ?ms = "map (\<lambda>(u, role). newMember e r u role) us"
  have r: "drID ?room = r" by (simp add: createRoomRow_def)
  have ms: "\<forall>mb \<in> set ?ms. mbRoomID mb = drID ?room" by (auto simp: r newMember_def)
  note eff = memdb.create_with_members [OF ms, where ord = w and d = "db s", unfolded r]
  from assms makeRoom_mem [OF assms(1)]
  have res: "res = Inr r" and s': "db s' = memdb.addAll w ?ms (snd (CreateRoom (inMemory w) ?room (db s)))"
    by auto
  show "res = Inr r" by (rule res)
  show "memHasRoom (db s') r" using eff(1) by (simp add: s')
  show "memIsMember (db s') r u" if "(u, role) \<in> set us"
  proof -
    from that have "newMember e r u role \<in> set ?ms" by force
    with eff(2) have "memIsMember (db s') r (mbUserID (newMember e r u role))" unfolding s' by blast
    then show ?thesis by (simp add: newMember_def)
  qed
  show "memIsMember (db s') q u \<longleftrightarrow> memIsMember (db s) q u" if "q \<noteq> r" using eff(3) [OF that] by (simp add: s')
qed

text \<open>
  Opening a conversation on the in-memory database: the call succeeds with the room of the two; if there was
  none, both users are its members afterwards and no other room's members changed; if there was one, nothing
  changes; and opening it again, from either side, changes nothing.
\<close>

theorem CreateDMRoom_members:
  assumes "ops e = inMemory w" and "CreateDMRoom e u1 u2 s = (res, s')"
  shows "res = Inr (conversationID u1 u2) \<and> memHasRoom (db s') (conversationID u1 u2) \<and>
    (if memHasRoom (db s) (conversationID u1 u2) then s' = s
     else memIsMember (db s') (conversationID u1 u2) u1 \<and> memIsMember (db s') (conversationID u1 u2) u2) \<and>
    (\<forall>q u. q \<noteq> conversationID u1 u2 \<longrightarrow> memIsMember (db s') q u = memIsMember (db s) q u) \<and>
    CreateDMRoom e u2 u1 s' = (Inr (conversationID u1 u2), s')"
proof -
  let ?r = "conversationID u1 u2"
  have sym: "conversationID u2 u1 = ?r" by (auto simp: conversationID_two)
  have found: "CreateDMRoom e a b t = (Inr ?r, t)" if "memHasRoom (db t) ?r" "conversationID a b = ?r" for a b t
    using memdb.get_room [of w ?r "db t"] that assms(1) by (auto simp: CreateDMRoom_def Let_def)
  show ?thesis
  proof (cases "memHasRoom (db s) ?r")
    case True
    with found [OF this] assms(2) sym show ?thesis by auto
  next
    case False
    then have "\<exists>err. GetRoom (inMemory w) ?r (db s) = Inl err"
      using memdb.get_room [of w ?r "db s"] by (cases "GetRoom (inMemory w) ?r (db s)") auto
    with assms obtain name where m: "makeRoom e ?r DMRoom name (map (\<lambda>u. (u, ''member'')) (sort [u1, u2])) s = (res, s')"
      by (auto simp: CreateDMRoom_def Let_def)
    have in_list: "(u1, ''member'') \<in> set (map (\<lambda>u. (u, ''member'')) (sort [u1, u2]))"
      "(u2, ''member'') \<in> set (map (\<lambda>u. (u, ''member'')) (sort [u1, u2]))" by auto
    note eff = makeRoom_members [OF assms(1) m]
    from eff(3) [OF in_list(1)] eff(3) [OF in_list(2)] eff(1,2,4) False found [OF eff(2) sym] show ?thesis by auto
  qed
qed

theorem CreateDMRoom_members_witness:
  "\<exists>s'. CreateDMRoom demo_env ''bob'' ''ann'' demo_srv = (Inr ''dm:ann_bob'', s') \<and>
     memIsMember (db s') ''dm:ann_bob'' ''ann'' \<and> memIsMember (db s') ''dm:ann_bob'' ''bob'' \<and>
     CreateDMRoom demo_env ''ann'' ''bob'' s' = (Inr ''dm:ann_bob'', s')"
proof -
  obtain res s' where m: "CreateDMRoom demo_env ''bob'' ''ann'' demo_srv = (res, s')" by fastforce
  have i: "conversationID ''bob'' ''ann'' = ''dm:ann_bob''" by code_simp
  have "\<not> memHasRoom (db demo_srv) ''dm:ann_bob''" by (simp add: demo_srv_def NewInMemoryDB_def memHasRoom_def)
  moreover have "ops demo_env = inMemory id" by (simp add: demo_env_def)
  ultimately show ?thesis using CreateDMRoom_members [OF _ m] m unfolding i by auto
qed

end
