(* ===== verification/ChatTyping.thy ===== *)
theory ChatTyping
  imports ChatReach
begin

text \<open>
  The typing indicators of the chat server: what a tick of \<^verbatim>\<open>cleanupTypingIndicators\<close> leaves.
\<close>

text \<open>When a client last reported typing in a room, and whether the entry has run out.\<close>

definition typedAt :: "'db srv \<Rightarrow> string \<Rightarrow> cid \<Rightarrow> int option" where
  "typedAt s r c = (case map_of (typingClients s) r of None \<Rightarrow> None | Some m \<Rightarrow> map_of m c)"

definition stale :: "'db env \<Rightarrow> int \<Rightarrow> bool" where
  "stale e t \<longleftrightarrow> now e - t > 10 * 10 ^ 9"

definition typing_ok :: "'db srv \<Rightarrow> bool" where
  "typing_ok s \<longleftrightarrow> m_wf (typingClients s) \<and> (\<forall>r m. map_of (typingClients s) r = Some m \<longrightarrow> m_wf m)"

text \<open>Only typing messages, ticks and disconnects touch the entries; all keep them well formed.\<close>

lemma typing_withPayload:
  "(\<And>p. typingClients (k p s) = typingClients s) \<Longrightarrow> typingClients (withPayload e c msg sch k s) = typingClients s"
  by (simp add: withPayload_def chat_frame split: option.split)

lemma typing_saving:
  "typingClients (handleChatMessage e c msg s) = typingClients s" "typingClients (handleThreadReply e c msg s) = typingClients s"
  "typingClients (handleFileShare e c msg s) = typingClients s" "typingClients (handleMediaShare e c msg s) = typingClients s"
  unfolding handleChatMessage_def handleThreadReply_def handleFileShare_def handleMediaShare_def
  by (rule typing_withPayload,
      simp add: saveRow_def publish_def publishShare_def Let_def chat_frame split: prod.split option.split sum.split)+

lemma typing_routeMessage:
  assumes "cmType msg \<noteq> TTyping"
  shows "typingClients (routeMessage e c msg s) = typingClients s"
proof -
  have rooms: "typingClients (enterRoom r c t) = typingClients t" "typingClients (dropFromRoom r c t) = typingClients t"
    "typingClients (sendHistory e r c t) = typingClients t" for r and t :: "'a srv"
    by (simp_all add: enterRoom_def dropFromRoom_def Let_def same_srv(4) [OF sendHistory_same] split: option.split)
  have "typingClients (handleJoinRoom e c msg s) = typingClients s"
    using getOrCreateRoom_frame(4) [of e "cmRoomID msg" s]
    by (auto simp: handleJoinRoom_def Let_def chat_frame rooms split: prod.split sum.split)
  moreover have "typingClients (handleLeaveRoom e c msg s) = typingClients s"
    by (simp add: handleLeaveRoom_def Let_def chat_frame rooms)
  moreover have "typingClients (handleReadReceipt e c msg s) = typingClients s"
    unfolding handleReadReceipt_def
    by (rule typing_withPayload) (simp add: Let_def chat_frame split: prod.split option.split)
  moreover have "typingClients (relay e c msg sch fill s) = typingClients s" for sch fill
    unfolding relay_def by (rule typing_withPayload) (simp add: chat_frame)
  ultimately show ?thesis
    using assms
    by (simp add: routeMessage_def typing_saving handleCallInvite_def handleCallAnswer_def handleCallEnd_def
        handleWebRTCSignal_def handleScreenShare_def handleRecordingStart_def handleRecordingStop_def chat_frame)
qed

lemma typing_ok_cong: "typingClients s' = typingClients s \<Longrightarrow> typing_ok s' = typing_ok s"
  by (simp add: typing_ok_def)

lemma typing_ok_handleTyping:
  assumes "typing_ok s"
  shows "typing_ok (handleTyping e c msg s)"
proof -
  have "m_wf (case map_of (typingClients s) r of None \<Rightarrow> [] | Some m \<Rightarrow> m)" for r
    using assms by (auto simp: typing_ok_def split: option.split)
  then show ?thesis
    using assms by (auto simp: handleTyping_def Let_def typing_ok_def chat_frame gomap_simps split: option.split if_splits)
qed

lemma typing_ok_onText:
  assumes "typing_ok s"
  shows "typing_ok (onText e c data s)"
proof -
  have ok: "typing_ok (beforeRoute e c (stashMeta e c data s))"
    using assms by (auto simp: typing_ok_def stashMeta_def split: option.split)
  have "typing_ok (routeMessage e c msg (beforeRoute e c (stashMeta e c data s)))" for msg
  proof (cases "cmType msg = TTyping")
    case True
    then show ?thesis using typing_ok_handleTyping [OF ok] by (simp add: routeMessage_def type_defs)
  next
    case False
    with ok show ?thesis by (simp add: typing_ok_cong [OF typing_routeMessage])
  qed
  with ok show ?thesis
    unfolding onText_def
    by (cases rule: handleMessage_cases [of e c data "stashMeta e c data s"]) (simp_all add: typing_ok_cong [OF frame_error(10)])
qed

lemma typedAt_frame:
  "typedAt (broadcastToRoom e r' m x s) r c = typedAt s r c" "typedAt (updClient d f s) r c = typedAt s r c"
  by (simp_all add: typedAt_def chat_frame)

lemma expireOne_typing:
  "typingClients (expireOne e r (c, t) s) =
     (if stale e t then (case map_of (typingClients s) r of
        None \<Rightarrow> typingClients s | Some m \<Rightarrow> m_put r (m_del c m) (typingClients s)) else typingClients s)"
  by (simp add: expireOne_def Let_def chat_frame stale_def)

lemma typedAt_expireOne:
  "typedAt (expireOne e r (c, t) s) r' c' = (if stale e t \<and> r' = r \<and> c' = c then None else typedAt s r' c')"
  by (auto simp: typedAt_def expireOne_typing gomap_simps split: option.split)

lemma typing_ok_expireOne: "typing_ok s \<Longrightarrow> typing_ok (expireOne e r (c, t) s)"
  by (auto simp: typing_ok_def expireOne_typing gomap_simps split: option.split)

lemma typedAt_fold:
  "typedAt (fold (expireOne e r) xs s) r' c' =
     (if r' = r \<and> (\<exists>t. (c', t) \<in> set xs \<and> stale e t) then None else typedAt s r' c')"
  "typing_ok s \<Longrightarrow> typing_ok (fold (expireOne e r) xs s)"
  "map_of (typingClients s) q \<noteq> None \<or> q \<noteq> r \<Longrightarrow>
   (map_of (typingClients (fold (expireOne e r) xs s)) q = None \<longleftrightarrow> map_of (typingClients s) q = None) \<and>
   (q \<noteq> r \<longrightarrow> map_of (typingClients (fold (expireOne e r) xs s)) q = map_of (typingClients s) q)"
proof (induction xs arbitrary: s)
  case (Cons x xs)
  obtain c t where x: "x = (c, t)" by fastforce
  {
    case 1
    show ?case using Cons(1) [of "expireOne e r x s"] by (auto simp: x typedAt_expireOne)
  next
    case 2
    then show ?case using Cons(2) [of "expireOne e r x s"] by (simp add: x typing_ok_expireOne)
  next
    case 3
    have "map_of (typingClients (expireOne e r x s)) q = None \<longleftrightarrow> map_of (typingClients s) q = None"
      "q \<noteq> r \<Longrightarrow> map_of (typingClients (expireOne e r x s)) q = map_of (typingClients s) q"
      by (auto simp: x expireOne_typing gomap_simps split: option.split)
    then show ?case using 3 Cons(3) [of "expireOne e r x s"] by auto
  }
qed simp_all

text \<open>A whole room: the stale entries go, the others stay, and an empty room goes too.\<close>

lemma expireRoom_effect:
  assumes "perm_fn (ord e)" and "typing_ok s"
  shows "typedAt (expireRoom e r s) q c =
      (case typedAt s q c of None \<Rightarrow> None | Some t \<Rightarrow> if q = r \<and> stale e t then None else Some t)"
    and "typing_ok (expireRoom e r s)"
    and "map_of (typingClients (expireRoom e r s)) r \<noteq> Some []"
    and "q \<noteq> r \<Longrightarrow> map_of (typingClients (expireRoom e r s)) q = map_of (typingClients s) q"
proof -
  define entries where "entries = (case map_of (typingClients s) r of None \<Rightarrow> [] | Some m \<Rightarrow> m)"
  define xs where "xs = map (\<lambda>c. (c, the (map_of entries c))) (ord e (m_keys entries))"
  define s1 where "s1 = fold (expireOne e r) xs s"
  have room: "expireRoom e r s =
      (if map_of (typingClients s1) r = Some [] then s1\<lparr>typingClients := m_del r (typingClients s1)\<rparr> else s1)"
    by (simp add: expireRoom_def Let_def entries_def xs_def s1_def)
  have "(c', t) \<in> set xs \<longleftrightarrow> map_of entries c' = Some t" for c' t
    using map_of_eq_None_iff [of entries c'] by (cases "map_of entries c'") (auto simp: xs_def perm_fn_set [OF assms(1)])
  then have at: "(c', t) \<in> set xs \<longleftrightarrow> typedAt s r c' = Some t" for c' t
    by (simp add: entries_def typedAt_def split: option.split)
  have s1: "typedAt s1 q c = (if q = r \<and> (\<exists>t. typedAt s r c = Some t \<and> stale e t) then None else typedAt s q c)"
    "typing_ok s1" "q \<noteq> r \<Longrightarrow> map_of (typingClients s1) q = map_of (typingClients s) q" for q c
    using assms(2) by (simp_all add: s1_def at typedAt_fold)
  have drop: "map_of (typingClients s1) r = Some [] \<Longrightarrow>
      typedAt (s1\<lparr>typingClients := m_del r (typingClients s1)\<rparr>) q c = typedAt s1 q c" for q c
    by (simp add: typedAt_def gomap_simps)
  show "typedAt (expireRoom e r s) q c =
      (case typedAt s q c of None \<Rightarrow> None | Some t \<Rightarrow> if q = r \<and> stale e t then None else Some t)"
    by (auto simp: room drop s1(1) split: option.split)
  show "typing_ok (expireRoom e r s)" using s1(2) by (auto simp: room typing_ok_def gomap_simps)
  show "map_of (typingClients (expireRoom e r s)) r \<noteq> Some []" by (simp add: room gomap_simps)
  show "q \<noteq> r \<Longrightarrow> map_of (typingClients (expireRoom e r s)) q = map_of (typingClients s) q"
    using s1(3) by (simp add: room gomap_simps)
qed

lemma expireRooms_effect:
  assumes "perm_fn (ord e)" and "typing_ok s"
  shows "typedAt (fold (expireRoom e) rs s) q c =
      (case typedAt s q c of None \<Rightarrow> None | Some t \<Rightarrow> if q \<in> set rs \<and> stale e t then None else Some t) \<and>
    typing_ok (fold (expireRoom e) rs s) \<and>
    (map_of (typingClients (fold (expireRoom e) rs s)) q = Some [] \<longrightarrow> q \<notin> set rs \<and> map_of (typingClients s) q = Some [])"
  using assms(2)
proof (induction rs arbitrary: s)
  case (Cons r rs)
  note eff = expireRoom_effect(2,3) [OF assms(1) Cons.prems, where r = r]
    expireRoom_effect(1,4) [OF assms(1) Cons.prems, where r = r and q = q]
  from Cons.IH [OF eff(1)] eff(2-4) show ?case
    by (cases "q = r") (auto split: option.splits if_splits)
qed (simp split: option.split)

lemma typing_onBinary: "typingClients (onBinary e c data s) = typingClients s"
  by (simp add: onBinary_def handleBinaryMessage_def handleBinaryMediaMessage_def saveUploadedFile_def announceUpload_def
      Let_def chat_frame split: option.split)

lemma typing_uploadLoop: "typingClients (snd (uploadLoop e userID username roomID mediaType fs acc s)) = typingClients s"
proof (induction fs arbitrary: e acc s)
  case (Cons f fs)
  then show ?case
    by (auto simp: Let_def handleFileShareFromHTTP_def handleMediaShareFromHTTP_def typing_saving split: option.split)
qed simp

lemma typing_create:
  "typingClients (snd (CreateGroupRoom e name u s)) = typingClients s" "typingClients (snd (CreateDMRoom e u1 u2 s)) = typingClients s"
proof -
  have "typingClients (snd (makeRoom e i ty name ms s)) = typingClients s" for i ty name ms
    using makeRoom_db [of e i ty name ms s] by auto
  then show "typingClients (snd (CreateGroupRoom e name u s)) = typingClients s"
    "typingClients (snd (CreateDMRoom e u1 u2 s)) = typingClients s"
    by (simp_all add: CreateGroupRoom_def CreateDMRoom_def Let_def split: sum.split)
qed

lemma typing_httpServe: "typingClients (snd (httpServe e r s)) = typingClients s"
proof -
  have user: "(\<And>u. typingClients (snd (k u s)) = typingClients s) \<Longrightarrow> typingClients (snd (withUser e r h k s)) = typingClients s" for k h
    by (simp add: withUser_def split: option.split)
  have "typingClients s' = typingClients s" if "uploadLoop e u n i t fs [] s = (res, s')" for u n i t fs res s'
    using typing_uploadLoop [of e u n i t fs "[]" s] that by simp
  then have "typingClients (snd (FileUploadHandler e r h s)) = typingClients s" for h
    by (auto simp: FileUploadHandler_def Let_def split: option.split prod.split sum.split)
  moreover have "typingClients (snd (CreateRoomHandler e r h s)) = typingClients s" for h
    using typing_create [where s = s] by (auto simp: CreateRoomHandler_def Let_def split: option.split sum.split)
  moreover have "typingClients (snd (DeleteRoomHandler e r h s)) = typingClients s" for h
    by (auto simp: DeleteRoomHandler_def split: prod.split option.split)
  moreover have "typingClients (snd (InviteUserHandler e r h s)) = typingClients s"
    "typingClients (snd (RemoveUserHandler e r h s)) = typingClients s" "typingClients (snd (BanUserHandler e r h s)) = typingClients s" for h
    unfolding InviteUserHandler_def RemoveUserHandler_def BanUserHandler_def
    by (auto intro!: user split: prod.split option.split)
  ultimately have "typingClients (snd (SetupRoutes e r h s)) = typingClients s" for h
    by (simp add: SetupRoutes_def roomRoutes_def Let_def case_prod_unfold)
  then show ?thesis by (simp add: httpServe_def CORS_def)
qed

lemma typing_ok_disconnect:
  assumes "typing_ok s" and "srv_ok s" and "perm_fn (ord e)"
  shows "typing_ok (handleClientDisconnect e c s)"
proof -
  have "m_wf (map (\<lambda>(r, m). (r, m_del c m)) tc) = m_wf tc"
    "map_of (map (\<lambda>(r, m). (r, m_del c m)) tc) r = map_option (m_del c) (map_of tc r)" for r and tc :: "(string, (cid, int) gomap) gomap"
    by (simp_all add: m_wf_def case_prod_beta o_def, induction tc, auto)
  moreover have "typingClients (fold (leaveOne e c) rs s) = typingClients s" for rs
    using leaveAll_effect [OF assms(2,3), of c rs] by simp
  ultimately show ?thesis
    using assms(1) by (auto simp: handleClientDisconnect_def Let_def typing_ok_def gomap_simps)
qed

lemma reach_typing: "chat_reach s \<Longrightarrow> typing_ok s"
proof (induction rule: reach_invariant)
  case (Start e d)
  show ?case by (simp add: initializeDefaultRooms_def defaultRoom_def NewChatServer_def typing_ok_def)
next
  case (Connect s e redisGet proto)
  then show ?case by (simp add: handleNewConnection_def handleNewConnectionWithUser_def Let_def typing_ok_def)
next
  case (Serve s s')
  then have "srv_ok s" using reach_inv by (auto simp: chat_inv_def)
  from Serve(2,3) this show ?case
  proof (induction rule: serve_step.induct)
    case (Tick e s)
    then show ?case unfolding cleanupTypingIndicators_def by (simp add: expireRooms_effect)
  qed (simp_all add: typing_ok_onText typing_ok_disconnect typing_ok_cong [OF typing_onBinary]
      typing_ok_cong [OF typing_httpServe] typing_ok_cong [OF typing_create(1)] typing_ok_cong [OF typing_create(2)],
      simp add: typing_ok_def)
qed

text \<open>
  C34. A tick of the typing indicators. Afterwards exactly the entries remain that are at most ten seconds old,
  with their times, and no room is left with an empty map, whatever the order in which rooms and clients
  are visited.
\<close>

theorem tick_expires_typing:
  assumes "chat_reach s" and "perm_fn (ord e)"
  shows "typedAt (cleanupTypingIndicators e s) r c =
      (case typedAt s r c of None \<Rightarrow> None | Some t \<Rightarrow> if now e - t > 10 * 10 ^ 9 then None else Some t) \<and>
    map_of (typingClients (cleanupTypingIndicators e s)) r \<noteq> Some []"
proof -
  note eff = expireRooms_effect [OF assms(2) reach_typing [OF assms(1)], of "ord e (m_keys (typingClients s))" r c]
  have "map_of (typingClients s) r \<noteq> None \<Longrightarrow> r \<in> set (ord e (m_keys (typingClients s)))"
    unfolding perm_fn_set [OF assms(2)] by (simp add: map_of_eq_None_iff)
  then show ?thesis
    using eff unfolding cleanupTypingIndicators_def stale_def [symmetric]
    by (auto simp: typedAt_def split: option.splits)
qed

definition demo_types :: "InMemoryDB env" where
  "demo_types = demo_env\<lparr>parse := talk ''typing'' ''public:lobby'' (JObj [(''isTyping'', JBool True)]), now := 1\<rparr>"

definition demo_typing :: "InMemoryDB srv" where
  "demo_typing = onText demo_types ''c1'' [] demo_lobby"

theorem tick_expires_typing_witness:
  "typedAt demo_typing ''public:lobby'' ''c1'' = Some 1 \<and>
   typedAt (cleanupTypingIndicators (demo_env\<lparr>now := 10 ^ 10\<rparr>) demo_typing) ''public:lobby'' ''c1'' = Some 1 \<and>
   typedAt (cleanupTypingIndicators (demo_env\<lparr>now := 10 ^ 11\<rparr>) demo_typing) ''public:lobby'' ''c1'' = None"
proof -
  have typing: "typedAt demo_typing ''public:lobby'' ''c1'' = Some 1" by code_simp
  have "chat_reach demo_typing"
    unfolding demo_typing_def by (rule reach_text [OF demo_lobby_reach]) (simp add: demo_types_def demo_env_def)
  note tick = tick_expires_typing [OF this, where r = "''public:lobby''" and c = "''c1''"]
  have "perm_fn (ord (demo_env\<lparr>now := t\<rparr>))" for t by (simp add: demo_env_def)
  from tick [OF this] typing show ?thesis by simp
qed

end
