(* ===== verification/ChatUpload.thy ===== *)
theory ChatUpload
  imports ChatReach
begin

text \<open>
  Uploads and the checks of a message: where a file is stored, whom an upload reaches, and which
  contents pass the length limit.
\<close>

section \<open>Names of stored files\<close>

lemma of_char_of_slash: "of_char (CHR ''/'') = (47 :: nat)"
  by simp

lemma natText_no_slash: "CHR ''/'' \<notin> set (natText n)"
proof (induction n rule: natText.induct)
  case (1 n)
  have "CHR ''/'' \<noteq> (char_of (48 + k) :: char)" if "k < 10" for k :: nat
  proof
    assume "CHR ''/'' = (char_of (48 + k) :: char)"
    then have "of_char (char_of (48 + k) :: char) = (47 :: nat)" by (metis of_char_of_slash)
    with that show False by simp
  qed
  with 1 show ?case by (simp add: natText.simps [of n])
qed

lemma intText_no_slash: "CHR ''/'' \<notin> set (intText i)"
  by (simp add: intText_def natText_no_slash)

lemma charset_no_slash: "n < length charset \<Longrightarrow> charset ! n \<noteq> CHR ''/''"
proof -
  have "CHR ''/'' \<notin> set charset" by (simp add: charset_def)
  then show "n < length charset \<Longrightarrow> charset ! n \<noteq> CHR ''/''" by (metis nth_mem)
qed

lemma randomString_no_slash: "CHR ''/'' \<notin> set (randomString e n)"
proof -
  have "0 < length charset" by (simp add: charset_def)
  then have "CHR ''/'' \<noteq> charset ! (unat b mod length charset)" for b :: byte
    by (metis charset_no_slash mod_less_divisor)
  then show ?thesis by (auto simp: randomString_def)
qed

lemma fileExt_no_slash: "CHR ''/'' \<notin> set (fileExt p)"
proof -
  have "c \<noteq> CHR ''/''" if "c \<in> set (takeWhile (\<lambda>c. c \<noteq> CHR ''/'' \<and> c \<noteq> CHR ''.'') xs)" for c xs
    using set_takeWhileD [OF that] by simp
  then show ?thesis by (auto simp: fileExt_def Let_def split: list.splits)
qed

lemma message_id_no_slash: "CHR ''/'' \<notin> set (generateMessageID e)"
  by (simp add: generateMessageID_def intText_no_slash randomString_no_slash)

lemma files_announce: "files (announceUpload e c ty r i row p s) = files s"
  by (simp add: announceUpload_def chat_frame)

text \<open>
  C38. Uploads stay in their directory. A binary message stores at most one file, with exactly its bytes, under
  the upload directory and a name of the server's own making: it begins with \<open>msg_\<close> and has no slash, whatever
  file name the client announced.
\<close>

theorem uploads_stay_in_directory:
  "files (onBinary e c data s) = files s \<or>
   (\<exists>name. files (onBinary e c data s) = m_put (''uploads/'' @ name) data (files s) \<and>
      hasPrefix name ''msg_'' \<and> CHR ''/'' \<notin> set name)"
proof -
  have stored: "hasPrefix (generateMessageID e @ ext) ''msg_''" for ext
    by (simp add: generateMessageID_def hasPrefix_def)
  show ?thesis
    by (auto simp: onBinary_def Let_def handleBinaryMessage_def handleBinaryMediaMessage_def saveUploadedFile_def
        files_announce chat_frame stored stored [of "[]", simplified] message_id_no_slash fileExt_no_slash split: option.split)
qed

section \<open>Whom an upload reaches\<close>

definition uploadMessage :: "'db env \<Rightarrow> Client \<Rightarrow> byte list \<Rightarrow> struct \<Rightarrow> ChatMessage" where
  "uploadMessage e x data meta =
     \<lparr>cmType = TFileShare, cmRoomID = strField meta ''roomId'', cmMessageID = '''',
      cmPayload = PStruct (setSender x (setStr ''messageId'' (generateMessageID e) (setStr ''fileName'' (strField meta ''fileName'')
        (m_put ''fileSize'' (JNum (int (length data))) (setStr ''fileType'' (strField meta ''fileType'')
          (setStr ''fileUrl'' (''/files/'' @ generateMessageID e @ fileExt (strField meta ''fileName''))
            (setStr ''roomId'' (strField meta ''roomId'') (zeroStruct FileSharePayload)))))))),
      cmTimestamp = now e\<rparr>"

lemma onBinary_file:
  assumes "map_of (pendingFileMeta s) c = Some meta" and "writeErr e = None"
    and "srv_ok s" and "perm_fn (ord e)" and "d \<noteq> c" and "d \<noteq> ''''"
  shows "cstore (onBinary e c data s) d =
    (if hasClient s (strField meta ''roomId'') d then delivered (uploadMessage e (cstore s c) data meta) (cstore s d) else cstore s d)"
proof -
  have ok: "srv_ok (s\<lparr>pendingFileMeta := p, pendingMediaMeta := q, files := f, db := r\<rparr>)" for p q f r
    using assms(3) by (simp add: srv_ok_def)
  have has: "hasClient (s\<lparr>pendingFileMeta := p, pendingMediaMeta := q, files := f, db := r\<rparr>) = hasClient s" for p q f r
    by (simp add: hasClient_def fun_eq_iff)
  note sent = cstore_broadcast [OF ok assms(4), unfolded has]
  show ?thesis
    using assms(1,2,5,6)
    by (simp add: onBinary_def Let_def handleBinaryMessage_def saveUploadedFile_def announceUpload_def cstore_sendMessage
        uploadMessage_def sent)
qed

text \<open>
  An upload needs no membership. A client that is not in a room can send it a file: the text message with the
  metadata is answered with an error, but the metadata is kept, and the binary message that follows is
  stored and sent to everyone in whatever room the metadata names.
\<close>

theorem upload_reaches_any_room:
  assumes "chat_reach s" and "perm_fn (ord e)" and "readMessage e data = Some msg" and "cmType msg = TFileShare"
    and "\<not> inRooms (cstore s c) (cmRoomID msg)" and "parsePayload e (cmPayload msg) FileSharePayload = Some meta"
    and "strField meta ''roomId'' = r" and "r \<noteq> ''''" and "writeErr e = None"
    and "hasClient s r d" and "d \<noteq> c" and "d \<noteq> ''''" and "\<not> cBroken (cstore s d)"
  shows "cOut (cstore (onText e c data s) d) = cOut (cstore s d) \<and>
    cOut (cstore (onBinary e c bytes (onText e c data s)) d) = cOut (cstore s d) @ [uploadMessage e (cstore s c) bytes meta]"
proof -
  let ?s = "stashMeta e c data s"
  have stash: "?s = s\<lparr>pendingFileMeta := m_put c meta (pendingFileMeta s)\<rparr>"
    using assms(3,4,6-8) by (simp add: stashMeta_def withRoom_def)
  have "\<forall>m. readMessage e data = Some m \<longrightarrow> cmType m \<noteq> TJoinRoom \<and> \<not> inRooms (cstore ?s c) (cmRoomID m)"
    using assms(3-5) by (simp add: stash type_defs)
  note out = handleMessage_outsider [OF this]
  have pend: "pendingFileMeta (beforeRoute e c ?s) = pendingFileMeta ?s"
    by (simp add: beforeRoute_def checkRateLimit_def Let_def case_prod_unfold)
  from out have "pendingFileMeta (onText e c data s) = pendingFileMeta ?s" "rooms (onText e c data s) = rooms s"
    by (auto simp: onText_def chat_frame pend [unfolded stash] stash)
  moreover have others: "cstore (onText e c data s) d = cstore s d"
    using out assms(11) by (auto simp: onText_def sendError_def cstore_sendMessage stash)
  moreover have "cUserID (cstore (onText e c data s) c) = cUserID (cstore s c)" "cUsername (cstore (onText e c data s) c) = cUsername (cstore s c)"
    using out by (auto simp: onText_def chat_frame stash)
  then have "uploadMessage e (cstore (onText e c data s) c) bytes meta = uploadMessage e (cstore s c) bytes meta"
    by (simp add: uploadMessage_def setSender_def)
  moreover have "srv_ok s" using reach_inv [OF assms(1)] by (simp add: chat_inv_def)
  ultimately show ?thesis
    using onBinary_file [of "onText e c data s" c meta e d bytes] assms(2,7,9-13) stash
    by (simp add: srv_ok_def hasClient_def gomap_simps delivered_def)
qed

definition demo_file :: "InMemoryDB env" where
  "demo_file = demo_env\<lparr>parse := talk ''file_share'' ''public:lobby'' (JObj [(''roomId'', JStr ''public:lobby''), (''fileName'', JStr ''x.txt'')])\<rparr>"

definition demo_meta :: struct where
  "demo_meta = the (parsePayload demo_file (cmPayload (the (readMessage demo_file []))) FileSharePayload)"

theorem upload_reaches_any_room_witness:
  "cOut (cstore (onText demo_file ''c9'' [] demo_lobby) ''c1'') = cOut (cstore demo_lobby ''c1'') \<and>
   cOut (cstore (onBinary demo_file ''c9'' [1, 2, 3] (onText demo_file ''c9'' [] demo_lobby)) ''c1'') =
     cOut (cstore demo_lobby ''c1'') @ [uploadMessage demo_file (cstore demo_lobby ''c9'') [1, 2, 3] demo_meta]"
proof (rule upload_reaches_any_room [OF demo_lobby_reach])
  show "perm_fn (ord demo_file)" by (simp add: demo_file_def demo_env_def)
  show "readMessage demo_file [] = Some (the (readMessage demo_file []))" by code_simp
  show "cmType (the (readMessage demo_file [])) = TFileShare" by code_simp
  show "\<not> inRooms (cstore demo_lobby ''c9'') (cmRoomID (the (readMessage demo_file [])))" by code_simp
  show "parsePayload demo_file (cmPayload (the (readMessage demo_file []))) FileSharePayload = Some demo_meta" by code_simp
  show "strField demo_meta ''roomId'' = ''public:lobby''" by code_simp
  show "writeErr demo_file = None" by (simp add: demo_file_def demo_env_def)
  show "hasClient demo_lobby ''public:lobby'' ''c1''" by code_simp
  show "\<not> cBroken (cstore demo_lobby ''c1'')" by code_simp
qed simp_all

section \<open>The length limit\<close>

lemma content_folds: "toLower ''Content'' = ''content''" "toLower ''content'' = ''content''"
  by code_simp+

text \<open>
  The limit on the length of a message. A text message whose payload has a string member \<open>content\<close> longer
  than the limit is refused. But the check looks for that spelling only, while the payload is decoded with
  names compared without regard to case: a message that spells the member \<open>Content\<close> passes with a
  content of any length, and is stored and sent on.
\<close>

theorem content_limit:
  "(cmType msg = TMessage \<and> cmRoomID msg \<noteq> '''' \<and> cmPayload msg = PRaw (JObj kvs) \<and>
      map_of kvs ''content'' = Some (JStr txt) \<and> int (length txt) > MaxMessageLength (security e) \<longrightarrow>
      validateMessage e msg = Some ''message content too long'') \<and>
   (0 \<le> MaxMessageLength (security e) \<and> cmType msg = TMessage \<and> cmRoomID msg \<noteq> '''' \<and>
      cmPayload msg = PRaw (JObj [(''Content'', JStr txt)]) \<longrightarrow>
      validateMessage e msg = None \<and>
      (\<exists>p. parsePayload e (cmPayload msg) MessagePayload = Some p \<and> strField p ''content'' = txt))"
  by (auto simp: content_folds validateMessage_def contentOf_def sprintV_def type_defs parsePayload_def decodeStruct_def decodeInto_def
      decodeMember_def findField_def MessagePayload_def zeroStruct_def strField_def)

theorem content_limit_witness:
  "validateMessage demo_env \<lparr>cmType = ''message'', cmRoomID = ''r'', cmMessageID = '''',
      cmPayload = PRaw (JObj [(''Content'', JStr (replicate 5000 CHR ''x''))]), cmTimestamp = 0\<rparr> = None"
  using content_limit [of "\<lparr>cmType = ''message'', cmRoomID = ''r'', cmMessageID = '''',
      cmPayload = PRaw (JObj [(''Content'', JStr (replicate 5000 CHR ''x''))]), cmTimestamp = 0\<rparr>" "[]"
      "replicate 5000 CHR ''x''" demo_env]
  by (simp add: TMessage_def demo_env_def)

end
