(* ===== verification/ChatTyped.thy ===== *)
theory ChatTyped
  imports ChatReach
begin

text \<open>
  The types of what the chat server sends: every message that ever reaches a client has the payload that
  belongs to its type, with every field of the struct present and of its kind.
\<close>

section \<open>Well-typed messages\<close>

definition payloadOf :: "string \<Rightarrow> schema option" where
  "payloadOf ty = map_of
     [(TMessage, MessagePayload), (TThreadReply, ThreadReplyPayload), (TTypingStart, TypingPayload), (TTypingStop, TypingPayload),
      (TReadReceipt, ReadReceiptPayload), (TFileShare, FileSharePayload), (TMediaShare, MediaSharePayload),
      (TCallInvite, CallInvitePayload), (TCallAnswer, CallAnswerPayload), (TCallEnd, CallEndPayload),
      (TWebRTCSignal, WebRTCSignalPayload), (TScreenShare, ScreenSharePayload), (TRecordingStart, RecordingPayload),
      (TRecordingStop, RecordingPayload)] ty"

definition wellTyped :: "ChatMessage \<Rightarrow> bool" where
  "wellTyped m \<longleftrightarrow>
     (case cmPayload m of
        PRaw j \<Rightarrow> False
      | PStruct p \<Rightarrow> (case payloadOf (cmType m) of None \<Rightarrow> False | Some sch \<Rightarrow> struct_ok sch p)
      | PPresence u n st \<Rightarrow> cmType m = TUserJoined \<or> cmType m = TUserLeft
      | PAck i st \<Rightarrow> cmType m = TAcknowledgment
      | PError code t u \<Rightarrow> cmType m = TError
      | PHistory rows \<Rightarrow> cmType m = ''history'' \<and> rows \<noteq> [])"

lemma payloadOf_types:
  "payloadOf TMessage = Some MessagePayload" "payloadOf TThreadReply = Some ThreadReplyPayload"
  "payloadOf TTypingStart = Some TypingPayload" "payloadOf TTypingStop = Some TypingPayload"
  "payloadOf TReadReceipt = Some ReadReceiptPayload" "payloadOf TFileShare = Some FileSharePayload"
  "payloadOf TMediaShare = Some MediaSharePayload" "payloadOf TCallInvite = Some CallInvitePayload"
  "payloadOf TCallAnswer = Some CallAnswerPayload" "payloadOf TCallEnd = Some CallEndPayload"
  "payloadOf TWebRTCSignal = Some WebRTCSignalPayload" "payloadOf TScreenShare = Some ScreenSharePayload"
  "payloadOf TRecordingStart = Some RecordingPayload" "payloadOf TRecordingStop = Some RecordingPayload"
  by (simp_all add: payloadOf_def type_defs)

lemma wellTyped_simps [simp]:
  "wellTyped (errorMessage e code t u)" "wellTyped (ackMessage e r i st)"
  "wellTyped (presenceMessage e TUserJoined r x st)" "wellTyped (presenceMessage e TUserLeft r x st)"
  by (simp_all add: wellTyped_def errorMessage_def ackMessage_def presenceMessage_def)

text \<open>Filling in fields keeps a struct well-formed.\<close>

lemma struct_ok_setStr:
  "struct_ok sch p \<Longrightarrow> map_of sch n = Some KStr \<or> map_of sch n = Some KTime \<Longrightarrow> struct_ok sch (setStr n v p)"
  unfolding setStr_def by (elim disjE; rule struct_ok_put, assumption, assumption, simp)

lemma struct_ok_bool: "struct_ok sch p \<Longrightarrow> map_of sch n = Some KBool \<Longrightarrow> struct_ok sch (m_put n (JBool b) p)"
  by (rule struct_ok_put, assumption, assumption, simp)

lemma struct_ok_sender:
  "struct_ok sch p \<Longrightarrow> map_of sch ''userId'' = Some KStr \<Longrightarrow> map_of sch ''username'' = Some KStr \<Longrightarrow> struct_ok sch (setSender x p)"
  by (simp add: setSender_def struct_ok_setStr)

lemma struct_ok_withID: "struct_ok sch p \<Longrightarrow> map_of sch ''messageId'' = Some KStr \<Longrightarrow> struct_ok sch (withID e p)"
  by (simp add: withID_def struct_ok_setStr)

lemmas struct_ok_fills = struct_ok_sender struct_ok_withID struct_ok_setStr struct_ok_bool struct_ok_zero

section \<open>The operations send well-typed messages\<close>

definition typed :: "'db srv \<Rightarrow> 'db srv \<Rightarrow> bool" where
  "typed s s' \<longleftrightarrow> (\<forall>d. (\<forall>m \<in> set (cOut (cstore s d)). wellTyped m) \<longrightarrow> (\<forall>m \<in> set (cOut (cstore s' d)). wellTyped m))"

lemma typed_refl [simp]: "typed s s"
  by (simp add: typed_def)

lemma typed_trans: "typed s t \<Longrightarrow> typed t u \<Longrightarrow> typed s u"
  unfolding typed_def by blast

lemma typed_same: "(\<And>d. cOut (cstore s' d) = cOut (cstore s d)) \<Longrightarrow> typed s s'"
  by (simp add: typed_def)

lemma typed_send: "wellTyped m \<Longrightarrow> typed s (sendMessage c m s)"
  by (auto simp: typed_def cstore_sendMessage delivered_def)

lemma typed_error [simp]: "typed s (sendError e c code t u s)"
  by (simp add: sendError_def typed_send)

lemma typed_fold:
  assumes "\<And>x s. typed s (f x s)"
  shows "typed s (fold f xs s)"
proof (induction xs arbitrary: s)
  case (Cons x xs)
  from typed_trans [OF assms Cons] show ?case by simp
qed simp

lemma typed_broadcast: "wellTyped m \<Longrightarrow> typed s (broadcastToRoom e r m x s)"
  by (auto simp: broadcastToRoom_def intro!: typed_fold typed_send split: option.split)

lemma typed_after [intro]: "typed s (s\<lparr>db := d\<rparr>)"
  by (simp add: typed_def)

lemma typed_withPayload:
  "(\<And>p. struct_ok sch p \<Longrightarrow> typed s (k p s)) \<Longrightarrow> typed s (withPayload e c msg sch k s)"
  by (auto simp: withPayload_def parsePayload_def dest: decodeStruct_ok split: option.split)

lemma typed_saveRow:
  assumes "\<And>s. typed s (k s)"
  shows "typed s (saveRow e c t row k s)"
proof -
  have "typed s (k (s\<lparr>db := d\<rparr>))" for d by (rule typed_trans [OF typed_after assms])
  then show ?thesis by (simp add: saveRow_def typed_trans [OF typed_after typed_error] split: prod.split option.split)
qed

lemma wellTyped_struct:
  "payloadOf (cmType m) = Some sch \<Longrightarrow> cmPayload m = PStruct p \<Longrightarrow> struct_ok sch p \<Longrightarrow> wellTyped m"
  by (simp add: wellTyped_def)

lemma typed_publish:
  "payloadOf (cmType msg) = Some sch \<Longrightarrow> struct_ok sch p \<Longrightarrow> typed s (publish e c msg p s)"
  "payloadOf (cmType msg) = Some sch \<Longrightarrow> struct_ok sch p \<Longrightarrow> typed s (publishShare e c msg p s)"
  unfolding publish_def publishShare_def
  by (rule typed_trans [OF typed_broadcast typed_send]; simp add: wellTyped_struct)+

lemma typed_relay:
  assumes "payloadOf (cmType msg) = Some sch" and "\<And>p. struct_ok sch p \<Longrightarrow> struct_ok sch (fill (setSender (cstore s c) p))"
  shows "typed s (relay e c msg sch fill s)"
  unfolding relay_def using assms by (intro typed_withPayload typed_broadcast) (simp add: wellTyped_struct)

subsection \<open>The handlers\<close>

lemma typed_handleReadReceipt: "cmType msg = TReadReceipt \<Longrightarrow> typed s (handleReadReceipt e c msg s)"
proof -
  assume ty: "cmType msg = TReadReceipt"
  have ok: "struct_ok ReadReceiptPayload (setStr ''readAt'' v (setStr ''userId'' u p))" if "struct_ok ReadReceiptPayload p" for p u v
    using that by (simp add: struct_ok_fills ReadReceiptPayload_def)
  show ?thesis
    unfolding handleReadReceipt_def Let_def
  proof (rule typed_withPayload)
    fix p
    assume "struct_ok ReadReceiptPayload p"
    then have "typed s (broadcastToRoom e r (msg\<lparr>cmPayload := PStruct (setStr ''readAt'' v (setStr ''userId'' u p))\<rparr>) c (s\<lparr>db := d\<rparr>))" for r u v d
      by (intro typed_trans [OF typed_after typed_broadcast]) (simp add: wellTyped_def ok ty payloadOf_types)
    then show "typed s (case SaveReadReceipt (ops e) \<lparr>rrMessageID = strField (setStr ''readAt'' (timeText e (now e))
          (setStr ''userId'' (cUserID (cstore s c)) p)) ''messageId'', rrUserID = cUserID (cstore s c), rrReadAt = now e\<rparr> (db s) of
        (None, d) \<Rightarrow> broadcastToRoom e (cmRoomID msg) (msg\<lparr>cmPayload := PStruct (setStr ''readAt'' (timeText e (now e))
          (setStr ''userId'' (cUserID (cstore s c)) p))\<rparr>) c (s\<lparr>db := d\<rparr>)
      | (Some err, d) \<Rightarrow> sendError e c 500 ''Failed to save read receipt'' err (s\<lparr>db := d\<rparr>))"
      by (simp add: typed_trans [OF typed_after typed_error] split: prod.split option.split)
  qed
qed

lemma typed_handleTyping: "typed s (handleTyping e c msg s)"
proof -
  have "typed s (broadcastToRoom e r (msg\<lparr>cmType := ty, cmPayload := PStruct (setSender x p)\<rparr>) c
      (updClient c (\<lambda>x. x\<lparr>cIsTyping := f x\<rparr>) (s\<lparr>typingClients := tc\<rparr>)))"
    if "struct_ok TypingPayload p" "payloadOf ty = Some TypingPayload" for ty p x f tc r
    by (rule typed_trans [OF typed_same typed_broadcast], simp)
      (use that in \<open>simp add: wellTyped_def struct_ok_fills TypingPayload_def\<close>)
  then show ?thesis
    by (auto simp: handleTyping_def Let_def parsePayload_def payloadOf_types dest: decodeStruct_ok split: option.split)
qed

lemma typed_saving:
  "cmType msg = TMessage \<Longrightarrow> typed s (handleChatMessage e c msg s)"
  "cmType msg = TThreadReply \<Longrightarrow> typed s (handleThreadReply e c msg s)"
  "cmType msg = TFileShare \<Longrightarrow> typed s (handleFileShare e c msg s)"
  "cmType msg = TMediaShare \<Longrightarrow> typed s (handleMediaShare e c msg s)"
proof -
  have ok: "struct_ok MessagePayload p \<Longrightarrow> struct_ok MessagePayload (setSender x (withID e p))"
    "struct_ok ThreadReplyPayload p \<Longrightarrow> struct_ok ThreadReplyPayload (setSender x (withID e p))"
    "struct_ok FileSharePayload p \<Longrightarrow> struct_ok FileSharePayload (setSender x (withID e p))"
    "struct_ok MediaSharePayload p \<Longrightarrow> struct_ok MediaSharePayload (setSender x (withID e p))" for x p
    by (rule struct_ok_sender [OF struct_ok_withID]; simp add: payload_defs)+
  show "cmType msg = TMessage \<Longrightarrow> typed s (handleChatMessage e c msg s)"
    unfolding handleChatMessage_def Let_def
    by (intro typed_withPayload typed_saveRow typed_publish [where sch = MessagePayload]) (simp_all add: payloadOf_types ok)
  show "cmType msg = TThreadReply \<Longrightarrow> typed s (handleThreadReply e c msg s)"
    unfolding handleThreadReply_def Let_def
    by (intro typed_withPayload) (auto simp: payloadOf_types ok intro!: typed_saveRow typed_publish split: sum.split)
  show "cmType msg = TFileShare \<Longrightarrow> typed s (handleFileShare e c msg s)"
    unfolding handleFileShare_def Let_def
    by (intro typed_withPayload) (auto simp: payloadOf_types ok intro!: typed_saveRow typed_publish)
  show "cmType msg = TMediaShare \<Longrightarrow> typed s (handleMediaShare e c msg s)"
    unfolding handleMediaShare_def Let_def
    by (intro typed_withPayload typed_saveRow typed_publish [where sch = MediaSharePayload]) (simp_all add: payloadOf_types ok)
qed

lemma typed_calls:
  "cmType msg = TCallInvite \<Longrightarrow> typed s (handleCallInvite e c msg s)"
  "cmType msg = TCallAnswer \<Longrightarrow> typed s (handleCallAnswer e c msg s)"
  "cmType msg = TCallEnd \<Longrightarrow> typed s (handleCallEnd e c msg s)"
  "cmType msg = TWebRTCSignal \<Longrightarrow> typed s (handleWebRTCSignal e c msg s)"
  "cmType msg = TScreenShare \<Longrightarrow> typed s (handleScreenShare e c msg s)"
  "cmType msg = TRecordingStart \<Longrightarrow> typed s (handleRecordingStart e c msg s)"
  "cmType msg = TRecordingStop \<Longrightarrow> typed s (handleRecordingStop e c msg s)"
  unfolding handleCallInvite_def handleCallAnswer_def handleCallEnd_def handleWebRTCSignal_def handleScreenShare_def
    handleRecordingStart_def handleRecordingStop_def
  by (rule typed_relay; simp add: payloadOf_types struct_ok_fills payload_defs)+

lemma typed_enterRoom: "typed s (enterRoom r c s)"
  by (rule typed_same) (simp add: enterRoom_def split: option.split)

lemma typed_sendHistory: "typed s (sendHistory e r c s)"
  by (auto simp: sendHistory_def wellTyped_def intro!: typed_send split: outcome.split sum.split list.split)

lemma typed_getOrCreateRoom: "typed s (snd (getOrCreateRoom e r s))"
  using getOrCreateRoom_frame(1) [of e r s] by (intro typed_same) (metis prod.collapse)

lemma typed_handleJoinRoom: "typed s (handleJoinRoom e c msg s)"
proof -
  obtain res s1 where g: "getOrCreateRoom e (cmRoomID msg) s = (res, s1)" by fastforce
  then have s1: "typed s s1" using typed_getOrCreateRoom [of s e "cmRoomID msg"] by simp
  have tail: "typed s (sendMessage c (ackMessage e r i st) (broadcastToRoom e r (presenceMessage e TUserJoined r x st') c
      (sendHistory e r c s3)))" if "typed s s3" for s3 r i st x st'
    by (intro typed_trans [OF typed_trans [OF typed_trans [OF that typed_sendHistory] typed_broadcast] typed_send]) simp_all
  have enter: "typed s (enterRoom r c s1)" "typed s ((enterRoom r c s1)\<lparr>db := d\<rparr>)" for r d
    using typed_trans [OF s1 typed_enterRoom] typed_trans [OF typed_trans [OF s1 typed_enterRoom] typed_after] by blast+
  note err = typed_trans [OF s1 typed_error]
  show ?thesis
    unfolding handleJoinRoom_def Let_def g by (auto intro!: tail enter err split: sum.split)
qed

lemma typed_dropFromRoom: "typed s (dropFromRoom r c s)"
  by (rule typed_same) simp

lemma typed_handleLeaveRoom: "typed s (handleLeaveRoom e c msg s)"
proof -
  let ?r = "cmRoomID msg"
  let ?s2 = "updClient c (\<lambda>x. x\<lparr>cRooms := m_del ?r (cRooms x)\<rparr>) (dropFromRoom ?r c s)"
  have "typed s (broadcastToRoom e ?r (presenceMessage e TUserLeft ?r x st) c ?s2)"
    "typed s (broadcastToRoom e ?r (presenceMessage e TUserLeft ?r x st) c (?s2\<lparr>db := d\<rparr>))" for x st d
    by (rule typed_trans [OF typed_same typed_broadcast]; auto)+
  then show ?thesis by (simp add: handleLeaveRoom_def Let_def)
qed

lemma typed_routeMessage: "typed s (routeMessage e c msg s)"
  by (simp add: routeMessage_def typed_handleJoinRoom typed_handleLeaveRoom typed_saving typed_handleTyping
      typed_handleReadReceipt typed_calls)

lemma typed_beforeRoute: "typed s (beforeRoute e c s)"
  by (rule typed_same) simp

lemma typed_handleMessage: "typed s (handleMessage e c data s)"
  using typed_trans [OF typed_beforeRoute typed_routeMessage] typed_trans [OF typed_beforeRoute typed_error]
  by (cases rule: handleMessage_cases [of e c data s]) simp_all

section \<open>Uploads, ticks, disconnects, requests\<close>

lemma typed_announce:
  "payloadOf ty = Some sch \<Longrightarrow> struct_ok sch p \<Longrightarrow> typed s (announceUpload e c ty r i row p s)"
  unfolding announceUpload_def
  by (intro typed_trans [OF typed_trans [OF typed_after typed_broadcast] typed_send]) (simp add: wellTyped_def, simp)

lemma typed_uploads:
  assumes "int (length data) < 2 ^ 63"
  shows "typed s (handleBinaryMessage e c data ft fn r s)" "typed s (handleBinaryMediaMessage e c data meta s)"
proof -
  have size: "struct_ok FileSharePayload p \<Longrightarrow> struct_ok FileSharePayload (m_put ''fileSize'' (JNum (int (length data))) p)" for p
    by (rule struct_ok_put [where k = KInt]) (use assms in \<open>simp_all add: FileSharePayload_def\<close>)
  have ok: "struct_ok FileSharePayload (setSender x (setStr ''messageId'' i (setStr ''fileName'' n (m_put ''fileSize'' (JNum (int (length data)))
      (setStr ''fileType'' t (setStr ''fileUrl'' u (setStr ''roomId'' q (zeroStruct FileSharePayload))))))))"
    "struct_ok MediaSharePayload (setSender x (setStr ''messageId'' i (setStr ''mediaType'' t (setStr ''fileUrl'' u (setStr ''roomId'' q
      (zeroStruct MediaSharePayload))))))" for x i n t u q
    by (intro struct_ok_sender struct_ok_setStr size struct_ok_zero; simp add: payload_defs)+
  have "typed s (announceUpload e c TFileShare r i row p (s\<lparr>files := f\<rparr>))" if "struct_ok FileSharePayload p" for r i row p f
    by (rule typed_trans [OF typed_same typed_announce [OF payloadOf_types(6) that]]) simp
  with ok(1) show "typed s (handleBinaryMessage e c data ft fn r s)"
    by (simp add: handleBinaryMessage_def saveUploadedFile_def Let_def split: option.split)
  have "typed s (announceUpload e c TMediaShare r i row p (s\<lparr>files := f\<rparr>))" if "struct_ok MediaSharePayload p" for r i row p f
    by (rule typed_trans [OF typed_same typed_announce [OF payloadOf_types(7) that]]) simp
  with ok(2) show "typed s (handleBinaryMediaMessage e c data meta s)"
    by (simp add: handleBinaryMediaMessage_def saveUploadedFile_def Let_def split: option.split)
qed

lemma typed_onBinary:
  assumes "int (length data) < 2 ^ 63"
  shows "typed s (onBinary e c data s)"
proof -
  let ?s = "s\<lparr>pendingFileMeta := m_del c (pendingFileMeta s), pendingMediaMeta := m_del c (pendingMediaMeta s)\<rparr>"
  have s: "typed s ?s" by (rule typed_same) simp
  show ?thesis
    using typed_trans [OF s typed_uploads(1) [OF assms]] typed_trans [OF s typed_uploads(2) [OF assms]] typed_trans [OF s typed_error]
    by (simp add: onBinary_def Let_def split: option.split)
qed

lemma typed_stashMeta: "typed s (stashMeta e c data s)"
  by (rule typed_same) (simp add: stashMeta_def split: option.split)

lemma typed_expireOne: "typed s (expireOne e r x s)"
proof -
  have ok: "struct_ok TypingPayload (m_put ''isTyping'' (JBool False) (setSender x (zeroStruct TypingPayload)))" for x
    by (intro struct_ok_bool struct_ok_sender struct_ok_zero; simp add: TypingPayload_def)
  have "typed s (broadcastToRoom e r (typingStopMessage e r x) c (updClient c (\<lambda>x. x\<lparr>cIsTyping := f x\<rparr>) (s\<lparr>typingClients := tc\<rparr>)))" for x c f tc
    by (rule typed_trans [OF typed_same typed_broadcast]) (simp_all add: wellTyped_def typingStopMessage_def payloadOf_types ok)
  then show ?thesis by (simp add: expireOne_def Let_def) (simp add: typed_def)
qed

lemma typed_tick: "typed s (cleanupTypingIndicators e s)"
proof -
  have "typed s (expireRoom e r s)" for r and s :: "'a srv"
  proof -
    have entries: "typed s (fold (expireOne e r) xs s)" for xs by (rule typed_fold) (rule typed_expireOne)
    have "typed s ((fold (expireOne e r) xs s)\<lparr>typingClients := tc\<rparr>)" for xs tc
      by (rule typed_trans [OF entries typed_same]) simp
    with entries show ?thesis by (simp add: expireRoom_def Let_def)
  qed
  then show ?thesis unfolding cleanupTypingIndicators_def by (rule typed_fold)
qed

lemma typed_disconnect: "typed s (handleClientDisconnect e c s)"
proof -
  have "typed s (leaveOne e c r s)" for r and s :: "'a srv"
    unfolding leaveOne_def by (rule typed_trans [OF typed_broadcast typed_dropFromRoom]) simp
  then have "typed s (fold (leaveOne e c) rs s)" for rs by (rule typed_fold)
  from typed_trans [OF this typed_same] show ?thesis unfolding handleClientDisconnect_def Let_def by simp
qed

lemma typed_uploadLoop: "typed s (snd (uploadLoop e userID username roomID mediaType fs acc s))"
proof (induction fs arbitrary: e acc s)
  case (Cons f fs)
  have "cmType m = TFileShare \<Longrightarrow> typed s (handleFileShareFromHTTP e' u m s)"
    "cmType m = TMediaShare \<Longrightarrow> typed s (handleMediaShareFromHTTP e' u m s)" for e' u m
    by (simp_all add: handleFileShareFromHTTP_def handleMediaShareFromHTTP_def typed_saving split: option.split)
  from typed_trans [OF this(1) Cons.IH] typed_trans [OF this(2) Cons.IH] Cons.IH show ?case
    by (auto simp: Let_def mediaUpload_def fileUpload_def split: option.split)
qed simp

lemma typed_makeRoom: "typed s (snd (makeRoom e i ty name ms s))"
  using makeRoom_db [of e i ty name ms s] by auto

lemma typed_create: "typed s (snd (CreateGroupRoom e name u s))" "typed s (snd (CreateDMRoom e u1 u2 s))"
  by (simp_all add: CreateGroupRoom_def CreateDMRoom_def Let_def typed_makeRoom split: sum.split)

lemma typed_httpServe: "typed s (snd (httpServe e r s))"
proof -
  have user: "(\<And>u. typed s (snd (k u s))) \<Longrightarrow> typed s (snd (withUser e r h k s))" for k h
    by (simp add: withUser_def split: option.split)
  have "typed s s'" if "uploadLoop e u n i t fs [] s = (res, s')" for u n i t fs res s'
    using typed_uploadLoop [of s e u n i t fs "[]"] that by simp
  then have "typed s (snd (FileUploadHandler e r h s))" for h
    by (auto simp: FileUploadHandler_def Let_def split: option.split prod.split sum.split)
  moreover have "typed s (snd (CreateRoomHandler e r h s))" for h
    using typed_create by (auto simp: CreateRoomHandler_def Let_def split: option.split sum.split)
  moreover have "typed s (snd (DeleteRoomHandler e r h s))" for h
    by (auto simp: DeleteRoomHandler_def split: prod.split option.split)
  moreover have "typed s (snd (InviteUserHandler e r h s))" "typed s (snd (RemoveUserHandler e r h s))" "typed s (snd (BanUserHandler e r h s))" for h
    unfolding InviteUserHandler_def RemoveUserHandler_def BanUserHandler_def
    by (auto intro!: user split: prod.split option.split)
  ultimately have "typed s (snd (SetupRoutes e r h s))" for h
    by (simp add: SetupRoutes_def roomRoutes_def Let_def case_prod_unfold)
  then show ?thesis by (simp add: httpServe_def CORS_def)
qed

lemma typed_serve: "serve_step s s' \<Longrightarrow> typed s s'"
proof (induction rule: serve_step.induct)
  case (TextMsg e s c data)
  then show ?case unfolding onText_def by (intro typed_trans [OF typed_stashMeta typed_handleMessage])
next
  case (Break s c)
  then show ?case by (simp add: typed_def)
qed (simp_all add: typed_onBinary typed_disconnect typed_tick typed_create typed_httpServe)

section \<open>Every message that was ever sent\<close>

text \<open>
  C19. Everything the chat server sends is well-typed. In every state it can reach, every message that was ever
  sent to any client has the payload of its type: a struct with all the fields of its kind for the
  types that carry one, presence, acknowledgment, error and history otherwise. Raw input of
  a client is never passed on.
\<close>

theorem sent_messages_typed:
  assumes "chat_reach s" and "m \<in> set (cOut (cstore s c))"
  shows "wellTyped m"
proof -
  have "\<forall>d. \<forall>m \<in> set (cOut (cstore s d)). wellTyped m"
    using assms(1)
  proof (induction rule: chat_reach.induct)
    case (Start e d)
    then show ?case by (simp add: initializeDefaultRooms_def defaultRoom_def NewChatServer_def)
  next
    case (Connect s e redisGet proto)
    then show ?case by (simp add: handleNewConnection_def handleNewConnectionWithUser_def Let_def)
  next
    case (Serve s s')
    then show ?case using typed_serve [of s s'] by (simp add: typed_def)
  qed
  with assms(2) show ?thesis by blast
qed

theorem sent_messages_typed_witness:
  "list_all wellTyped (cOut (cstore (onText demo_say ''c1'' [] demo_lobby) ''c1'')) \<and>
   length (cOut (cstore (onText demo_say ''c1'' [] demo_lobby) ''c1'')) = 3"
proof
  have "chat_reach (onText demo_say ''c1'' [] demo_lobby)"
    by (rule reach_text [OF demo_lobby_reach]) (simp add: demo_say_def demo_env_def)
  from sent_messages_typed [OF this] show "list_all wellTyped (cOut (cstore (onText demo_say ''c1'' [] demo_lobby) ''c1''))"
    by (auto simp: list_all_iff)
  show "length (cOut (cstore (onText demo_say ''c1'' [] demo_lobby) ''c1'')) = 3" by code_simp
qed

end
