(* ===== verification/ChatWeb.thy ===== *)
theory ChatWeb
  imports ChatUpload ChatRooms
begin

text \<open>
  What the REST interface of the chat server lets its callers do: read histories, get into groups, fetch
  uploads, and what becomes of files sent over HTTP.
\<close>

section \<open>Paths\<close>

lemma hasSuffix_last: "hasSuffix s p \<Longrightarrow> p \<noteq> [] \<Longrightarrow> last s = last p"
  unfolding hasSuffix_def by (metis append_take_drop_id last_appendR)

lemma long_path: "xs @ ys = zs \<Longrightarrow> length ys \<le> length zs"
  by auto

lemma httpServe_room:
  assumes "rqPath r = ''/api/rooms/'' @ R @ t" and "6 < length t" and "rqMethod r \<noteq> ''OPTIONS''"
  shows "httpServe e r s = roomRoutes e r (corsHeaders []) s"
proof -
  have p: "hasPrefix (rqPath r) ''/api/rooms/''" unfolding assms(1) by (rule hasPrefix_append)
  have "R @ t \<noteq> ''create''" using assms(2) long_path [of R t "''create''"] by auto
  with assms(1) have "rqPath r \<notin> {''/ws'', ''/api/rooms'', ''/api/rooms/create'', ''/api/upload'', ''/enhanced'', ''/api/users''}"
    by auto
  then have "SetupRoutes e r h s = roomRoutes e r h s" for h using p by (simp add: SetupRoutes_def Let_def)
  with assms(3) show ?thesis by (simp add: httpServe_def CORS_def)
qed

section \<open>Histories\<close>

lemma pageLimit_range: "1 \<le> pageLimit t" "pageLimit t \<le> 1000"
  by (auto simp: pageLimit_def split: option.split)

lemma pageOffset_range: "0 \<le> pageOffset t"
  by (auto simp: pageOffset_def split: option.split)

lemma memGetMessages_returns:
  assumes "0 \<le> lim" and "0 \<le> off"
  shows "memGetMessages w r lim off m = Returned (Inr (take (nat lim) (drop (nat off) (roomMessages w r m))))"
  using assms by (auto simp: memGetMessages_def roomMessages_def [symmetric] Let_def nat_diff_distrib nat_add_distrib)

lemma pathParts_room: "CHR ''/'' \<notin> set R \<Longrightarrow> rqPath r = ''/api/rooms/'' @ R @ CHR ''/'' # t \<Longrightarrow> pathParts r = R # splitOn CHR ''/'' t"
  using splitOn_append [of "CHR ''/''" R t] by (simp only: pathParts_def roomPath_def trimPrefix_append simp_thms)

text \<open>
  Histories are open to all. On the in-memory database, a request for the messages of a room, by any method,
  with any headers and whoever asks, is answered with a page of that room's messages, also for
  groups and conversations whose rooms the caller would not be let into. Whatever the
  parameters, the page has between 1 and 1000 messages' room and the request cannot panic.
\<close>

theorem messages_open_to_all:
  assumes "ops e = inMemory w" and "CHR ''/'' \<notin> set R" and "rqPath r = ''/api/rooms/'' @ R @ ''/messages''"
    and "rqMethod r \<noteq> ''OPTIONS''"
  shows "\<exists>resp lim off. httpServe e r s = (Returned resp, s) \<and> rsStatus resp = 200 \<and> 1 \<le> lim \<and> lim \<le> 1000 \<and>
    rsBody resp = BMessages (take lim (drop off (roomMessages w R (db s)))) \<and>
    (rqQuery r ''limit'' = '''' \<and> rqQuery r ''offset'' = '''' \<longrightarrow> lim = 50 \<and> off = 0)"
proof -
  define lim off where "lim = pageLimit (rqQuery r ''limit'')" and "off = pageOffset (rqQuery r ''offset'')"
  have range: "1 \<le> lim" "lim \<le> 1000" "0 \<le> off" by (simp_all add: lim_def off_def pageLimit_range pageOffset_range)
  have "hasSuffix (rqPath r) ''/messages''"
    using hasSuffix_append [of "''/api/rooms/'' @ R" "''/messages''"] by (simp add: assms(3))
  moreover have "pathParts r = [R, ''messages'']" using pathParts_room [OF assms(2)] assms(3) by simp
  moreover have "memGetMessages w R lim off (db s) = Returned (Inr (take (nat lim) (drop (nat off) (roomMessages w R (db s)))))"
    using range by (intro memGetMessages_returns) simp_all
  ultimately have "roomRoutes e r h s = (Returned (httpJSON h (BMessages (take (nat lim) (drop (nat off) (roomMessages w R (db s)))))), s)" for h
    by (simp add: roomRoutes_def GetMessagesHandler_def assms(1) inMemory_def lim_def [symmetric] off_def [symmetric])
  then have "httpServe e r s = (Returned (httpJSON (corsHeaders []) (BMessages (take (nat lim) (drop (nat off) (roomMessages w R (db s)))))), s)"
    by (simp add: httpServe_room [OF assms(3) _ assms(4)])
  moreover have "rqQuery r ''limit'' = '''' \<Longrightarrow> nat lim = 50" "rqQuery r ''offset'' = '''' \<Longrightarrow> nat off = 0"
    by (simp_all add: lim_def off_def pageLimit_def pageOffset_def)
  moreover have "1 \<le> nat lim" "nat lim \<le> 1000" using range by simp_all
  ultimately show ?thesis
    by - (rule exI [of _ "httpJSON (corsHeaders []) (BMessages (take (nat lim) (drop (nat off) (roomMessages w R (db s)))))"],
      rule exI [of _ "nat lim"], rule exI [of _ "nat off"], simp add: httpJSON_def)
qed

definition demo_request :: "string \<Rightarrow> string \<Rightarrow> request" where
  "demo_request method path = \<lparr>rqMethod = method, rqPath = path, rqQuery = (\<lambda>_. ''''), rqHeader = (\<lambda>_. ''''),
     rqRemoteAddr = '''', rqBody = None, rqFiles = None, rqFormValue = (\<lambda>_. '''')\<rparr>"

theorem messages_open_to_all_witness:
  "\<exists>resp. httpServe demo_env (demo_request ''GET'' ''/api/rooms/r/messages'') (demo_srv\<lparr>db := demo_db\<rparr>) =
      (Returned resp, demo_srv\<lparr>db := demo_db\<rparr>) \<and>
    rsBody resp = BMessages [demo_msg ''a'', demo_msg ''b'']"
proof -
  let ?r = "demo_request ''GET'' ''/api/rooms/r/messages''"
  have "ops demo_env = inMemory id" "CHR ''/'' \<notin> set ''r''" "rqPath ?r = ''/api/rooms/'' @ ''r'' @ ''/messages''"
    "rqMethod ?r \<noteq> ''OPTIONS''"
    by (simp_all add: demo_env_def demo_request_def)
  from messages_open_to_all [OF this, of "demo_srv\<lparr>db := demo_db\<rparr>"] show ?thesis
    by (auto simp: demo_request_def roomMessages_def memValues_def demo_db_def NewInMemoryDB_def demo_msg_def)
qed

section \<open>Invitations\<close>

text \<open>A member of a group gets in, whether or not the room is in memory.\<close>

lemma group_member_enters:
  assumes "ops e = inMemory w" and "hasPrefix R ''group:''" and "memHasRoom (db s) R"
    and "memIsMember (db s) R (cUserID (cstore s c))" and "cmRoomID msg = R"
  shows "hasClient (handleJoinRoom e c msg s) R c"
proof -
  have pre: "\<not> hasPrefix R ''public:''" "\<not> hasPrefix R ''dm:''" using assms(2) by (auto simp: hasPrefix_iff)
  obtain row where row: "GetRoom (ops e) R (db s) = Inr row" using memdb.get_room [of w R "db s"] assms(1,3) by auto
  have perm: "checkRoomPermission e c R t = Inr True" if "db t = db s" "cstore t = cstore s" for t
    using memdb.is_in [of w R "cUserID (cstore s c)" "db s"] pre assms(1,4) that by (simp add: checkRoomPermission_def)
  have "mayEnter e c R s"
    using pre assms(2) row perm [of s] perm [of "putRoom R room s" for room]
    by (auto simp: mayEnter_def getOrCreateRoom_def roomTypeOf_def room_type_defs Let_def putRoom_def split: option.split)
  with assms(5) show ?thesis by (simp add: hasClient_handleJoinRoom)
qed

text \<open>
  Anyone can let anyone into a group. A single request, from whoever, makes a user a member of any
  group; from then on a request to join by any client with that user id succeeds.
\<close>

theorem invite_opens_groups:
  assumes "ops e = inMemory w" and "ops e' = inMemory w'" and "rqMethod r = ''POST''"
    and "rqPath r = ''/api/rooms/'' @ R @ ''/invite''" and "decodeBody e userRequest r = Some q"
    and "strField q ''userId'' = u" and "u \<noteq> ''''" and "hasPrefix R ''group:''" and "memHasRoom (db s) R"
    and "cUserID (cstore s c) = u" and "cmRoomID msg = R"
  shows "\<exists>s'. httpServe e r s = (Returned (noContent (corsHeaders [])), s') \<and> memIsMember (db s') R u \<and>
    hasClient (handleJoinRoom e' c msg s') R c"
proof -
  let ?mb = "newMember e R u ''member''"
  define d where "d = snd (AddRoomMember (inMemory w) ?mb (db s))"
  have add: "AddRoomMember (inMemory w) ?mb (db s) = (None, d)"
    using memdb.add_result [of w ?mb "db s"] by (simp add: d_def prod_eq_iff)
  have suffix: "hasSuffix (rqPath r) ''/invite''"
    using hasSuffix_append [of "''/api/rooms/'' @ R" "''/invite''"] by (simp add: assms(4))
  have "last (rqPath r) = CHR ''e''" by (simp add: assms(4))
  then have others: "\<not> hasSuffix (rqPath r) ''/messages''" "\<not> hasSuffix (rqPath r) ''/members''"
    by (auto dest: hasSuffix_last)
  have "roomPath r = R @ ''/invite''" unfolding roomPath_def assms(4) by (rule trimPrefix_append)
  then have "trimSuffix (roomPath r) ''/invite'' = R" by simp
  then have "InviteUserHandler e r h s = (noContent h, s\<lparr>db := d\<rparr>)" for h
    using assms(1,3,5-7) add by (simp add: InviteUserHandler_def withUser_def)
  then have "httpServe e r s = (Returned (noContent (corsHeaders [])), s\<lparr>db := d\<rparr>)"
    using suffix others assms(3) by (simp add: httpServe_room [OF assms(4)] roomRoutes_def)
  moreover have "memIsMember d R u" unfolding d_def by (simp add: memdb.add_member newMember_def)
  moreover have "memHasRoom d R" unfolding d_def by (simp add: memdb.add_rooms assms(9))
  ultimately show ?thesis using group_member_enters [OF assms(2,8), of "s\<lparr>db := d\<rparr>" c msg] assms(10,11) by simp
qed

definition demo_group :: "InMemoryDB srv" where
  "demo_group = snd (CreateGroupRoom demo_env ''G'' ''bob'' demo_srv)"

definition demo_invite :: request where
  "demo_invite = (demo_request ''POST'' ''/api/rooms/group:aaaaaaaaaaaaaaaa/invite'')
     \<lparr>rqBody := Some (JObj [(''userId'', JStr ''ann'')])\<rparr>"

theorem invite_opens_groups_witness:
  "\<not> memIsMember (db demo_group) ''group:aaaaaaaaaaaaaaaa'' ''ann'' \<and>
   (\<exists>s'. httpServe demo_env demo_invite demo_group = (Returned (noContent (corsHeaders [])), s') \<and>
      memIsMember (db s') ''group:aaaaaaaaaaaaaaaa'' ''ann'' \<and>
      hasClient (handleJoinRoom demo_env ''c1'' \<lparr>cmType = TJoinRoom, cmRoomID = ''group:aaaaaaaaaaaaaaaa'', cmMessageID = '''',
        cmPayload = PRaw JNull, cmTimestamp = 0\<rparr> s') ''group:aaaaaaaaaaaaaaaa'' ''c1'')"
proof
  show "\<not> memIsMember (db demo_group) ''group:aaaaaaaaaaaaaaaa'' ''ann''" by code_simp
  have "decodeBody demo_env userRequest demo_invite = Some [(''userId'', JStr ''ann'')]"
    "memHasRoom (db demo_group) ''group:aaaaaaaaaaaaaaaa''" "cUserID (cstore demo_group ''c1'') = ''ann''"
    "strField [(''userId'', JStr ''ann'')] ''userId'' = ''ann''"
    by code_simp+
  then show "\<exists>s'. httpServe demo_env demo_invite demo_group = (Returned (noContent (corsHeaders [])), s') \<and>
      memIsMember (db s') ''group:aaaaaaaaaaaaaaaa'' ''ann'' \<and>
      hasClient (handleJoinRoom demo_env ''c1'' \<lparr>cmType = TJoinRoom, cmRoomID = ''group:aaaaaaaaaaaaaaaa'', cmMessageID = '''',
        cmPayload = PRaw JNull, cmTimestamp = 0\<rparr> s') ''group:aaaaaaaaaaaaaaaa'' ''c1''"
    by (intro invite_opens_groups) (simp_all add: demo_env_def demo_invite_def demo_request_def hasPrefix_def)
qed

section \<open>Uploads and downloads\<close>

lemma baseName_last:
  assumes "CHR ''/'' \<notin> set n" and "n \<noteq> ''''"
  shows "baseName (''/files/'' @ n) = n"
proof -
  have rest: "dropWhile (\<lambda>c. c = CHR ''/'') (rev n @ t) = rev n @ t" for t
    using assms by (cases "rev n") (auto simp: in_set_conv_decomp dest: arg_cong [of _ _ set])
  have "takeWhile (\<lambda>c. c \<noteq> CHR ''/'') (rev n @ CHR ''/'' # t) = rev n" for t
    using assms(1) by (subst takeWhile_append2) auto
  with rest assms(2) show ?thesis by (simp add: baseName_def Let_def)
qed

lemma httpServe_files:
  assumes "rqPath r = ''/files/'' @ n" and "CHR ''/'' \<notin> set n" and "n \<notin> {'''', ''.'', ''..''}" and "rqMethod r \<noteq> ''OPTIONS''"
    and "map_of (files s) (''uploads/'' @ n) = Some data"
  shows "\<exists>resp. httpServe e r s = (Returned resp, s) \<and> rsStatus resp = 200 \<and> rsBody resp = BFile data"
proof -
  have "hasPrefix (rqPath r) ''/files/''" "\<not> hasPrefix (rqPath r) ''/api/rooms/''"
    unfolding assms(1) by (simp_all add: hasPrefix_def)
  moreover have "rqPath r \<notin> {''/ws'', ''/api/rooms'', ''/api/rooms/create'', ''/api/upload'', ''/enhanced'', ''/api/users''}"
    by (simp add: assms(1))
  ultimately have "httpServe e r s = (Returned (fileServerHandler r (corsHeaders []) s), s)"
    using assms(4) by (simp add: httpServe_def CORS_def SetupRoutes_def Let_def)
  moreover have "baseName (rqPath r) = n" using assms(1-3) baseName_last by simp
  moreover have "joinUploads n = ''uploads/'' @ n" using assms(2,3) by (auto simp: joinUploads_def)
  moreover have "openFile s (''uploads/'' @ n) = Some data" using assms(5) by (simp add: openFile_def)
  ultimately show ?thesis by (simp add: fileServerHandler_def)
qed


definition demo_pending :: "InMemoryDB srv" where
  "demo_pending = demo_srv\<lparr>pendingFileMeta := [(''c1'', demo_meta)]\<rparr>"

definition demo_download :: request where
  "demo_download = demo_request ''GET'' ''/files/msg_0_aaaaaaaaaaaa.txt''"


section \<open>Uploads over HTTP\<close>

text \<open>Files that all can be read and are small enough, for somebody who is not online.\<close>

definition readable :: "FileHeader \<Rightarrow> bool" where
  "readable f \<longleftrightarrow> fhOpens f \<and> fhSize f \<le> 10 * 1024 * 1024 \<and> fhRead f \<noteq> None"

lemma uploadLoop_dropped:
  assumes "\<forall>f \<in> set fs. readable f" and "\<forall>c. c \<in> set (ord e (m_keys (clients s))) \<longrightarrow> cUserID (cstore s c) \<noteq> u"
  shows "\<exists>infos. uploadLoop e u n R t fs acc s = (Inr (acc @ infos), s) \<and> map fiName infos = map fhFilename fs \<and>
    (\<forall>i \<in> set infos. fiURL i = ''/api/files/'' @ fiID i)"
  using assms
proof (induction fs arbitrary: e acc)
  case (Cons f fs)
  let ?e = "e\<lparr>rnd := drop 32 (rnd e)\<rparr>"
  from Cons.prems(1) obtain data where f: "fhOpens f" "\<not> fhSize f > 10 * 1024 * 1024" "fhRead f = Some data"
    by (auto simp: readable_def)
  have "clientOf ?e u s = None" using Cons.prems(2) by (simp add: clientOf_def find_None_iff)
  then have "handleFileShareFromHTTP ?e u m s = s" "handleMediaShareFromHTTP ?e u m s = s" for m
    by (simp_all add: handleFileShareFromHTTP_def handleMediaShareFromHTTP_def)
  then have step: "uploadLoop e u n R t (f # fs) acc s =
      uploadLoop ?e u n R t fs (acc @ [fileInfo f (generateFileID e) (generateHTTPMessageID e)]) s"
    using f by (simp add: Let_def)
  obtain infos where "uploadLoop ?e u n R t fs (acc @ [fileInfo f (generateFileID e) (generateHTTPMessageID e)]) s =
      (Inr ((acc @ [fileInfo f (generateFileID e) (generateHTTPMessageID e)]) @ infos), s)"
    "map fiName infos = map fhFilename fs" "\<forall>i \<in> set infos. fiURL i = ''/api/files/'' @ fiID i"
    using Cons.IH [of ?e "acc @ [fileInfo f (generateFileID e) (generateHTTPMessageID e)]"] Cons.prems by auto
  then show ?case unfolding step
    by (intro exI [of _ "fileInfo f (generateFileID e) (generateHTTPMessageID e) # infos"]) (simp add: fileInfo_def)
qed simp

lemma httpServe_api_files:
  assumes "rqPath r = ''/api/files/'' @ i" and "rqMethod r \<noteq> ''OPTIONS''"
  shows "httpServe e r s = (Returned (notFound (corsHeaders [])), s)"
  using assms by (simp add: httpServe_def CORS_def SetupRoutes_def Let_def hasPrefix_def)

text \<open>
  An upload over HTTP can vanish with a success. If nobody with the user id of the header is connected, the
  files are thrown away, and nothing at all changes; still the answer is 200 and lists every
  file with an id and a URL. No such URL is ever served, whoever is online: the files of this handler
  are not stored under one.
\<close>

theorem http_upload_lost:
  assumes "rqMethod r = ''POST''" and "rqPath r = ''/api/upload''" and "rqFiles r = Some fs" and "fs \<noteq> []"
    and "\<forall>f \<in> set fs. readable f" and "rqHeader r ''X-User-ID'' = u" and "u \<noteq> ''''" and "rqHeader r ''X-Username'' \<noteq> ''''"
    and "rqFormValue r ''roomId'' \<noteq> ''''" and "perm_fn (ord e)" and "\<forall>c. m_has (clients s) c \<longrightarrow> cUserID (cstore s c) \<noteq> u"
  shows "\<exists>resp infos. httpServe e r s = (Returned resp, s) \<and> rsStatus resp = 200 \<and> rsBody resp = BUploads infos (length fs) \<and>
    map fiName infos = map fhFilename fs \<and>
    (\<forall>i \<in> set infos. \<forall>q t. rqPath q = fiURL i \<and> rqMethod q \<noteq> ''OPTIONS'' \<longrightarrow>
       httpServe e q t = (Returned (notFound (corsHeaders [])), t))"
proof -
  have "\<forall>c. c \<in> set (ord e (m_keys (clients s))) \<longrightarrow> cUserID (cstore s c) \<noteq> u"
    using assms(11) by (simp add: perm_fn_set [OF assms(10)] m_has_iff_keys)
  from uploadLoop_dropped [OF assms(5) this, of "rqHeader r ''X-Username''" "rqFormValue r ''roomId''" "rqFormValue r ''mediaType''" "[]"]
  obtain infos where loop: "uploadLoop e u (rqHeader r ''X-Username'') (rqFormValue r ''roomId'') (rqFormValue r ''mediaType'') fs [] s = (Inr infos, s)"
    and names: "map fiName infos = map fhFilename fs" and urls: "\<forall>i \<in> set infos. fiURL i = ''/api/files/'' @ fiID i"
    by auto
  from names have len: "length infos = length fs" by (metis length_map)
  have "httpServe e r s = (Returned (httpJSON (uploadHeaders (corsHeaders [])) (BUploads infos (length infos))), s)"
    using assms(1-4,6-9) loop by (simp add: httpServe_def CORS_def SetupRoutes_def Let_def FileUploadHandler_def)
  with names urls len httpServe_api_files show ?thesis
    by (intro exI [of _ "httpJSON (uploadHeaders (corsHeaders [])) (BUploads infos (length infos))"] exI [of _ infos])
      (auto simp: httpJSON_def)
qed

definition demo_upload :: request where
  "demo_upload = (demo_request ''POST'' ''/api/upload'')
     \<lparr>rqHeader := (\<lambda>_. ''carl''), rqFormValue := (\<lambda>_. ''r''),
      rqFiles := Some [\<lparr>fhFilename = ''a.txt'', fhSize = 1, fhType = '''', fhOpens = True, fhRead = Some [7]\<rparr>]\<rparr>"

theorem http_upload_lost_witness:
  "\<exists>resp infos. httpServe demo_env demo_upload demo_srv = (Returned resp, demo_srv) \<and> rsStatus resp = 200 \<and>
     rsBody resp = BUploads infos 1 \<and> map fiName infos = [''a.txt'']"
  using http_upload_lost [of demo_upload _ "''carl''" demo_env demo_srv]
  by (fastforce simp: demo_upload_def demo_request_def demo_env_def demo_srv_def demo_client_def readable_def)

end
