(* ===== verification/ChatMembers.thy ===== *)
theory ChatMembers
  imports ChatReach
begin

text \<open>
  Who is in which room of the chat server, as an abstract machine: a set of pairs of room and client, changed by
  joins and leaves only. The server is proved to refine it: every event does to the memberships
  exactly what the requests it contains ask for.
\<close>

section \<open>The abstract machine\<close>

definition membersOf :: "'db srv \<Rightarrow> (string \<times> cid) set" where
  "membersOf s = {(r, c). hasClient s r c}"

interpretation memb: room_registry "\<lambda>r c M. insert (r, c) M" "\<lambda>r c M. M - {(r, c)}" "\<lambda>M r c. (r, c) \<in> M"
  "\<lambda>M r. \<exists>c. (r, c) \<in> M" "\<lambda>_. True"
  by unfold_locales auto

section \<open>Events\<close>

text \<open>What can happen to the server, as a value: the steps of \<open>chat_reach\<close>.\<close>

datatype 'db event =
    ConnectEv "'db env" "string \<Rightarrow> SessionState option" string
  | TextEv "'db env" cid "byte list"
  | BinaryEv "'db env" cid "byte list"
  | GoneEv "'db env" cid
  | TickEv "'db env"
  | BreakEv cid
  | GroupEv "'db env" string string
  | DirectEv "'db env" string string
  | HttpEv "'db env" request

fun handleEvent :: "'db event \<Rightarrow> 'db srv \<Rightarrow> 'db srv" where
  "handleEvent (ConnectEv e redisGet proto) s = snd (handleNewConnection e redisGet proto s)"
| "handleEvent (TextEv e c data) s = onText e c data s"
| "handleEvent (BinaryEv e c data) s = onBinary e c data s"
| "handleEvent (GoneEv e c) s = handleClientDisconnect e c s"
| "handleEvent (TickEv e) s = cleanupTypingIndicators e s"
| "handleEvent (BreakEv c) s = updClient c (\<lambda>x. x\<lparr>cBroken := True\<rparr>) s"
| "handleEvent (GroupEv e name u) s = snd (CreateGroupRoom e name u s)"
| "handleEvent (DirectEv e u1 u2) s = snd (CreateDMRoom e u1 u2 s)"
| "handleEvent (HttpEv e r) s = snd (httpServe e r s)"

fun event_ok :: "'db event \<Rightarrow> 'db srv \<Rightarrow> bool" where
  "event_ok (ConnectEv e redisGet proto) s \<longleftrightarrow> perm_fn (ord e) \<and> (\<forall>r. \<not> hasClient s r (generateClientID e)) \<and>
     (\<forall>k ss. redisGet k = Some ss \<longrightarrow> map_of (redis s) k = Some ss)"
| "event_ok (TextEv e c data) s \<longleftrightarrow> perm_fn (ord e)"
| "event_ok (BinaryEv e c data) s \<longleftrightarrow> perm_fn (ord e) \<and> int (length data) < 2 ^ 63"
| "event_ok (GoneEv e c) s \<longleftrightarrow> perm_fn (ord e)"
| "event_ok (TickEv e) s \<longleftrightarrow> perm_fn (ord e)"
| "event_ok (HttpEv e r) s \<longleftrightarrow> perm_fn (ord e)"
| "event_ok _ s \<longleftrightarrow> True"

text \<open>The joins and leaves an event asks for and is granted.\<close>

definition textOps :: "'db env \<Rightarrow> cid \<Rightarrow> byte list \<Rightarrow> 'db srv \<Rightarrow> (string, cid) room_op list" where
  "textOps e c data s =
     (case readMessage e data of
        None \<Rightarrow> []
      | Some msg \<Rightarrow>
          if \<not> fst (checkRateLimit e c s) \<or> validateMessage e msg \<noteq> None then []
          else if cmType msg = TJoinRoom
          then (if mayEnter e c (cmRoomID msg) s then [JoinOp (cmRoomID msg) c] else [])
          else if cmType msg = TLeaveRoom \<and> inRooms (cstore s c) (cmRoomID msg) then [LeaveOp (cmRoomID msg) c]
          else [])"

fun eventOps :: "'db event \<Rightarrow> 'db srv \<Rightarrow> (string, cid) room_op list" where
  "eventOps (TextEv e c data) s = textOps e c data s"
| "eventOps (GoneEv e c) s = map (\<lambda>r. LeaveOp r c) (m_keys (cRooms (cstore s c)))"
| "eventOps _ s = []"

fun runEvents :: "'db event list \<Rightarrow> 'db srv \<Rightarrow> 'db srv" where
  "runEvents [] s = s"
| "runEvents (ev # evs) s = runEvents evs (handleEvent ev s)"

fun events_ok :: "'db event list \<Rightarrow> 'db srv \<Rightarrow> bool" where
  "events_ok [] s \<longleftrightarrow> True"
| "events_ok (ev # evs) s \<longleftrightarrow> event_ok ev s \<and> events_ok evs (handleEvent ev s)"

fun requestsOf :: "'db event list \<Rightarrow> 'db srv \<Rightarrow> (string, cid) room_op list" where
  "requestsOf [] s = []"
| "requestsOf (ev # evs) s = eventOps ev s @ requestsOf evs (handleEvent ev s)"

lemma event_reach:
  assumes "chat_reach s" and "event_ok ev s"
  shows "chat_reach (handleEvent ev s)"
proof (cases "\<exists>e redisGet proto. ev = ConnectEv e redisGet proto")
  case True
  then show ?thesis using assms by (auto intro: Connect)
next
  case False
  have "serve_step s (handleEvent ev s)"
    using False assms(2) by (cases ev) (auto intro: serve_step.intros)
  with assms(1) show ?thesis by (rule Serve)
qed

section \<open>One event\<close>

lemma mayEnter_frame:
  assumes "db s' = db s" and "rooms s' = rooms s" and "cUserID (cstore s' c) = cUserID (cstore s c)"
  shows "mayEnter e c r s' = mayEnter e c r s"
  using assms
  by (auto simp: mayEnter_def getOrCreateRoom_def checkRoomPermission_def putRoom_def Let_def
      split: option.splits sum.splits prod.splits)

lemma membersOf_keeps: "rooms s' = rooms s \<Longrightarrow> membersOf s' = membersOf s"
  by (simp add: membersOf_def hasClient_def)

lemma membersOf_simps:
  "membersOf (sendError e c code t u s) = membersOf s" "membersOf (beforeRoute e c s) = membersOf s"
  "membersOf (stashMeta e c data s) = membersOf s"
  by (rule membersOf_keeps; simp add: chat_frame stashMeta_def split: option.split)+

lemma membersOf_route:
  "membersOf (routeMessage e c msg s) =
     (if cmType msg = TJoinRoom then (if mayEnter e c (cmRoomID msg) s then insert (cmRoomID msg, c) (membersOf s) else membersOf s)
      else if cmType msg = TLeaveRoom \<and> inRooms (cstore s c) (cmRoomID msg) then membersOf s - {(cmRoomID msg, c)}
      else membersOf s)"
proof (cases "cmType msg = TJoinRoom \<or> cmType msg = TLeaveRoom")
  case True
  then show ?thesis
  proof
    assume "cmType msg = TJoinRoom"
    then show ?thesis by (auto simp: routeMessage_def membersOf_def hasClient_handleJoinRoom)
  next
    assume "cmType msg = TLeaveRoom"
    then show ?thesis
      by (auto simp: routeMessage_def type_defs membersOf_def handleLeaveRoom_def Let_def chat_frame hasClient_dropFromRoom)
  qed
next
  case False
  then have "rooms (routeMessage e c msg s) = rooms s" using keeps_routeMessage [of msg s e c] by (simp add: keeps_def)
  with False show ?thesis by (simp add: membersOf_keeps [of "routeMessage e c msg s" s])
qed

lemma mayEnter_code [code]:
  "mayEnter e c r s =
     (case getOrCreateRoom e r s of
        (Inl err, s1) \<Rightarrow> False
      | (Inr room, s1) \<Rightarrow> rType room = PublicRoom \<or> checkRoomPermission e c r s1 = Inr True)"
  by (auto simp: mayEnter_def split: prod.split sum.split)

lemma membersOf_onText: "membersOf (onText e c data s) = memb.run (textOps e c data s) (membersOf s)"
proof -
  let ?s = "stashMeta e c data s" and ?b = "beforeRoute e c (stashMeta e c data s)"
  have stash: "db ?s = db s" "rooms ?s = rooms s" "cstore ?s = cstore s" "rateLimiters ?s = rateLimiters s"
    by (auto simp: stashMeta_def split: option.split)
  then have "fst (checkRateLimit e c (updClient c f ?s)) = fst (checkRateLimit e c s)" for f
    by (simp add: checkRateLimit_def Let_def case_prod_unfold)
  then have step: "membersOf (handleMessage e c data ?s) =
      (case readMessage e data of
         None \<Rightarrow> membersOf s
       | Some msg \<Rightarrow>
           if \<not> fst (checkRateLimit e c s) \<or> validateMessage e msg \<noteq> None then membersOf s
           else membersOf (routeMessage e c (msg\<lparr>cmTimestamp := now e\<rparr>) ?b))"
    by (auto simp: handleMessage_def Let_def case_prod_unfold beforeRoute_def [symmetric] membersOf_simps
        split: option.split)
  have "mayEnter e c r ?b = mayEnter e c r s" "inRooms (cstore ?b c) r = inRooms (cstore s c) r" for r
    by (rule mayEnter_frame) (simp_all add: stash inRooms_def)
  then have route: "membersOf (routeMessage e c (msg\<lparr>cmTimestamp := now e\<rparr>) ?b) =
      (if cmType msg = TJoinRoom then (if mayEnter e c (cmRoomID msg) s then insert (cmRoomID msg, c) (membersOf s) else membersOf s)
       else if cmType msg = TLeaveRoom \<and> inRooms (cstore s c) (cmRoomID msg) then membersOf s - {(cmRoomID msg, c)}
       else membersOf s)" for msg
    by (simp add: membersOf_route membersOf_simps)
  show ?thesis
    unfolding onText_def step textOps_def route by (simp split: option.split)
qed

lemma run_leaves: "memb.run (map (\<lambda>r. LeaveOp r c) rs) M = M - {(r, c) | r. r \<in> set rs}"
  by (induction rs arbitrary: M) auto

lemma membersOf_disconnect:
  assumes "chat_inv s" and "perm_fn (ord e)"
  shows "membersOf (handleClientDisconnect e c s) = memb.run (map (\<lambda>r. LeaveOp r c) (m_keys (cRooms (cstore s c)))) (membersOf s)"
proof -
  have "srv_ok s" using assms(1) by (simp add: chat_inv_def)
  from leaveAll_effect [OF this assms(2), of c "ord e (m_keys (cRooms (cstore s c)))"]
  show ?thesis
    unfolding run_leaves by (auto simp: membersOf_def handleClientDisconnect_def Let_def hasClient_def perm_fn_set [OF assms(2)])
qed

lemma membersOf_event:
  assumes "chat_reach s" and "event_ok ev s"
  shows "membersOf (handleEvent ev s) = memb.run (eventOps ev s) (membersOf s)"
proof -
  have same: "rooms (handleEvent ev s) = rooms s \<Longrightarrow> eventOps ev s = [] \<Longrightarrow> ?thesis"
    by (simp add: membersOf_keeps [of "handleEvent ev s" s])
  show ?thesis
  proof (cases ev)
    case (TextEv e c data)
    then show ?thesis by (simp add: membersOf_onText)
  next
    case (GoneEv e c)
    then show ?thesis
      using assms by (simp only: handleEvent.simps eventOps.simps event_ok.simps membersOf_disconnect reach_inv)
  next
    case (BinaryEv e c data)
    have "rooms (onBinary e c data s) = rooms s"
      by (simp add: onBinary_def Let_def keepsRooms_uploads [unfolded keepsRooms_def] chat_frame split: option.split)
    with BinaryEv show ?thesis by (intro same) simp_all
  next
    case (DirectEv e u1 u2)
    then show ?thesis using keeps_create(2) [of s e u1 u2] by (intro same) (simp_all add: keeps_def)
  next
    case (GroupEv e name u)
    then show ?thesis using keeps_create(1) [of s e name u] by (intro same) (simp_all add: keeps_def)
  next
    case (HttpEv e r)
    then show ?thesis using keeps_httpServe [of s e r] by (intro same) (simp_all add: keeps_def)
  next
    case (TickEv e)
    then show ?thesis using keepsRooms_tick [of s e] by (intro same) (simp_all add: keepsRooms_def)
  qed (intro same; simp add: handleNewConnection_def handleNewConnectionWithUser_def Let_def)+
qed

section \<open>Any sequence of events\<close>

lemma membersOf_run:
  assumes "chat_reach s" and "events_ok evs s"
  shows "membersOf (runEvents evs s) = memb.run (requestsOf evs s) (membersOf s)"
  using assms
proof (induction evs arbitrary: s)
  case (Cons ev evs)
  then have "membersOf (runEvents evs (handleEvent ev s)) =
      memb.run (requestsOf evs (handleEvent ev s)) (memb.run (eventOps ev s) (membersOf s))"
    by (simp add: membersOf_event event_reach)
  then show ?case by (simp add: memb.run_def)
qed simp

text \<open>
  C9. The rooms of the chat server refine a set of memberships. Whatever sequence of connections, messages of any
  client, uploads, disconnects, ticks and HTTP requests the server handles, from any state it can reach, a
  client is in a room afterwards exactly if the last granted request of its own that concerns the room was to join,
  or if there was none and it was in before: requests to leave and a disconnect count as leaving, and nothing else
  (no other client's message, no upload, no HTTP request) moves anyone.
\<close>

theorem membership_follows_requests:
  assumes "chat_reach s" and "events_ok evs s"
  shows "membersOf (runEvents evs s) = memb.run (requestsOf evs s) (membersOf s) \<and>
    (hasClient (runEvents evs s) r c \<longleftrightarrow> memb.decides (requestsOf evs s) r c (hasClient s r c))"
proof -
  note run = membersOf_run [OF assms]
  then have "hasClient (runEvents evs s) r c \<longleftrightarrow> (r, c) \<in> memb.run (requestsOf evs s) (membersOf s)"
    by (auto simp: membersOf_def)
  with run show ?thesis by (simp add: memb.member_run) (simp add: membersOf_def)
qed

definition demo_leave :: "InMemoryDB env" where
  "demo_leave = demo_env\<lparr>parse := talk ''leave_room'' ''public:lobby'' JNull\<rparr>"

definition demo_events :: "InMemoryDB event list" where
  "demo_events = [TextEv demo_join ''c2'' [], TextEv demo_leave ''c1'' [], TickEv demo_env, TextEv demo_join ''c1'' [],
     GoneEv demo_env ''c2'']"

theorem membership_follows_requests_witness:
  "requestsOf demo_events demo_lobby = [JoinOp ''public:lobby'' ''c2'', LeaveOp ''public:lobby'' ''c1'', JoinOp ''public:lobby'' ''c1'',
     LeaveOp ''public:lobby'' ''c2''] \<and>
   hasClient (runEvents demo_events demo_lobby) ''public:lobby'' ''c1'' \<and>
   \<not> hasClient (runEvents demo_events demo_lobby) ''public:lobby'' ''c2''"
proof -
  have ok: "events_ok demo_events demo_lobby"
    by (simp add: demo_events_def demo_join_def demo_leave_def demo_env_def)
  have req: "requestsOf demo_events demo_lobby = [JoinOp ''public:lobby'' ''c2'', LeaveOp ''public:lobby'' ''c1'',
      JoinOp ''public:lobby'' ''c1'', LeaveOp ''public:lobby'' ''c2'']"
    by code_simp
  from membership_follows_requests [OF demo_lobby_reach ok] show ?thesis
    by (simp add: req memb.decides_def)
qed

end
