(* ===== verification/ChatMain.thy ===== *)
theory ChatMain
  imports WsServer ChatReach
begin

text \<open>
  The chat server on the WebSocket server: \<^verbatim>\<open>DefaultConfig\<close>, \<^verbatim>\<open>NewServer\<close>, \<^verbatim>\<open>createWebSocketServer\<close>, \<^verbatim>\<open>Start\<close> and
  \<^verbatim>\<open>Stop\<close> of \<^verbatim>\<open>chat/server.go\<close>, and what the identity of a client rests on from its handshake to its
  session.
\<close>

section \<open>Configuration\<close>

text \<open>The configuration; \<open>ccWS\<close> is \<^verbatim>\<open>WSConfig\<close>, \<^const>\<open>None\<close> for nil.\<close>

record 'db ChatConfig =
  ccPort :: int
  ccHost :: string
  ccDatabase :: 'db
  ccSecurity :: SecurityConfig
  ccTLSCertFile :: string
  ccTLSKeyFile :: string
  ccWS :: "ServerConfig option"

definition DefaultChatConfig :: "InMemoryDB ChatConfig" where
  "DefaultChatConfig =
     \<lparr>ccPort = 8080, ccHost = ''localhost'', ccDatabase = NewInMemoryDB,
      ccSecurity = \<lparr>MaxMessageLength = 4096, AllowedOrigins = [''*''],
        RateLimitPerSocket = \<lparr>rlRequests = 100, rlWindowSize = 60 * 10 ^ 9, rlLastReset = 0, rlCurrentUsed = 0\<rparr>\<rparr>,
      ccTLSCertFile = '''', ccTLSKeyFile = '''', ccWS = None\<rparr>"

text \<open>\<^verbatim>\<open>websocket.DefaultConfig\<close> with the handshake's part: every origin is allowed, no authentication.\<close>

definition DefaultWSConfig :: ServerConfig where
  "DefaultWSConfig = Config.extend DefaultConfig \<lparr>CheckOrigin = Some (\<lambda>r. True), CheckAuth = None\<rparr>"

text \<open>The origin check that \<^verbatim>\<open>NewServer\<close> puts in.\<close>

definition checkOrigin :: "SecurityConfig \<Rightarrow> Request \<Rightarrow> bool" where
  "checkOrigin sec r = originAllowed sec (headerGet (Header r) ''Origin'')"

section \<open>The server\<close>

text \<open>
  \<open>chat\<close> is the state of the chat, \<open>wsConfig\<close> and \<open>ws\<close> the WebSocket server behind it, \<open>ticking\<close> says whether the
  goroutine of \<^verbatim>\<open>cleanupTypingIndicators\<close> runs (until the context is cancelled).
\<close>

record 'db chatServer =
  chat :: "'db srv"
  wsConfig :: ServerConfig
  ws :: WsServer
  ticking :: bool

definition NewServer :: "(connPtr \<Rightarrow> conn) \<Rightarrow> 'db ChatConfig \<Rightarrow> 'db chatServer" where
  "NewServer heap cfg =
     (let wsc = (case ccWS cfg of None \<Rightarrow> DefaultWSConfig | Some w \<Rightarrow> w)
      in \<lparr>chat = NewChatServer (ccDatabase cfg), wsConfig = wsc\<lparr>CheckOrigin := Some (checkOrigin (ccSecurity cfg))\<rparr>,
          ws = WsServer.NewServer heap, ticking = True\<rparr>)"

text \<open>
  A connection arrives: the handshake of the WebSocket server, then the handler that \<^verbatim>\<open>createWebSocketServer\<close> sets,
  which takes the negotiated subprotocol for the session id.
\<close>

definition onConnection ::
  "'db env \<Rightarrow> (string \<Rightarrow> SessionState option) \<Rightarrow> conn \<Rightarrow> 'db srv \<Rightarrow> cid \<times> 'db srv" where
  "onConnection e redisGet c s =
     (let proto = negotiatedSubprotocol c;
          sessionID = (if proto \<noteq> '''' then proto else hexText (take 16 (rnd e)))
      in handleNewConnectionWithUser e redisGet (''user_'' @ intText (unix e)) (''User_'' @ intText (unix e mod 1000))
           sessionID s)"

definition acceptClient ::
  "'db env \<Rightarrow> (string \<Rightarrow> SessionState option) \<Rightarrow> (nat \<Rightarrow> byte) \<Rightarrow> string \<Rightarrow> 'db chatServer \<Rightarrow>
   (ws_error + cid) \<times> 'db chatServer" where
  "acceptClient e redisGet random input cs =
     (case upgrade (wsConfig cs) None random input of
        (Inl err, answer, rest) \<Rightarrow> (Inl err, cs)
      | (Inr c, answer, rest) \<Rightarrow>
          (case onConnection e redisGet c (chat cs) of (clientID, s) \<Rightarrow> (Inr clientID, cs\<lparr>chat := s\<rparr>)))"

lemma onConnection_eq: "onConnection e redisGet c s = handleNewConnection e redisGet (negotiatedSubprotocol c) s"
  by (simp add: onConnection_def handleNewConnection_def)

text \<open>
  \<^verbatim>\<open>Start\<close>: \<open>certErr\<close> is the error of loading the certificate, \<open>lerr\<close> that of listening, \<open>heap\<close> the connections the
  new WebSocket server of the TLS branch will have.
\<close>

definition Start ::
  "'db env \<Rightarrow> (connPtr \<Rightarrow> conn) \<Rightarrow> 'db ChatConfig \<Rightarrow> string option \<Rightarrow> ws_error option \<Rightarrow> 'db chatServer \<Rightarrow>
   ws_error option \<times> 'db chatServer" where
  "Start e heap cfg certErr lerr cs =
     (let cs1 = cs\<lparr>chat := initializeDefaultRooms e (chat cs)\<rparr>;
          listen = (\<lambda>cs. case Listen lerr (ws cs) of (err, w) \<Rightarrow> (err, cs\<lparr>ws := w\<rparr>))
      in if ccTLSCertFile cfg \<noteq> '''' \<and> ccTLSKeyFile cfg \<noteq> ''''
         then (case certErr of
                 Some err \<Rightarrow> (Some (ErrText (''failed to load TLS certificates: '' @ err)), cs1)
               | None \<Rightarrow> listen (cs1\<lparr>ws := WsServer.NewServer heap\<rparr>))
         else listen cs1)"

definition Stop :: "ws_error option \<Rightarrow> 'db chatServer \<Rightarrow> ws_error option outcome \<times> 'db chatServer" where
  "Stop cerr cs =
     (case WsServer.Stop cerr (ws cs) of (res, w) \<Rightarrow> (res, cs\<lparr>ticking := False, ws := w\<rparr>))"

section \<open>Starting again\<close>

definition default_room :: "string \<Rightarrow> bool" where
  "default_room r \<longleftrightarrow> r = ''public:lobby'' \<or> r = ''public:random'' \<or> r = ''public:help''"

lemma initializeDefaultRooms_frame:
  "hasClient (initializeDefaultRooms e s) r c \<longleftrightarrow> \<not> default_room r \<and> hasClient s r c"
  "cstore (initializeDefaultRooms e s) = cstore s"
  by (auto simp: initializeDefaultRooms_def defaultRoom_def hasClient_putRoom default_room_def)

lemma Start_plain:
  assumes "ccTLSCertFile cfg = ''''"
  shows "Start e heap cfg certErr lerr cs =
    (fst (Listen lerr (ws cs)), cs\<lparr>chat := initializeDefaultRooms e (chat cs), ws := snd (Listen lerr (ws cs))\<rparr>)"
  using assms by (simp add: Start_def Let_def case_prod_unfold)

text \<open>
  A chat server cannot be started again. Without TLS, \<^verbatim>\<open>Start\<close> on a server that runs reports an error, but it has
  already put empty rooms in the place of the default rooms: every client that was in one of them is out (it gets no
  broadcast any more) though its own list still has the room. And after \<^verbatim>\<open>Stop\<close>, \<^verbatim>\<open>Start\<close> reports no error, but no
  connection will ever be accepted, and typing indicators do not expire any more.
\<close>

theorem Start_again_breaks:
  assumes "running (ws cs)" and "\<not> stopped (ws cs)" and "ccTLSCertFile cfg = ''''"
  shows "(\<exists>cs'. Start e heap cfg certErr lerr cs = (Some (ErrText ''server already running''), cs') \<and>
      (\<forall>r c. default_room r \<longrightarrow> \<not> hasClient (chat cs') r c) \<and>
      (\<forall>r c. inRooms (cstore (chat cs') c) r = inRooms (cstore (chat cs) c) r)) \<and>
    (\<exists>cs1 cs2. snd (Stop cerr cs) = cs1 \<and> fst (Stop cerr cs) \<noteq> Panicked \<and>
      Start e heap cfg certErr None cs1 = (None, cs2) \<and> running (ws cs2) \<and> \<not> accepting (ws cs2) \<and> \<not> ticking cs2)"
proof -
  have "WsServer.Stop cerr (ws cs) = (fst (WsServer.Stop cerr (ws cs)), snd (WsServer.Stop cerr (ws cs)))"
    "fst (WsServer.Stop cerr (ws cs)) \<noteq> Panicked" "stopped (snd (WsServer.Stop cerr (ws cs)))"
    "\<not> running (snd (WsServer.Stop cerr (ws cs)))"
    using assms(1,2) by (simp_all add: WsServer.Stop_def Let_def)
  then show ?thesis
    using assms(1)
    by (auto simp: Start_plain [OF assms(3)] Stop_def Listen_def initializeDefaultRooms_frame case_prod_unfold)
qed

definition demo_running :: "InMemoryDB chatServer" where
  "demo_running = (snd (Start demo_env (\<lambda>_. demo_conn) DefaultChatConfig None None
     (NewServer (\<lambda>_. demo_conn) DefaultChatConfig)))\<lparr>chat := demo_lobby\<rparr>"

theorem Start_again_breaks_witness:
  "hasClient (chat demo_running) ''public:lobby'' ''c1'' \<and>
   (\<exists>cs'. Start demo_env (\<lambda>_. demo_conn) DefaultChatConfig None None demo_running =
      (Some (ErrText ''server already running''), cs') \<and> \<not> hasClient (chat cs') ''public:lobby'' ''c1'')"
proof -
  have "running (ws demo_running)" "\<not> stopped (ws demo_running)" "ccTLSCertFile DefaultChatConfig = ''''"
    by (simp_all add: demo_running_def Start_plain DefaultChatConfig_def NewServer_def WsServer.NewServer_def Listen_def)
  note again = Start_again_breaks [OF this, of demo_env "\<lambda>_. demo_conn" None None None]
  have "\<exists>cs'. Start demo_env (\<lambda>_. demo_conn) DefaultChatConfig None None demo_running =
      (Some (ErrText ''server already running''), cs') \<and> \<not> hasClient (chat cs') ''public:lobby'' ''c1''"
    using again default_room_def [of "''public:lobby''"] by blast
  moreover have "hasClient demo_lobby ''public:lobby'' ''c1''" by code_simp
  ultimately show ?thesis by (simp add: demo_running_def)
qed

section \<open>Who a client is\<close>

definition identity :: "'db srv \<Rightarrow> cid \<Rightarrow> string \<times> string" where
  "identity s c = (cUserID (cstore s c), cUsername (cstore s c))"

lemma connect_session:
  assumes "handleNewConnection e redisGet proto s = (c, s')" and "proto \<noteq> ''''"
  shows "\<exists>ss. map_of (srv.redis s') (sessionKey proto) = Some ss \<and> identity s' c = (ssUserID ss, ssUsername ss)"
  using assms
  by (auto simp: handleNewConnection_def handleNewConnectionWithUser_def Let_def identity_def sessionOf_def gomap_simps)

lemma restored_identity:
  assumes "handleNewConnection e redisGet proto s = (c, s')" and "proto \<noteq> ''''"
    and "redisGet (sessionKey proto) = Some ss"
  shows "identity s' c = (ssUserID ss, ssUsername ss)"
  using assms by (auto simp: handleNewConnection_def handleNewConnectionWithUser_def Let_def identity_def)

lemma clock_identity:
  assumes "handleNewConnection e (\<lambda>_. None) proto s = (c, s')"
  shows "identity s' c = (''user_'' @ intText (unix e), ''User_'' @ intText (unix e mod 1000))"
  using assms by (auto simp: handleNewConnection_def handleNewConnectionWithUser_def Let_def identity_def)

lemma redis_later:
  assumes "serve_step\<^sup>*\<^sup>* s s'" and "chat_reach s" and "k \<noteq> sessionKey ''''"
  shows "map_of (srv.redis s') k = map_of (srv.redis s) k"
  using assms(1)
proof (induction rule: rtranclp_induct)
  case (step t u)
  have "srv_ok t" using reach_inv [OF reach_later [OF step(1) assms(2)]] by (simp add: chat_inv_def)
  with step assms(3) show ?case by (simp add: redis_serve)
qed simp

definition protoOf :: "'db chatServer \<Rightarrow> (nat \<Rightarrow> byte) \<Rightarrow> string \<Rightarrow> string" where
  "protoOf cs random input =
     (case fst (upgrade (wsConfig cs) None random input) of Inl err \<Rightarrow> '''' | Inr c \<Rightarrow> negotiatedSubprotocol c)"

lemma acceptClient_Inr:
  assumes "acceptClient e redisGet random input cs = (Inr c, cs')"
  shows "handleNewConnection e redisGet (protoOf cs random input) (chat cs) = (c, chat cs')" and "wsConfig cs' = wsConfig cs"
  using assms by (auto simp: acceptClient_def protoOf_def onConnection_eq split: prod.splits sum.splits)

lemma protoOf_listed: "protoOf cs random input \<in> insert '''' (set (Subprotocols (wsConfig cs)))"
proof -
  have "negotiateSubprotocol ps req \<in> insert '''' (set ps)" for ps req
    by (auto simp: negotiateSubprotocol_def Let_def find_Some_iff split: option.split)
  then have "fst (upgrade cfg None random input) = Inr c \<Longrightarrow> negotiatedSubprotocol c \<in> insert '''' (set (Subprotocols cfg))"
    for c and cfg :: ServerConfig
    unfolding upgrade_def Let_def newServerConn_def by (force split: option.splits prod.splits)
  then show ?thesis by (simp add: protoOf_def split: sum.split)
qed

text \<open>
  A client's identity is not its own. The session id of a connection is the subprotocol that the handshake
  negotiated, one of the few that the server lists. So, whatever the server serves in between, a client that
  negotiates the same subprotocol as the one that connected before it gets that one's user id and name from its
  session, as long as Redis answers; and when Redis does not answer, all clients that connect within the
  same second get the same user id and name, because both are made from the clock.
\<close>

theorem connections_share_identity:
  assumes "chat_reach (chat cs)" and "perm_fn (ord e1)" and "\<forall>r. \<not> hasClient (chat cs) r (generateClientID e1)"
    and "\<forall>k ss. get1 k = Some ss \<longrightarrow> map_of (srv.redis (chat cs)) k = Some ss"
    and "acceptClient e1 get1 r1 input1 cs = (Inr a, cs1)" and "serve_step\<^sup>*\<^sup>* (chat cs1) s2"
    and "acceptClient e2 get2 r2 input2 (cs1\<lparr>chat := s2\<rparr>) = (Inr b, cs3)"
  shows "protoOf cs r2 input2 \<in> insert '''' (set (Subprotocols (wsConfig cs))) \<and>
    (protoOf cs r1 input1 = protoOf cs r2 input2 \<and> protoOf cs r2 input2 \<noteq> '''' \<and> get2 = map_of (srv.redis s2) \<longrightarrow>
       identity (chat cs3) b = identity (chat cs1) a) \<and>
    (get1 = (\<lambda>_. None) \<and> get2 = (\<lambda>_. None) \<and> unix e1 = unix e2 \<longrightarrow> identity (chat cs3) b = identity (chat cs1) a)"
proof (intro conjI impI protoOf_listed)
  let ?p = "protoOf cs r2 input2"
  note first = acceptClient_Inr [OF assms(5)]
  from acceptClient_Inr(1) [OF assms(7)] first(2)
  have second: "handleNewConnection e2 get2 ?p s2 = (b, chat cs3)" by (simp add: protoOf_def)
  {
    assume same: "protoOf cs r1 input1 = ?p \<and> ?p \<noteq> '''' \<and> get2 = map_of (srv.redis s2)"
    have "chat_reach (chat cs1)" using Connect [OF assms(1-4), of "protoOf cs r1 input1"] first(1) by simp
    moreover obtain ss where ss: "map_of (srv.redis (chat cs1)) (sessionKey ?p) = Some ss"
        "identity (chat cs1) a = (ssUserID ss, ssUsername ss)"
      using connect_session [OF first(1)] same by auto
    ultimately have "get2 (sessionKey ?p) = Some ss"
      using redis_later [OF assms(6), of "sessionKey ?p"] same by (simp add: sessionKey_def)
    with restored_identity [OF second] same ss(2) show "identity (chat cs3) b = identity (chat cs1) a" by simp
  next
    assume "get1 = (\<lambda>_. None) \<and> get2 = (\<lambda>_. None) \<and> unix e1 = unix e2"
    with clock_identity first(1) second show "identity (chat cs3) b = identity (chat cs1) a" by metis
  }
qed

text \<open>Two clients that ask for the same subprotocol, ten seconds apart.\<close>

definition demo_open :: "InMemoryDB chatServer" where
  "demo_open = (NewServer (\<lambda>_. demo_conn) (DefaultChatConfig\<lparr>ccWS := Some demo_server\<rparr>))
     \<lparr>chat := initializeDefaultRooms demo_env (NewChatServer NewInMemoryDB)\<rparr>"

definition demo_hello :: string where
  "demo_hello = clientRequest (DefaultConfig\<lparr>Subprotocols := [''chat'']\<rparr>) ''/ws'' ''example.org'' (generateKey of_nat) []"

definition demo_first :: "cid \<times> InMemoryDB srv" where
  "demo_first = handleNewConnection demo_env (\<lambda>_. None) ''chat'' (chat demo_open)"

definition demo_second :: "cid \<times> InMemoryDB srv" where
  "demo_second = handleNewConnection (demo_env\<lparr>now := 10 ^ 10\<rparr>) (map_of (srv.redis (snd demo_first))) ''chat'' (snd demo_first)"

lemma demo_accept:
  "acceptClient e redisGet of_nat demo_hello (demo_open\<lparr>chat := s\<rparr>) =
    (case handleNewConnection e redisGet ''chat'' s of (c, s') \<Rightarrow> (Inr c, demo_open\<lparr>chat := s'\<rparr>))"
  "protoOf demo_open of_nat demo_hello = ''chat''"
proof -
  let ?cfg = "wsConfig demo_open"
  have "\<exists>c answer. upgrade ?cfg None of_nat (demo_hello @ '''') = (Inr c, answer, '''') \<and> negotiatedSubprotocol c = ''chat''"
    unfolding demo_hello_def
    by (subst upgrade_client)
      (simp_all add: one_line_def plain_tokens_def plain_char_def code_of_def demo_server_def Config.defs demo_open_def
         NewServer_def DefaultChatConfig_def checkOrigin_def [abs_def] originAllowed_def newServerConn_def chosenProtocol_def)
  then obtain c answer where "upgrade ?cfg None of_nat demo_hello = (Inr c, answer, '''')" "negotiatedSubprotocol c = ''chat''"
    by auto
  then show "acceptClient e redisGet of_nat demo_hello (demo_open\<lparr>chat := s\<rparr>) =
      (case handleNewConnection e redisGet ''chat'' s of (c, s') \<Rightarrow> (Inr c, demo_open\<lparr>chat := s'\<rparr>))"
    "protoOf demo_open of_nat demo_hello = ''chat''"
    by (simp_all add: acceptClient_def protoOf_def onConnection_eq)
qed

theorem connections_share_identity_witness:
  "identity (snd demo_second) (fst demo_second) = identity (snd demo_first) (fst demo_first) \<and>
   identity (snd demo_first) (fst demo_first) = (''user_0'', ''User_0'')"
proof
  have reach: "chat_reach (chat demo_open)" by (simp add: demo_open_def Start)
  have fresh: "\<forall>r. \<not> hasClient (chat demo_open) r (generateClientID demo_env)"
    by (simp add: demo_open_def initializeDefaultRooms_frame) (simp add: NewChatServer_def hasClient_def)
  have one: "acceptClient demo_env (\<lambda>_. None) of_nat demo_hello demo_open = (Inr (fst demo_first), demo_open\<lparr>chat := snd demo_first\<rparr>)"
    using demo_accept(1) [of demo_env "\<lambda>_. None" "chat demo_open"] by (simp add: demo_first_def case_prod_unfold)
  have two: "acceptClient (demo_env\<lparr>now := 10 ^ 10\<rparr>) (map_of (srv.redis (snd demo_first))) of_nat demo_hello
      (demo_open\<lparr>chat := snd demo_first, chat := snd demo_first\<rparr>) = (Inr (fst demo_second), demo_open\<lparr>chat := snd demo_second\<rparr>)"
    using demo_accept(1) [of "demo_env\<lparr>now := 10 ^ 10\<rparr>" _ "snd demo_first"] by (simp add: demo_second_def case_prod_unfold)
  have "perm_fn (ord demo_env)" by (simp add: demo_env_def)
  from connections_share_identity [OF reach this fresh _ one _ two]
  show "identity (snd demo_second) (fst demo_second) = identity (snd demo_first) (fst demo_first)"
    by (simp add: demo_accept(2))
  show "identity (snd demo_first) (fst demo_first) = (''user_0'', ''User_0'')" by code_simp
qed

end
