(* ===== verification/ChatRace.thy ===== *)
theory ChatRace
  imports ChatReach
begin

text \<open>
  Joining and leaving when the handlers of several clients run at once. A room is an object on the heap, shared
  through its pointer; the steps are the pieces of \<^verbatim>\<open>handleJoinRoom\<close>, \<^verbatim>\<open>getOrCreateRoom\<close> and
  \<^verbatim>\<open>handleLeaveRoom\<close> between which another goroutine can run: each holds the lock of the rooms once. Run alone they
  do what \<open>ChatHandlers\<close> says; interleaved, they lose members of rooms that come and go, but never those of
  the rooms that exist from the start.
\<close>

section \<open>Steps\<close>

text \<open>
  Where the goroutine of a client stands: before a message, after a lookup that found nothing, with a
  room in hand, after it was added to the room's clients, after it was removed from them.
\<close>

datatype pc = Idle | Missing string | Got string nat | Entered string | Removed string

text \<open>\<open>rcRooms\<close> is \<^verbatim>\<open>s.rooms\<close>, \<open>rcOwn c\<close> the \<^verbatim>\<open>Rooms\<close> of a client.\<close>

record race =
  rcRooms :: "(string, nat) gomap"
  rcHeap :: "nat \<Rightarrow> Room"
  rcNext :: nat
  rcOwn :: "cid \<Rightarrow> (string, bool) gomap"
  rcPc :: "cid \<Rightarrow> pc"

text \<open>
  What the database answers: the room to be made, and whether a client may join a room that is not public. The permission
  reads nothing that another goroutine of this model writes, so it is asked in the step that adds the client.
\<close>

record rules =
  mkRoom :: "string \<Rightarrow> Room option"
  mayJoin :: "cid \<Rightarrow> string \<Rightarrow> bool"

definition setPc :: "cid \<Rightarrow> pc \<Rightarrow> race \<Rightarrow> race" where
  "setPc c p s = s\<lparr>rcPc := (rcPc s)(c := p)\<rparr>"

definition lookupRoom :: "string \<Rightarrow> cid \<Rightarrow> race \<Rightarrow> race" where
  "lookupRoom r c s = setPc c (case map_of (rcRooms s) r of Some p \<Rightarrow> Got r p | None \<Rightarrow> Missing r) s"

definition storeRoom :: "rules \<Rightarrow> string \<Rightarrow> cid \<Rightarrow> race \<Rightarrow> race" where
  "storeRoom R r c s =
     (case mkRoom R r of
        None \<Rightarrow> setPc c Idle s
      | Some room \<Rightarrow>
          setPc c (Got r (rcNext s))
            (s\<lparr>rcHeap := (rcHeap s)(rcNext s := room\<lparr>rClients := []\<rparr>), rcRooms := m_put r (rcNext s) (rcRooms s),
               rcNext := rcNext s + 1\<rparr>))"

definition addClient :: "rules \<Rightarrow> string \<Rightarrow> nat \<Rightarrow> cid \<Rightarrow> race \<Rightarrow> race" where
  "addClient R r p c s =
     (let room = rcHeap s p
      in if rType room \<noteq> PublicRoom \<and> \<not> mayJoin R c r then setPc c Idle s
         else setPc c (Entered r) (s\<lparr>rcHeap := (rcHeap s)(p := room\<lparr>rClients := m_put c c (rClients room)\<rparr>)\<rparr>))"

definition removeClient :: "string \<Rightarrow> cid \<Rightarrow> race \<Rightarrow> race" where
  "removeClient r c s =
     (case map_of (rcRooms s) r of
        None \<Rightarrow> s
      | Some p \<Rightarrow>
          let room = rcHeap s p; room' = room\<lparr>rClients := m_del c (rClients room)\<rparr>;
              s' = s\<lparr>rcHeap := (rcHeap s)(p := room')\<rparr>
          in if rClients room' = [] \<and> rType room' \<noteq> PublicRoom then s'\<lparr>rcRooms := m_del r (rcRooms s')\<rparr> else s')"

definition owns :: "race \<Rightarrow> cid \<Rightarrow> string \<Rightarrow> bool" where
  "owns s c r \<longleftrightarrow> (case map_of (rcOwn s c) r of None \<Rightarrow> False | Some b \<Rightarrow> b)"

text \<open>What a goroutine does next: start on a message, or go on. A goroutine that cannot do it stays where it is.\<close>

datatype act = BeginJoin string | BeginLeave string | Go

definition advance :: "rules \<Rightarrow> cid \<times> act \<Rightarrow> race \<Rightarrow> race" where
  "advance R x s =
     (let c = fst x
      in case rcPc s c of
           Idle \<Rightarrow> (case snd x of
               BeginJoin r \<Rightarrow> lookupRoom r c s
             | BeginLeave r \<Rightarrow> if owns s c r then setPc c (Removed r) (removeClient r c s) else s
             | Go \<Rightarrow> s)
         | Missing r \<Rightarrow> (if snd x = Go then storeRoom R r c s else s)
         | Got r p \<Rightarrow> (if snd x = Go then addClient R r p c s else s)
         | Entered r \<Rightarrow> (if snd x = Go then setPc c Idle (s\<lparr>rcOwn := (rcOwn s)(c := m_put r True (rcOwn s c))\<rparr>) else s)
         | Removed r \<Rightarrow> (if snd x = Go then setPc c Idle (s\<lparr>rcOwn := (rcOwn s)(c := m_del r (rcOwn s c))\<rparr>) else s))"

definition interleave :: "rules \<Rightarrow> (cid \<times> act) list \<Rightarrow> race \<Rightarrow> race" where
  "interleave R xs s = fold (advance R) xs s"

text \<open>Whom a broadcast to a room reaches.\<close>

definition reaches :: "race \<Rightarrow> string \<Rightarrow> cid \<Rightarrow> bool" where
  "reaches s r c \<longleftrightarrow> (case map_of (rcRooms s) r of None \<Rightarrow> False | Some p \<Rightarrow> m_has (rClients (rcHeap s p)) c)"

lemma setPc_simps [simp]:
  "rcRooms (setPc c p s) = rcRooms s" "rcHeap (setPc c p s) = rcHeap s" "rcNext (setPc c p s) = rcNext s"
  "rcOwn (setPc c p s) = rcOwn s" "rcPc (setPc c p s) = (rcPc s)(c := p)"
  by (simp_all add: setPc_def)

lemma advance_simps:
  "rcPc s c = Idle \<Longrightarrow> advance R (c, BeginJoin r) s = lookupRoom r c s"
  "rcPc s c = Idle \<Longrightarrow> advance R (c, BeginLeave r) s = (if owns s c r then setPc c (Removed r) (removeClient r c s) else s)"
  "rcPc s c = Idle \<Longrightarrow> advance R (c, Go) s = s"
  "rcPc s c = Missing r \<Longrightarrow> advance R (c, Go) s = storeRoom R r c s"
  "rcPc s c = Got r p \<Longrightarrow> advance R (c, Go) s = addClient R r p c s"
  "rcPc s c = Entered r \<Longrightarrow> advance R (c, Go) s = setPc c Idle (s\<lparr>rcOwn := (rcOwn s)(c := m_put r True (rcOwn s c))\<rparr>)"
  "rcPc s c = Removed r \<Longrightarrow> advance R (c, Go) s = setPc c Idle (s\<lparr>rcOwn := (rcOwn s)(c := m_del r (rcOwn s c))\<rparr>)"
  by (simp_all add: advance_def)

lemma advance_cases:
  obtains (stay) "advance R x s = s"
  | (lookup) c r where "rcPc s c = Idle" "advance R x s = lookupRoom r c s"
  | (store) c r where "rcPc s c = Missing r" "advance R x s = storeRoom R r c s"
  | (add) c r p where "rcPc s c = Got r p" "advance R x s = addClient R r p c s"
  | (entered) c r where "rcPc s c = Entered r"
      "advance R x s = setPc c Idle (s\<lparr>rcOwn := (rcOwn s)(c := m_put r True (rcOwn s c))\<rparr>)"
  | (remove) c r where "rcPc s c = Idle" "owns s c r" "advance R x s = setPc c (Removed r) (removeClient r c s)"
  | (removed) c r where "rcPc s c = Removed r"
      "advance R x s = setPc c Idle (s\<lparr>rcOwn := (rcOwn s)(c := m_del r (rcOwn s c))\<rparr>)"
proof (cases "rcPc s (fst x)")
  case Idle
  show thesis
  proof (cases "snd x")
    case (BeginJoin r)
    with Idle show thesis by (intro lookup [of "fst x" r]) (simp_all add: advance_def)
  next
    case (BeginLeave r)
    with Idle show thesis
      using stay remove [of "fst x" r] by (cases "owns s (fst x) r") (simp_all add: advance_def Let_def)
  next
    case Go
    with Idle show thesis by (intro stay) (simp add: advance_def)
  qed
next
  case (Missing r)
  then show thesis
    using stay store [of "fst x" r] by (cases "snd x = Go") (simp_all add: advance_def Let_def)
next
  case (Got r p)
  then show thesis
    using stay add [of "fst x" r p] by (cases "snd x = Go") (simp_all add: advance_def Let_def)
next
  case (Entered r)
  then show thesis
    using stay entered [of "fst x" r] by (cases "snd x = Go") (simp_all add: advance_def Let_def)
next
  case (Removed r)
  then show thesis
    using stay removed [of "fst x" r] by (cases "snd x = Go") (simp_all add: advance_def Let_def)
qed

lemma interleave_simps [simp]:
  "interleave R [] s = s" "interleave R (x # xs) s = interleave R xs (advance R x s)"
  by (simp_all add: interleave_def)

section \<open>Races\<close>

text \<open>Both clients look for the room before either makes it.\<close>

definition both_join :: "cid \<Rightarrow> cid \<Rightarrow> string \<Rightarrow> (cid \<times> act) list" where
  "both_join a b r = [(a, BeginJoin r), (b, BeginJoin r), (a, Go), (b, Go), (a, Go), (b, Go), (a, Go), (b, Go)]"

text \<open>The last client leaves between the other's lookup and its entry.\<close>

definition join_while_leaving :: "cid \<Rightarrow> cid \<Rightarrow> string \<Rightarrow> (cid \<times> act) list" where
  "join_while_leaving a b r = [(b, BeginJoin r), (a, BeginLeave r), (b, Go), (a, Go), (b, Go)]"

lemma both_join_state:
  assumes "a \<noteq> b" and "rcPc s a = Idle" and "rcPc s b = Idle" and "map_of (rcRooms s) r = None" and "mkRoom R r = Some room"
    and "rType room = PublicRoom \<or> mayJoin R a r \<and> mayJoin R b r"
  shows "interleave R (both_join a b r) s =
    \<lparr>rcRooms = m_put r (rcNext s + 1) (m_put r (rcNext s) (rcRooms s)),
     rcHeap = (rcHeap s)(rcNext s := room\<lparr>rClients := [(a, a)]\<rparr>, rcNext s + 1 := room\<lparr>rClients := [(b, b)]\<rparr>),
     rcNext = rcNext s + 2, rcOwn = (rcOwn s)(a := m_put r True (rcOwn s a), b := m_put r True (rcOwn s b)),
     rcPc = rcPc s\<rparr>"
proof -
  let ?n = "rcNext s"
  define s1 where "s1 = s\<lparr>rcPc := (rcPc s)(a := Missing r, b := Missing r)\<rparr>"
  define s2 where "s2 = s1\<lparr>rcRooms := m_put r (?n + 1) (m_put r ?n (rcRooms s)), rcNext := ?n + 2,
    rcHeap := (rcHeap s)(?n := room\<lparr>rClients := []\<rparr>, ?n + 1 := room\<lparr>rClients := []\<rparr>),
    rcPc := (rcPc s)(a := Got r ?n, b := Got r (?n + 1))\<rparr>"
  define s3 where "s3 = s2\<lparr>rcHeap := (rcHeap s)(?n := room\<lparr>rClients := [(a, a)]\<rparr>, ?n + 1 := room\<lparr>rClients := [(b, b)]\<rparr>),
    rcPc := (rcPc s)(a := Entered r, b := Entered r)\<rparr>"
  have "advance R (b, BeginJoin r) (advance R (a, BeginJoin r) s) = s1"
    using assms by (simp add: advance_simps lookupRoom_def s1_def setPc_def)
  moreover have "advance R (b, Go) (advance R (a, Go) s1) = s2"
    using assms by (simp add: advance_simps s1_def s2_def storeRoom_def setPc_def fun_upd_twist)
  moreover have "advance R (b, Go) (advance R (a, Go) s2) = s3"
    using assms by (auto simp add: advance_simps s2_def s3_def addClient_def setPc_def fun_upd_twist)
  ultimately have "interleave R (both_join a b r) s = advance R (b, Go) (advance R (a, Go) s3)"
    by (simp add: both_join_def)
  also have "\<dots> = s3\<lparr>rcOwn := (rcOwn s)(a := m_put r True (rcOwn s a), b := m_put r True (rcOwn s b)),
      rcPc := (rcPc s)(a := Idle, b := Idle)\<rparr>"
    using assms by (simp add: advance_simps s1_def s2_def s3_def setPc_def fun_upd_twist)
  finally show ?thesis
    using assms(2,3) by (simp add: s1_def s2_def s3_def fun_upd_idem)
qed

lemma join_while_leaving_state:
  assumes "a \<noteq> b" and "rcPc s a = Idle" and "rcPc s b = Idle" and p: "map_of (rcRooms s) r = Some p"
    and "rType (rcHeap s p) \<noteq> PublicRoom" and "rClients (rcHeap s p) = [(a, a)]" and "owns s a r" and "mayJoin R b r"
  shows "interleave R (join_while_leaving a b r) s =
    s\<lparr>rcRooms := m_del r (rcRooms s), rcHeap := (rcHeap s)(p := (rcHeap s p)\<lparr>rClients := [(b, b)]\<rparr>),
      rcOwn := (rcOwn s)(a := m_del r (rcOwn s a), b := m_put r True (rcOwn s b))\<rparr>"
proof -
  let ?room = "rcHeap s p"
  define s1 where "s1 = s\<lparr>rcPc := (rcPc s)(b := Got r p)\<rparr>"
  define s2 where "s2 = s\<lparr>rcRooms := m_del r (rcRooms s), rcHeap := (rcHeap s)(p := ?room\<lparr>rClients := []\<rparr>),
    rcPc := (rcPc s)(b := Got r p, a := Removed r)\<rparr>"
  define s3 where "s3 = s2\<lparr>rcHeap := (rcHeap s)(p := ?room\<lparr>rClients := [(b, b)]\<rparr>), rcPc := (rcPc s)(b := Entered r, a := Removed r)\<rparr>"
  have "advance R (b, BeginJoin r) s = s1"
    using assms by (simp add: advance_simps lookupRoom_def s1_def setPc_def)
  moreover have "advance R (a, BeginLeave r) s1 = s2"
    using assms by (simp add: advance_simps s1_def s2_def removeClient_def setPc_def owns_def)
  moreover have "advance R (b, Go) s2 = s3"
    using assms by (auto simp add: advance_simps s2_def s3_def addClient_def setPc_def fun_upd_twist)
  ultimately have "interleave R (join_while_leaving a b r) s = advance R (b, Go) (advance R (a, Go) s3)"
    by (simp add: join_while_leaving_def)
  also have "\<dots> = s3\<lparr>rcOwn := (rcOwn s)(a := m_del r (rcOwn s a), b := m_put r True (rcOwn s b)),
      rcPc := (rcPc s)(a := Idle, b := Idle)\<rparr>"
    using assms(1) by (simp add: advance_simps s2_def s3_def setPc_def fun_upd_twist)
  finally show ?thesis
    using assms(2,3) by (simp add: s2_def s3_def fun_upd_idem)
qed

text \<open>
  Two clients that join the same missing room at once both look it up before either stores it: each makes a room of
  its own, the second overwrites the first, and the first client goes on believing it is in a room whose
  broadcasts never reach it. A client that joins a private room while its last member leaves enters
  a room that is no longer in the server's map, with the same outcome.
\<close>

lemma joins_can_get_lost:
  assumes "a \<noteq> b" and "rcPc s a = Idle" and "rcPc s b = Idle"
  shows "(map_of (rcRooms s) r = None \<and> mkRoom R r = Some room \<and> (rType room = PublicRoom \<or> mayJoin R a r \<and> mayJoin R b r) \<longrightarrow>
      (let s' = interleave R (both_join a b r) s in owns s' a r \<and> \<not> reaches s' r a \<and> owns s' b r \<and> reaches s' r b)) \<and>
    (map_of (rcRooms s) r = Some p \<and> rType (rcHeap s p) \<noteq> PublicRoom \<and> rClients (rcHeap s p) = [(a, a)] \<and> owns s a r \<and>
       mayJoin R b r \<longrightarrow>
      (let s' = interleave R (join_while_leaving a b r) s
       in owns s' b r \<and> map_of (rcRooms s') r = None \<and> \<not> reaches s' r b))"
proof (intro conjI impI, goal_cases)
  case 1
  then show ?case
    using both_join_state [of a b s r R room] assms by (simp add: owns_def reaches_def gomap_simps)
next
  case 2
  then show ?case
    using join_while_leaving_state [of a b s r p R] assms by (simp add: owns_def reaches_def gomap_simps)
qed

definition demo_race :: race where
  "demo_race = \<lparr>rcRooms = [(''group:g'', 0)], rcHeap = (\<lambda>_. \<lparr>rType = GroupRoom, rName = ''g'', rClients = [(''a'', ''a'')], rCreated = 0\<rparr>),
     rcNext = 1, rcOwn = (\<lambda>c. if c = ''a'' then [(''group:g'', True)] else []), rcPc = (\<lambda>_. Idle)\<rparr>"

definition demo_rules :: rules where
  "demo_rules = \<lparr>mkRoom = (\<lambda>r. Some \<lparr>rType = PublicRoom, rName = r, rClients = [], rCreated = 0\<rparr>), mayJoin = (\<lambda>_ _. True)\<rparr>"

theorem joins_can_get_lost_witness:
  "(let s' = interleave demo_rules (both_join ''a'' ''b'' ''public:x'') demo_race
    in owns s' ''a'' ''public:x'' \<and> \<not> reaches s' ''public:x'' ''a'' \<and> owns s' ''b'' ''public:x'' \<and> reaches s' ''public:x'' ''b'') \<and>
   (let s' = interleave demo_rules (join_while_leaving ''a'' ''b'' ''group:g'') demo_race
    in owns s' ''b'' ''group:g'' \<and> map_of (rcRooms s') ''group:g'' = None \<and> \<not> reaches s' ''group:g'' ''b'')"
proof -
  have "(''a'' :: cid) \<noteq> ''b''" "rcPc demo_race ''a'' = Idle" "rcPc demo_race ''b'' = Idle" by (simp_all add: demo_race_def)
  note lost = joins_can_get_lost [OF this, of _ demo_rules
    "\<lparr>rType = PublicRoom, rName = ''public:x'', rClients = [], rCreated = 0\<rparr>" 0]
  show ?thesis
    by (intro conjI lost [THEN conjunct1, THEN mp] lost [THEN conjunct2, THEN mp])
      (simp_all add: demo_race_def demo_rules_def owns_def room_type_defs)
qed

section \<open>Handlers that run alone\<close>

text \<open>The rooms of a chat server as objects on a heap.\<close>

fun numbered :: "nat \<Rightarrow> ('k, 'v) gomap \<Rightarrow> ('k, nat) gomap" where
  "numbered k [] = []"
| "numbered k (x # xs) = (fst x, k) # numbered (Suc k) xs"

definition raceOf :: "'db srv \<Rightarrow> race" where
  "raceOf t =
     \<lparr>rcRooms = numbered 0 (rooms t), rcHeap = (\<lambda>p. snd (rooms t ! p)), rcNext = length (rooms t),
      rcOwn = (\<lambda>c. cRooms (cstore t c)), rcPc = (\<lambda>_. Idle)\<rparr>"

definition rulesOf :: "'db env \<Rightarrow> 'db srv \<Rightarrow> rules" where
  "rulesOf e t =
     \<lparr>mkRoom = (\<lambda>r. case fst (getOrCreateRoom e r t) of Inl err \<Rightarrow> None | Inr room \<Rightarrow> Some room),
      mayJoin = (\<lambda>c r. checkRoomPermission e c r (snd (getOrCreateRoom e r t)) = Inr True)\<rparr>"

definition represents :: "race \<Rightarrow> 'db srv \<Rightarrow> bool" where
  "represents s t \<longleftrightarrow>
     (\<forall>r. map_of (rooms t) r = map_option (rcHeap s) (map_of (rcRooms s) r)) \<and> rcOwn s = (\<lambda>c. cRooms (cstore t c)) \<and>
     (\<forall>r p. map_of (rcRooms s) r = Some p \<longrightarrow> p < rcNext s \<and> (\<forall>r'. map_of (rcRooms s) r' = Some p \<longrightarrow> r' = r)) \<and>
     rcPc s = (\<lambda>_. Idle)"

definition join_alone :: "cid \<Rightarrow> string \<Rightarrow> (cid \<times> act) list" where
  "join_alone c r = [(c, BeginJoin r), (c, Go), (c, Go), (c, Go)]"

definition leave_alone :: "cid \<Rightarrow> string \<Rightarrow> (cid \<times> act) list" where
  "leave_alone c r = [(c, BeginLeave r), (c, Go)]"

lemma numbered_Some:
  "map_of (numbered k xs) r = Some p \<Longrightarrow>
     k \<le> p \<and> p < k + length xs \<and> fst (xs ! (p - k)) = r \<and> map_of xs r = Some (snd (xs ! (p - k)))"
proof (induction xs arbitrary: k)
  case (Cons x xs)
  show ?case
  proof (cases "fst x = r")
    case False
    with Cons.prems have "map_of (numbered (Suc k) xs) r = Some p" by simp
    from Cons.IH [OF this] False show ?thesis by (auto simp: nth_Cons')
  qed (use Cons.prems in auto)
qed simp

lemma numbered_None: "map_of (numbered k xs) r = None \<longleftrightarrow> map_of xs r = None"
  by (induction xs arbitrary: k) auto

lemma raceOf_represents: "represents (raceOf t) t"
proof -
  have "map_of (rooms t) r = map_option (rcHeap (raceOf t)) (map_of (rcRooms (raceOf t)) r)" for r
    using numbered_Some [of 0 "rooms t" r] numbered_None [of 0 "rooms t" r]
    by (cases "map_of (numbered 0 (rooms t)) r") (simp_all add: raceOf_def)
  moreover have "p < rcNext (raceOf t)" if "map_of (rcRooms (raceOf t)) r = Some p" for r p
    using that numbered_Some [of 0 "rooms t" r p] by (simp add: raceOf_def)
  moreover have "r' = r" if "map_of (rcRooms (raceOf t)) r = Some p" "map_of (rcRooms (raceOf t)) r' = Some p" for r r' p
    using that numbered_Some [of 0 "rooms t" r p] numbered_Some [of 0 "rooms t" r' p] by (simp add: raceOf_def)
  ultimately show ?thesis
    unfolding represents_def by (intro conjI allI impI) (simp_all add: raceOf_def)
qed

lemma represents_keeps:
  "represents s t \<Longrightarrow> rooms t' = rooms t \<Longrightarrow> (\<And>c. cRooms (cstore t' c) = cRooms (cstore t c)) \<Longrightarrow> represents s t'"
  by (simp add: represents_def)

lemma represents_same: "represents s t \<Longrightarrow> same_but_out t t' \<Longrightarrow> represents s t'"
  by (rule represents_keeps) (simp_all add: same_client same_srv)

lemma represents_lookup:
  assumes "represents s t"
  shows "rcPc s c = Idle" and "owns s c r = inRooms (cstore t c) r"
    and "map_of (rcRooms s) r = None \<longleftrightarrow> map_of (rooms t) r = None"
    and "map_of (rcRooms s) r = Some p \<Longrightarrow> map_of (rooms t) r = Some (rcHeap s p)"
    and "map_of (rcRooms s) r = Some p \<Longrightarrow> p < rcNext s"
    and "map_of (rcRooms s) r = Some p \<Longrightarrow> map_of (rcRooms s) r' = Some p \<longleftrightarrow> r' = r"
  using assms by (auto simp: represents_def owns_def inRooms_def)

lemma represents_enter:
  assumes rep: "represents s t" and r: "map_of (rcRooms s) r = Some p"
  shows "represents
    (s\<lparr>rcHeap := (rcHeap s)(p := (rcHeap s p)\<lparr>rClients := m_put c c (rClients (rcHeap s p))\<rparr>),
       rcOwn := (rcOwn s)(c := m_put r True (rcOwn s c))\<rparr>) (enterRoom r c t)"
proof -
  note l = represents_lookup [OF rep]
  have "map_of (rooms (enterRoom r c t)) r' =
    map_option ((rcHeap s)(p := (rcHeap s p)\<lparr>rClients := m_put c c (rClients (rcHeap s p))\<rparr>)) (map_of (rcRooms s) r')" for r'
    using l(4) [OF r] l(3) [of r'] l(4) [of r'] l(6) [OF r, of r'] r
    by (cases "map_of (rcRooms s) r'") (auto simp: enterRoom_def gomap_simps)
  moreover have "(rcOwn s)(c := m_put r True (rcOwn s c)) = (\<lambda>d. cRooms (cstore (enterRoom r c t) d))"
    using rep l(4) [OF r] by (auto simp: represents_def enterRoom_def)
  ultimately show ?thesis
    using rep by (simp add: represents_def)
qed

lemma represents_drop:
  assumes rep: "represents s t"
  shows "represents ((removeClient r c s)\<lparr>rcOwn := (rcOwn s)(c := m_del r (rcOwn s c))\<rparr>)
    (updClient c (\<lambda>x. x\<lparr>cRooms := m_del r (cRooms x)\<rparr>) (dropFromRoom r c t))"
proof -
  note l = represents_lookup [OF rep]
  have "map_of (rooms (dropFromRoom r c t)) r' =
    map_option (rcHeap (removeClient r c s)) (map_of (rcRooms (removeClient r c s)) r')" for r'
  proof (cases "map_of (rcRooms s) r")
    case None
    then show ?thesis using rep l(3) [of r] by (simp add: removeClient_def dropFromRoom_def represents_def)
  next
    case (Some p)
    then show ?thesis
      using l(4) [OF Some] l(3) [of r'] l(4) [of r'] l(6) [OF Some, of r']
      by (cases "map_of (rcRooms s) r'") (auto simp: removeClient_def dropFromRoom_def Let_def gomap_simps)
  qed
  moreover have "(rcOwn s)(c := m_del r (rcOwn s c)) = (\<lambda>d. cRooms (cstore t d))(c := m_del r (cRooms (cstore t c)))"
    using rep by (simp add: represents_def)
  moreover have "map_of (rcRooms (removeClient r c s)) r' = Some q \<Longrightarrow> map_of (rcRooms s) r' = Some q" for r' q
    by (auto simp: removeClient_def Let_def gomap_simps split: option.splits if_splits)
  moreover have "rcNext (removeClient r c s) = rcNext s" "rcPc (removeClient r c s) = rcPc s"
    by (simp_all add: removeClient_def Let_def split: option.split)
  ultimately show ?thesis
    using rep by (fastforce simp: represents_def)
qed

lemma getOrCreateRoom_new:
  assumes "getOrCreateRoom e r t = (res, t1)" and "map_of (rooms t) r = None"
  shows "res = Inr room \<Longrightarrow> rooms t1 = m_put r room (rooms t)" and "res = Inr room \<Longrightarrow> rClients room = []"
    and "res = Inl err \<Longrightarrow> rooms t1 = rooms t"
  using assms by (auto simp: getOrCreateRoom_def Let_def split: option.splits if_splits sum.splits prod.splits)

lemma getOrCreateRoom_old: "map_of (rooms t) r = Some room \<Longrightarrow> getOrCreateRoom e r t = (Inr room, t)"
  by (simp add: getOrCreateRoom_def)

lemma represents_store:
  assumes rep: "represents s t" and g: "getOrCreateRoom e r t = (Inr room, t1)" and new: "map_of (rcRooms s) r = None"
  shows "represents (s\<lparr>rcHeap := (rcHeap s)(rcNext s := room\<lparr>rClients := []\<rparr>), rcRooms := m_put r (rcNext s) (rcRooms s),
    rcNext := rcNext s + 1\<rparr>) t1"
proof -
  note l = represents_lookup [OF rep]
  have t: "map_of (rooms t) r = None" using new l(3) by simp
  have "room\<lparr>rClients := []\<rparr> = room" using getOrCreateRoom_new(2) [OF g t] by simp
  moreover have "map_of (rooms t1) r' = map_option ((rcHeap s)(rcNext s := room)) (map_of (m_put r (rcNext s) (rcRooms s)) r')" for r'
    using l(3) [of r'] l(4) [of r'] l(5) [of r'] getOrCreateRoom_new(1) [OF g t]
    by (cases "map_of (rcRooms s) r'") (auto simp: gomap_simps)
  ultimately show ?thesis
    using rep l(5) getOrCreateRoom_frame(1) [OF g] by (auto simp: represents_def gomap_simps less_SucI)
qed

lemma represents_join:
  assumes rep: "represents s t" and p: "map_of (rcRooms s) r = Some p"
    and room: "rcHeap s p = room" and ok: "rType room = PublicRoom \<or> mayJoin R c r"
    and frame: "rooms t' = rooms (enterRoom r c t)" "\<And>d. cRooms (cstore t' d) = cRooms (cstore (enterRoom r c t) d)"
  shows "represents (interleave R [(c, Go), (c, Go)] (setPc c (Got r p) s)) t'"
proof -
  have Idle: "rcPc s c = Idle" using rep by (simp add: represents_def)
  have "interleave R [(c, Go), (c, Go)] (setPc c (Got r p) s) =
    s\<lparr>rcHeap := (rcHeap s)(p := (rcHeap s p)\<lparr>rClients := m_put c c (rClients (rcHeap s p))\<rparr>),
      rcOwn := (rcOwn s)(c := m_put r True (rcOwn s c))\<rparr>"
    using room ok Idle by (auto simp: advance_simps addClient_def setPc_def Let_def fun_upd_idem)
  then show ?thesis
    using represents_keeps [OF represents_enter [OF rep p] frame] by simp
qed

lemma join_frame:
  assumes g: "getOrCreateRoom e r t = (Inr room, t1)" and ok: "rType room = PublicRoom \<or> checkRoomPermission e c r t1 = Inr True"
    and r: "r = cmRoomID msg"
  shows "rooms (handleJoinRoom e c msg t) = rooms (enterRoom r c t1)"
    and "cRooms (cstore (handleJoinRoom e c msg t) d) = cRooms (cstore (enterRoom r c t1) d)"
  using g ok unfolding r
  by (auto simp: handleJoinRoom_def Let_def frame_send frame_broadcast same_srv [OF sendHistory_same] same_client [OF sendHistory_same])

lemma represents_go:
  assumes g: "getOrCreateRoom e r t = (Inr room, t1)" and rep: "represents s t1"
    and p: "map_of (rcRooms s) r = Some p" "rcHeap s p = room" and r: "r = cmRoomID msg"
  shows "represents (interleave (rulesOf e t) [(c, Go), (c, Go)] (setPc c (Got r p) s)) (handleJoinRoom e c msg t)"
proof (cases "rType room = PublicRoom \<or> checkRoomPermission e c r t1 = Inr True")
  case True
  then have "rType room = PublicRoom \<or> mayJoin (rulesOf e t) c r" by (simp add: rulesOf_def g)
  from represents_join [OF rep p this join_frame [OF g True r]] show ?thesis .
next
  case False
  have Idle: "rcPc s c = Idle" by (rule represents_lookup(1) [OF rep])
  have "represents s (handleJoinRoom e c msg t)"
    using False g unfolding r
    by (intro represents_keeps [OF rep]) (simp_all add: handleJoinRoom_def frame_error)
  then show ?thesis
    using False p Idle by (simp add: advance_simps addClient_def rulesOf_def g setPc_def fun_upd_idem)
qed

lemma represents_join_alone:
  assumes rep: "represents s t" and r: "r = cmRoomID msg"
  shows "represents (interleave (rulesOf e t) (join_alone c r) s) (handleJoinRoom e c msg t)"
proof -
  let ?R = "rulesOf e t"
  note l = represents_lookup [OF rep]
  obtain res t1 where g: "getOrCreateRoom e r t = (res, t1)" by fastforce
  show ?thesis
  proof (cases "map_of (rcRooms s) r")
    case (Some p)
    then have go: "represents (interleave ?R [(c, Go), (c, Go)] (setPc c (Got r p) s)) (handleJoinRoom e c msg t)"
      using r by (intro represents_go [OF getOrCreateRoom_old [OF l(4) [OF Some]] rep Some]) simp_all
    with represents_lookup(1) [OF go, of c] show ?thesis
      using l(1) [of c] Some by (simp add: join_alone_def advance_simps lookupRoom_def)
  next
    case None
    show ?thesis
    proof (cases res)
      case (Inl err)
      have "represents s (handleJoinRoom e c msg t)"
        using g Inl None l(3) [of r] getOrCreateRoom_new(3) [OF g] getOrCreateRoom_frame(1) [OF g] unfolding r
        by (intro represents_keeps [OF rep]) (simp_all add: handleJoinRoom_def frame_error)
      then show ?thesis
        using Inl None l(1) [of c]
        by (simp add: join_alone_def advance_simps lookupRoom_def storeRoom_def rulesOf_def g setPc_def fun_upd_idem)
    next
      case (Inr room)
      let ?s1 = "s\<lparr>rcHeap := (rcHeap s)(rcNext s := room\<lparr>rClients := []\<rparr>), rcRooms := m_put r (rcNext s) (rcRooms s),
        rcNext := rcNext s + 1\<rparr>"
      have "room\<lparr>rClients := []\<rparr> = room" using getOrCreateRoom_new(2) [OF g] None l(3) [of r] Inr by simp
      then have "represents (interleave ?R [(c, Go), (c, Go)] (setPc c (Got r (rcNext s)) ?s1)) (handleJoinRoom e c msg t)"
        using g Inr None r by (intro represents_go [OF _ represents_store [OF rep, of e r room t1]]) (simp_all add: gomap_simps)
      then show ?thesis
        using Inr None l(1) [of c]
        by (simp add: join_alone_def advance_simps lookupRoom_def storeRoom_def rulesOf_def g setPc_def)
    qed
  qed
qed

lemma represents_leave_alone:
  assumes rep: "represents s t" and r: "r = cmRoomID msg"
  shows "represents (interleave R (leave_alone c r) s) (handleLeaveRoom e c msg t)"
proof (cases "inRooms (cstore t c) r")
  case False
  then have "represents s (handleLeaveRoom e c msg t)"
    unfolding r by (intro represents_keeps [OF rep]) (simp_all add: handleLeaveRoom_def frame_error)
  then show ?thesis
    using False represents_lookup(1,2) [OF rep, of c] by (simp add: leave_alone_def advance_simps)
next
  case True
  have "rcOwn (removeClient r c s) = rcOwn s" "rcPc (removeClient r c s) = rcPc s"
    by (simp_all add: removeClient_def Let_def split: option.split)
  then have "interleave R (leave_alone c r) s = (removeClient r c s)\<lparr>rcOwn := (rcOwn s)(c := m_del r (rcOwn s c))\<rparr>"
    using True represents_lookup(1,2) [OF rep, of c]
    by (simp add: leave_alone_def advance_simps setPc_def fun_upd_idem)
  then show ?thesis
    using True unfolding r
    by (auto simp: handleLeaveRoom_def Let_def frame_broadcast intro!: represents_keeps [OF represents_drop [OF rep]])
qed

text \<open>
  C20. Run without interruption, the steps of a join do to rooms and memberships what the handler of the
  chat server does, whether the room exists, is made, or cannot be made or entered; and so do the steps of a leave.
  A chat server's own rooms, laid out on a heap, are represented to begin with.
\<close>

lemma alone_is_handler:
  assumes "represents s t"
  shows "represents (interleave (rulesOf e t) (join_alone c (cmRoomID msg)) s) (handleJoinRoom e c msg t) \<and>
    represents (interleave R (leave_alone c (cmRoomID msg)) s) (handleLeaveRoom e c msg t) \<and> represents (raceOf t) t"
  using represents_join_alone [OF assms refl] represents_leave_alone [OF assms refl] raceOf_represents by blast

theorem alone_is_handler_witness:
  "represents (interleave (rulesOf demo_env demo_lobby)
       (join_alone ''c2'' (cmRoomID \<lparr>cmType = ''join_room'', cmRoomID = ''dm:x'', cmMessageID = '''', cmPayload = PRaw JNull, cmTimestamp = 0\<rparr>))
       (raceOf demo_lobby))
     (handleJoinRoom demo_env ''c2'' \<lparr>cmType = ''join_room'', cmRoomID = ''dm:x'', cmMessageID = '''', cmPayload = PRaw JNull, cmTimestamp = 0\<rparr>
       demo_lobby)"
  using alone_is_handler [OF raceOf_represents] by blast

section \<open>Rooms that stay\<close>

text \<open>
  What no interleaving breaks for a public room \<open>r\<close> that lies at \<open>p\<close>: the pointer in the map is the one every goroutine
  has, and it is nobody else's; and whether a client is on both sides, between two steps too.
\<close>

definition stays :: "string \<Rightarrow> nat \<Rightarrow> race \<Rightarrow> bool" where
  "stays r p s \<longleftrightarrow>
     map_of (rcRooms s) r = Some p \<and> rType (rcHeap s p) = PublicRoom \<and> p < rcNext s \<and>
     (\<forall>r' q. map_of (rcRooms s) r' = Some q \<longrightarrow> q < rcNext s \<and> (q = p \<longleftrightarrow> r' = r)) \<and>
     (\<forall>c. rcPc s c \<noteq> Missing r) \<and> (\<forall>c r' q. rcPc s c = Got r' q \<longrightarrow> q < rcNext s \<and> (q = p \<longleftrightarrow> r' = r))"

definition both_sides :: "string \<Rightarrow> nat \<Rightarrow> cid \<Rightarrow> race \<Rightarrow> bool" where
  "both_sides r p c s \<longleftrightarrow>
     (if rcPc s c = Entered r then m_has (rClients (rcHeap s p)) c
      else if rcPc s c = Removed r then \<not> m_has (rClients (rcHeap s p)) c
      else m_has (rClients (rcHeap s p)) c = owns s c r)"

lemma stays_setPc:
  assumes "stays r p s" and "pc \<noteq> Missing r" and "\<And>r' q. pc = Got r' q \<Longrightarrow> q < rcNext s \<and> (q = p \<longleftrightarrow> r' = r)"
  shows "stays r p (setPc c pc s)"
  using assms by (auto simp: stays_def)

lemma stays_own [simp]: "stays r p (s\<lparr>rcOwn := f\<rparr>) = stays r p s"
  by (simp add: stays_def)

lemma stays_clients: "stays r p s \<Longrightarrow> stays r p (s\<lparr>rcHeap := (rcHeap s)(q := (rcHeap s q)\<lparr>rClients := cs\<rparr>)\<rparr>)"
  by (cases "q = p") (simp_all add: stays_def)

lemma stays_lookup: "stays r p s \<Longrightarrow> stays r p (lookupRoom r' c s)"
  by (cases "map_of (rcRooms s) r'") (auto simp: stays_def lookupRoom_def)

lemma stays_store: "stays r p s \<Longrightarrow> rcPc s c = Missing r' \<Longrightarrow> stays r p (storeRoom R r' c s)"
  by (cases "r' = r") (auto simp: stays_def storeRoom_def gomap_simps less_SucI split: option.split)

lemma stays_add: "stays r p s \<Longrightarrow> stays r p (addClient R r' q c s)"
  unfolding addClient_def Let_def
  by (auto intro!: stays_setPc stays_clients)

lemma stays_remove: "stays r p s \<Longrightarrow> stays r p (setPc c (Removed r') (removeClient r' c s))"
  by (auto simp: stays_def removeClient_def Let_def gomap_simps split: option.split)

lemma stays_advance:
  assumes "stays r p s"
  shows "stays r p (advance R x s)"
  by (cases rule: advance_cases [of R x s])
    (use assms in \<open>auto simp: stays_lookup stays_store stays_add stays_remove intro: stays_setPc\<close>)

text \<open>Only the client's own steps on the room itself change whether it is on both sides.\<close>

lemma both_sides_advance:
  assumes st: "stays r p s" and "both_sides r p c s"
  shows "both_sides r p c (advance R x s)"
proof (cases rule: advance_cases [of R x s])
  case (lookup d r')
  then show ?thesis using assms by (cases "map_of (rcRooms s) r'") (auto simp: both_sides_def lookupRoom_def owns_def)
next
  case (store d r')
  then show ?thesis using assms by (auto simp: both_sides_def storeRoom_def owns_def stays_def split: option.split)
next
  case (add d r' q)
  then have "q = p \<longleftrightarrow> r' = r" "rType (rcHeap s p) = PublicRoom" using st by (auto simp: stays_def)
  with add show ?thesis using assms(2) by (auto simp: both_sides_def addClient_def Let_def owns_def gomap_simps)
next
  case (remove d r')
  have "map_of (rcRooms s) r' = Some q \<Longrightarrow> q = p \<longleftrightarrow> r' = r" for q using st by (auto simp: stays_def)
  moreover have "map_of (rcRooms s) r = Some p" "rType (rcHeap s p) = PublicRoom" using st by (simp_all add: stays_def)
  ultimately show ?thesis
    using remove assms(2) by (cases "map_of (rcRooms s) r'") (auto simp: both_sides_def removeClient_def Let_def owns_def gomap_simps)
qed (use assms in \<open>auto simp: both_sides_def owns_def gomap_simps\<close>)

lemma stays_interleave: "stays r p s \<Longrightarrow> stays r p (interleave R xs s)"
  by (induction xs arbitrary: s) (simp_all add: stays_advance)

lemma both_sides_interleave:
  "stays r p s \<Longrightarrow> both_sides r p c s \<Longrightarrow> both_sides r p c (interleave R xs s)"
  by (induction xs arbitrary: s) (simp_all add: stays_advance both_sides_advance)

text \<open>
  C21. Whatever clients join and leave at once, with their steps interleaved in any way: a public room of the server is never
  replaced, and a client that was on both sides of it or on neither is so whenever its goroutine is between two messages. So the
  broadcasts to the room reach exactly the clients that believe to be in it.
\<close>

lemma public_rooms_race_free:
  assumes "represents s t" and "map_of (rooms t) r = Some room" and "rType room = PublicRoom"
    and "inRooms (cstore t c) r = hasClient t r c" and "rcPc (interleave R xs s) c = Idle"
  shows "map_of (rcRooms (interleave R xs s)) r = map_of (rcRooms s) r \<and>
    reaches (interleave R xs s) r c = owns (interleave R xs s) c r"
proof -
  note l = represents_lookup [OF assms(1)]
  obtain p where p: "map_of (rcRooms s) r = Some p" using assms(2) l(3) [of r] by fastforce
  then have room: "rcHeap s p = room" using assms(2) l(4) by force
  have "q < rcNext s \<and> (q = p \<longleftrightarrow> r' = r)" if "map_of (rcRooms s) r' = Some q" for r' q
    using l(5) [OF that] l(6) [OF that, of r] p that by fastforce
  then have "stays r p s"
    using p room assms(3) l(1) l(5) [OF p] by (simp add: stays_def)
  moreover have "both_sides r p c s"
    using assms(2,4) room l(1,2) by (simp add: both_sides_def hasClient_def)
  ultimately have "stays r p s" "both_sides r p c s" .
  from stays_interleave [OF this(1), of R xs] both_sides_interleave [OF this, of R xs] show ?thesis
    using assms(5) p by (simp add: stays_def both_sides_def reaches_def)
qed

text \<open>A client enters the lobby while another leaves it.\<close>

definition demo_crossing :: "(cid \<times> act) list" where
  "demo_crossing = [(''c2'', BeginJoin ''public:lobby''), (''c1'', BeginLeave ''public:lobby''), (''c2'', Go), (''c1'', Go), (''c2'', Go)]"

theorem public_rooms_race_free_witness:
  "reaches (interleave demo_rules demo_crossing (raceOf demo_lobby)) ''public:lobby'' ''c2'' \<and>
   \<not> reaches (interleave demo_rules demo_crossing (raceOf demo_lobby)) ''public:lobby'' ''c1''"
proof -
  let ?s = "interleave demo_rules demo_crossing (raceOf demo_lobby)"
  have "case map_of (rooms demo_lobby) ''public:lobby'' of None \<Rightarrow> False | Some room \<Rightarrow> rType room = PublicRoom"
    by code_simp
  then obtain room where room: "map_of (rooms demo_lobby) ''public:lobby'' = Some room" "rType room = PublicRoom"
    by (auto split: option.splits)
  note free = public_rooms_race_free [OF raceOf_represents room, where R = demo_rules and xs = demo_crossing]
  have "inRooms (cstore demo_lobby ''c1'') ''public:lobby'' = hasClient demo_lobby ''public:lobby'' ''c1''"
    "inRooms (cstore demo_lobby ''c2'') ''public:lobby'' = hasClient demo_lobby ''public:lobby'' ''c2''"
    "rcPc ?s ''c1'' = Idle" "rcPc ?s ''c2'' = Idle" "owns ?s ''c2'' ''public:lobby''" "\<not> owns ?s ''c1'' ''public:lobby''"
    by code_simp+
  with free [of "''c1''"] free [of "''c2''"] show ?thesis by simp
qed

end
