(* ===== verification/Sql.thy ===== *)
theory Sql
  imports Json "HOL-Library.Multiset"
begin

text \<open>
  The SQL that \<^verbatim>\<open>chat/database.go\<close> is written in: statements with numbered parameters, tables with the
  constraints of the schema, and what a statement means on them. The meaning is used in two
  ways: as what a database driver is assumed to do (\<open>obeys\<close>), and, made executable by a stable sort, as a driver that
  does it (\<open>reference\<close>).
\<close>

section \<open>Values and tables\<close>

datatype sqlval = Null | Text string | Num int | Flag bool | Time int | Dec "64 word" | Other string

text \<open>\<open>Dec\<close> is a decimal number, as the \<^verbatim>\<open>float64\<close> nearest to it. \<open>Other\<close> is what no column holds: a number or truth value
  on its way into a column of text, or a value that the column refuses.\<close>

datatype coltype = VARCHAR nat | TEXT | TIMESTAMP | BIGINT | INTEGER | DECIMAL nat nat | JSONB

text \<open>A reference is to the key of another table, and cascades on deletion.\<close>

record column =
  colName :: string
  colType :: coltype
  notNull :: bool
  colRef :: "(string \<times> string) option"

record tabledef =
  tdCols :: "column list"
  tdKey :: "string list"

type_synonym row = "(string \<times> sqlval) list"

type_synonym tables = "(string, tabledef \<times> row list) gomap"

definition cell :: "row \<Rightarrow> string \<Rightarrow> sqlval" where
  "cell r c = (case map_of r c of None \<Rightarrow> Null | Some v \<Rightarrow> v)"

definition rowsOf :: "tables \<Rightarrow> string \<Rightarrow> row list" where
  "rowsOf ts t = (case map_of ts t of None \<Rightarrow> [] | Some x \<Rightarrow> snd x)"

section \<open>Statements\<close>

text \<open>
  \<open>INSERT t cs upd\<close> inserts the parameters as columns \<open>cs\<close>; with \<open>Some us\<close> a row with the same key gets the new
  values of the columns \<open>us\<close> instead. The conditions of \<open>DELETE\<close>, \<open>SELECT\<close> and \<open>EXISTS\<close> compare columns with
  parameters; a column of a query is named with its table. After them, \<open>qPage\<close> takes the limit and the offset.
\<close>

record query =
  qCols :: "(string \<times> string) list"
  qFrom :: string
  qJoin :: "(string \<times> (string \<times> string) \<times> (string \<times> string)) option"
  qWhere :: "(string \<times> string) list"
  qOrder :: "((string \<times> string) \<times> bool) option"
  qPage :: bool

datatype sql =
    CREATE_TABLE string tabledef
  | CREATE_INDEX string string string
  | INSERT string "string list" "string list option"
  | DELETE string "string list"
  | SELECT query
  | EXISTS query

section \<open>Constraints\<close>

definition fits :: "coltype \<Rightarrow> sqlval \<Rightarrow> bool" where
  "fits ty v = (case v of
      Null \<Rightarrow> True
    | Text s \<Rightarrow> (case ty of VARCHAR n \<Rightarrow> length s \<le> n | TEXT \<Rightarrow> True | JSONB \<Rightarrow> True | _ \<Rightarrow> False)
    | Num i \<Rightarrow> (case ty of BIGINT \<Rightarrow> - (2 ^ 63) \<le> i \<and> i < 2 ^ 63 | INTEGER \<Rightarrow> - (2 ^ 31) \<le> i \<and> i < 2 ^ 31 | _ \<Rightarrow> False)
    | Time _ \<Rightarrow> ty = TIMESTAMP
    | Dec _ \<Rightarrow> (case ty of DECIMAL _ _ \<Rightarrow> True | _ \<Rightarrow> False)
    | _ \<Rightarrow> False)"

definition keyOf :: "tabledef \<Rightarrow> row \<Rightarrow> sqlval list" where
  "keyOf d r = map (cell r) (tdKey d)"

definition row_ok :: "tabledef \<Rightarrow> row \<Rightarrow> bool" where
  "row_ok d r \<longleftrightarrow> map fst r = map colName (tdCols d) \<and> (\<forall>c \<in> set (tdCols d). fits (colType c) (cell r (colName c)) \<and> (notNull c \<longrightarrow> cell r (colName c) \<noteq> Null))"

definition present :: "tables \<Rightarrow> string \<Rightarrow> string \<Rightarrow> sqlval \<Rightarrow> bool" where
  "present ts t k v \<longleftrightarrow> (\<exists>r \<in> set (rowsOf ts t). cell r k = v)"

definition refs_ok :: "tables \<Rightarrow> tabledef \<Rightarrow> row \<Rightarrow> bool" where
  "refs_ok ts d r \<longleftrightarrow> (\<forall>c \<in> set (tdCols d). case colRef c of
      None \<Rightarrow> True
    | Some (t, k) \<Rightarrow> cell r (colName c) = Null \<or> present ts t k (cell r (colName c)))"

definition constraints :: "tables \<Rightarrow> bool" where
  "constraints ts \<longleftrightarrow> (\<forall>(t, d, rs) \<in> set ts. (\<forall>r \<in> set rs. row_ok d r \<and> refs_ok ts d r) \<and> distinct (map (keyOf d) rs))"

section \<open>Statements that change tables\<close>

text \<open>
  What is stored of a value: a time in the precision of the server, a decimal rounded to the places of its
  column unless it is too large, JSON as the server prints it unless it is malformed, a number in a text column as text.
\<close>

record dialect =
  keepTime :: "int \<Rightarrow> int"
  keepDec :: "nat \<Rightarrow> nat \<Rightarrow> 64 word \<Rightarrow> 64 word option"
  keepJson :: "string \<Rightarrow> string option"

definition stored :: "dialect \<Rightarrow> coltype \<Rightarrow> sqlval \<Rightarrow> sqlval" where
  "stored D ty v = (case v of Time t \<Rightarrow> Time (keepTime D t)
     | Dec x \<Rightarrow> (case ty of
           DECIMAL p k \<Rightarrow> (case keepDec D p k x of None \<Rightarrow> Other ''numeric field overflow'' | Some y \<Rightarrow> Dec y)
         | _ \<Rightarrow> Dec x)
     | Text s \<Rightarrow> (case ty of
           JSONB \<Rightarrow> (case keepJson D s of None \<Rightarrow> Other ''invalid input syntax for type json'' | Some j \<Rightarrow> Text j)
         | _ \<Rightarrow> Text s)
     | Other s \<Rightarrow> (case ty of TEXT \<Rightarrow> Text s | _ \<Rightarrow> Other s)
     | _ \<Rightarrow> v)"

text \<open>A row holds every column of its table, \<open>Null\<close> where the statement names none.\<close>

definition mkRow :: "dialect \<Rightarrow> tabledef \<Rightarrow> string list \<Rightarrow> sqlval list \<Rightarrow> row" where
  "mkRow D d cs args = map (\<lambda>c. (colName c, stored D (colType c) (cell (zip cs args) (colName c)))) (tdCols d)"

definition setCells :: "row \<Rightarrow> string list \<Rightarrow> row \<Rightarrow> row" where
  "setCells new us r = map (\<lambda>(c, v). (c, if c \<in> set us then cell new c else v)) r"

definition matches :: "string list \<Rightarrow> sqlval list \<Rightarrow> row \<Rightarrow> bool" where
  "matches cs args r \<longleftrightarrow> (\<forall>(c, v) \<in> set (zip cs args). v \<noteq> Null \<and> cell r c = v)"

text \<open>Deleting rows also deletes what refers to them, until every reference is met again.\<close>

definition refs_met :: "tables \<Rightarrow> tables \<Rightarrow> bool" where
  "refs_met ts us \<longleftrightarrow> (\<forall>(t, d, rs) \<in> set us. \<forall>r \<in> set rs. refs_ok ts d r)"

definition kept :: "tables \<Rightarrow> tables \<Rightarrow> tables" where
  "kept ts us = map (\<lambda>(t, d, rs). (t, d, filter (refs_ok ts d) rs)) us"

definition rowCount :: "tables \<Rightarrow> nat" where
  "rowCount ts = sum_list (map (\<lambda>(t, d, rs). length rs) ts)"

lemma kept_simps [simp]:
  "refs_met ts []" "refs_met ts ((t, d, rs) # us) \<longleftrightarrow> (\<forall>r \<in> set rs. refs_ok ts d r) \<and> refs_met ts us"
  "kept ts [] = []" "kept ts ((t, d, rs) # us) = (t, d, filter (refs_ok ts d) rs) # kept ts us"
  "rowCount [] = 0" "rowCount ((t, d, rs) # us) = length rs + rowCount us"
  by (simp_all add: refs_met_def kept_def rowCount_def)

lemma rowCount_kept: "rowCount (kept ts us) \<le> rowCount us"
proof (induction us)
  case (Cons u us)
  then show ?case by (cases u) (simp add: add_mono)
qed simp

lemma rowCount_less: "\<not> refs_met ts us \<Longrightarrow> rowCount (kept ts us) < rowCount us"
proof (induction us)
  case (Cons u us)
  obtain t d rs where u: "u = (t, d, rs)" by (cases u)
  show ?case
  proof (cases "\<forall>r \<in> set rs. refs_ok ts d r")
    case True
    then have "\<not> refs_met ts us" using Cons.prems by (simp add: u)
    from Cons.IH [OF this] show ?thesis
      using length_filter_le [of "refs_ok ts d" rs] unfolding u kept_simps by linarith
  next
    case False
    then obtain r where "r \<in> set rs" "\<not> refs_ok ts d r" by blast
    from length_filter_less [of r rs "refs_ok ts d", OF this] show ?thesis
      using rowCount_kept [of ts us] unfolding u kept_simps by linarith
  qed
qed simp

function purge :: "tables \<Rightarrow> tables" where
  "purge ts = (if refs_met ts ts then ts else purge (kept ts ts))"
  by auto

termination
  by (relation "measure rowCount") (simp_all add: rowCount_less)

declare purge.simps [simp del]

text \<open>A statement that would break a constraint is refused and changes nothing.\<close>

definition checked :: "tables \<Rightarrow> string + tables" where
  "checked ts = (if constraints ts then Inr ts else Inl ''violates constraint'')"

definition insertRow :: "dialect \<Rightarrow> string \<Rightarrow> tabledef \<Rightarrow> row list \<Rightarrow> string list option \<Rightarrow> row \<Rightarrow> tables \<Rightarrow> tables" where
  "insertRow D t d rs upd r ts =
     (case upd of
        Some us \<Rightarrow> if keyOf d r \<in> set (map (keyOf d) rs)
                   then m_put t (d, map (\<lambda>r'. if keyOf d r' = keyOf d r then setCells r us r' else r') rs) ts
                   else m_put t (d, rs @ [r]) ts
      | None \<Rightarrow> m_put t (d, rs @ [r]) ts)"

definition run :: "dialect \<Rightarrow> sql \<Rightarrow> sqlval list \<Rightarrow> tables \<Rightarrow> string + tables" where
  "run D q args ts = (case q of
      CREATE_TABLE t d \<Rightarrow> Inr (if m_has ts t then ts else m_put t (d, []) ts)
    | CREATE_INDEX i t c \<Rightarrow> (case map_of ts t of None \<Rightarrow> Inl ''relation does not exist'' | Some _ \<Rightarrow> Inr ts)
    | INSERT t cs upd \<Rightarrow> (case map_of ts t of
          None \<Rightarrow> Inl ''relation does not exist''
        | Some (d, rs) \<Rightarrow>
            if length args = length cs \<and> set cs \<subseteq> set (map colName (tdCols d))
            then checked (insertRow D t d rs upd (mkRow D d cs args) ts) else Inl ''malformed'')
    | DELETE t cs \<Rightarrow> (case map_of ts t of
          None \<Rightarrow> Inl ''relation does not exist''
        | Some (d, rs) \<Rightarrow> Inr (purge (m_put t (d, filter (\<lambda>r. \<not> matches cs args r) rs) ts)))
    | _ \<Rightarrow> Inr ts)"

section \<open>Queries\<close>

type_synonym env = "((string \<times> string) \<times> sqlval) list"

definition envOf :: "string \<Rightarrow> row \<Rightarrow> env" where
  "envOf t r = map (\<lambda>(c, v). ((t, c), v)) r"

definition look :: "env \<Rightarrow> string \<times> string \<Rightarrow> sqlval" where
  "look e c = (case map_of e c of None \<Rightarrow> Null | Some v \<Rightarrow> v)"

text \<open>The rows a query ranges over, in no order of meaning.\<close>

definition source :: "query \<Rightarrow> tables \<Rightarrow> env list" where
  "source q ts =
     (let left = map (envOf (qFrom q)) (rowsOf ts (qFrom q))
      in case qJoin q of
           None \<Rightarrow> left
         | Some (t, a, b) \<Rightarrow>
             filter (\<lambda>e. look e a \<noteq> Null \<and> look e a = look e b)
               (concat (map (\<lambda>e. map (\<lambda>r. e @ envOf t r) (rowsOf ts t)) left)))"

definition chosen :: "query \<Rightarrow> sqlval list \<Rightarrow> tables \<Rightarrow> env list" where
  "chosen q args ts =
     filter (\<lambda>e. \<forall>(c, v) \<in> set (zip (qWhere q) args). v \<noteq> Null \<and> look e c = v) (source q ts)"

definition instant :: "sqlval \<Rightarrow> int" where
  "instant v = (case v of Time t \<Rightarrow> t | _ \<Rightarrow> 0)"

text \<open>Descending order is ascending order of the negated time.\<close>

definition orderKey :: "query \<Rightarrow> env \<Rightarrow> int" where
  "orderKey q e = (case qOrder q of None \<Rightarrow> 0 | Some (c, asc) \<Rightarrow> (if asc then instant (look e c) else - instant (look e c)))"

definition page :: "query \<Rightarrow> sqlval list \<Rightarrow> 'a list \<Rightarrow> 'a list" where
  "page q args xs =
     (if qPage q then (case drop (length (qWhere q)) args of Num n # Num k # _ \<Rightarrow> take (nat n) (drop (nat k) xs) | _ \<Rightarrow> xs)
      else xs)"

definition badPage :: "query \<Rightarrow> sqlval list \<Rightarrow> bool" where
  "badPage q args \<longleftrightarrow> qPage q \<and> (case drop (length (qWhere q)) args of Num n # Num k # _ \<Rightarrow> n < 0 \<or> k < 0 | _ \<Rightarrow> True)"

definition tablesOf :: "query \<Rightarrow> string set" where
  "tablesOf q = insert (qFrom q) (case qJoin q of None \<Rightarrow> {} | Some (t, _) \<Rightarrow> {t})"

definition refused :: "query \<Rightarrow> sqlval list \<Rightarrow> tables \<Rightarrow> bool" where
  "refused q args ts \<longleftrightarrow> badPage q args \<or> (\<exists>t \<in> tablesOf q. \<not> m_has ts t)"

text \<open>An answer is a page of some sorted arrangement of the chosen rows.\<close>

definition answers :: "query \<Rightarrow> sqlval list \<Rightarrow> tables \<Rightarrow> sqlval list list \<Rightarrow> bool" where
  "answers q args ts rows \<longleftrightarrow>
     (\<exists>es. mset es = mset (chosen q args ts) \<and> sorted (map (orderKey q) es) \<and>
        rows = map (\<lambda>e. map (look e) (qCols q)) (page q args es))"

section \<open>Drivers\<close>

text \<open>
  \<open>dExec\<close> is \<^verbatim>\<open>ExecContext\<close>, \<open>dQuery\<close> is \<^verbatim>\<open>QueryContext\<close>: an error, or rows with the error that ended them. \<open>dConv\<close> is what
  \<^verbatim>\<open>database/sql\<close> makes of a value of another kind than the destination of a \<^verbatim>\<open>Scan\<close>; \<open>dNum\<close> prints the numbers and truth
  values of \<^verbatim>\<open>interface{}\<close>; \<open>dText\<close> is the text of a statement.
\<close>

record 'st driver =
  dExec :: "sql \<Rightarrow> sqlval list \<Rightarrow> 'st \<Rightarrow> string option \<times> 'st"
  dQuery :: "sql \<Rightarrow> sqlval list \<Rightarrow> 'st \<Rightarrow> string + (sqlval list list \<times> string option)"
  dConv :: "sqlval \<Rightarrow> sqlval \<Rightarrow> string + sqlval"
  dNum :: "json \<Rightarrow> string"
  dText :: "sql \<Rightarrow> string"

text \<open>A driver of a database that is up: it does what the statement says, and reports what is refused.\<close>

definition obeys :: "'st driver \<Rightarrow> dialect \<Rightarrow> ('st \<Rightarrow> tables) \<Rightarrow> bool" where
  "obeys drv D view \<longleftrightarrow>
     (\<forall>q args st. case run D q args (view st) of
        Inl _ \<Rightarrow> fst (dExec drv q args st) \<noteq> None \<and> view (snd (dExec drv q args st)) = view st
      | Inr ts \<Rightarrow> fst (dExec drv q args st) = None \<and> view (snd (dExec drv q args st)) = ts) \<and>
     (\<forall>q args st. if refused q args (view st) then \<exists>e. dQuery drv (SELECT q) args st = Inl e
        else \<exists>rows. dQuery drv (SELECT q) args st = Inr (rows, None) \<and> answers q args (view st) rows) \<and>
     (\<forall>q args st. if refused q args (view st) then \<exists>e. dQuery drv (EXISTS q) args st = Inl e
        else dQuery drv (EXISTS q) args st = Inr ([[Flag (chosen q args (view st) \<noteq> [])]], None))"

definition reference :: "dialect \<Rightarrow> tables driver" where
  "reference D =
     \<lparr>dExec = (\<lambda>q args ts. case run D q args ts of Inl e \<Rightarrow> (Some e, ts) | Inr ts' \<Rightarrow> (None, ts')),
      dQuery = (\<lambda>s args ts. case s of
          SELECT q \<Rightarrow> if refused q args ts then Inl ''refused''
            else Inr (map (\<lambda>e. map (look e) (qCols q)) (page q args (sort_key (orderKey q) (chosen q args ts))), None)
        | EXISTS q \<Rightarrow> if refused q args ts then Inl ''refused'' else Inr ([[Flag (chosen q args ts \<noteq> [])]], None)
        | _ \<Rightarrow> Inr ([], None)),
      dConv = (\<lambda>_ _. Inl ''unsupported Scan''), dNum = (\<lambda>_. ''''), dText = (\<lambda>_. '''')\<rparr>"

lemma reference_obeys: "obeys (reference D) D id"
  unfolding obeys_def
proof (intro conjI allI)
  fix q args and st :: tables
  show "case run D q args (id st) of Inl e \<Rightarrow> fst (dExec (reference D) q args st) \<noteq> None \<and> id (snd (dExec (reference D) q args st)) = id st
      | Inr ts \<Rightarrow> fst (dExec (reference D) q args st) = None \<and> id (snd (dExec (reference D) q args st)) = ts"
    by (simp add: reference_def split: sum.split)
next
  fix q args and st :: tables
  have "answers q args st (map (\<lambda>e. map (look e) (qCols q)) (page q args (sort_key (orderKey q) (chosen q args st))))"
    unfolding answers_def by (rule exI [of _ "sort_key (orderKey q) (chosen q args st)"]) simp
  then show "if refused q args (id st) then \<exists>e. dQuery (reference D) (SELECT q) args st = Inl e
      else \<exists>rows. dQuery (reference D) (SELECT q) args st = Inr (rows, None) \<and> answers q args (id st) rows"
    by (simp add: reference_def)
qed (simp add: reference_def)

section \<open>Lemmas\<close>

lemma cell_simps [simp]:
  "cell [] c = Null" "cell ((k, v) # r) c = (if c = k then v else cell r c)"
  by (simp_all add: cell_def)

lemma cell_map: "c \<in> set cs \<Longrightarrow> cell (map (\<lambda>x. (g x, f x)) xs) c = (if c \<in> g ` set xs then f (the (find (\<lambda>x. g x = c) xs)) else Null)"
  by (induction xs) auto

lemma cell_setCells: "cell (setCells new us r) c = (if c \<in> set us \<and> map_of r c \<noteq> None then cell new c else cell r c)"
  by (induction r) (auto simp: setCells_def)

lemma fst_setCells [simp]: "map fst (setCells new us r) = map fst r"
  by (induction r) (auto simp: setCells_def)

lemma fst_mkRow [simp]: "map fst (mkRow D d cs args) = map colName (tdCols d)"
  by (simp add: mkRow_def comp_def)

lemma look_envOf [simp]: "look (envOf t r) (t', c) = (if t' = t then cell r c else Null)"
  by (induction r) (auto simp: look_def envOf_def)

lemma look_append: "look (e @ envOf t r) (t', c) = (if t' = t \<and> map_of e (t, c) = None then cell r c else look e (t', c))"
proof -
  have "map_of (envOf t r) (t', c) = (if t' = t then map_of r c else None)"
    by (induction r) (auto simp: envOf_def)
  then show ?thesis by (auto simp: look_def cell_def split: option.split)
qed

lemma rowsOf_Some: "map_of ts t = Some (d, rs) \<Longrightarrow> rowsOf ts t = rs"
  by (simp add: rowsOf_def)

lemma rowsOf_put [simp]: "rowsOf (m_put t (d, rs) ts) t' = (if t' = t then rs else rowsOf ts t')"
  by (simp add: rowsOf_def gomap_simps)

text \<open>A rearrangement of the images of a list is the images of a rearrangement.\<close>

lemma mset_eq_map: "mset es = mset (map f ys) \<Longrightarrow> \<exists>xs. es = map f xs \<and> mset xs = mset ys"
proof (induction es arbitrary: ys)
  case (Cons e es)
  then have "e \<in> f ` set ys" by (metis list.set_intros(1) set_map set_mset_mset)
  then obtain y where y: "y \<in> set ys" "e = f y" by blast
  then have "mset ys = add_mset y (mset (remove1 y ys))" by simp
  then have "mset (map f ys) = add_mset e (mset (map f (remove1 y ys)))" using y(2) by (metis image_mset_add_mset mset_map)
  with Cons.prems have "mset es = mset (map f (remove1 y ys))" by simp
  from Cons.IH [OF this] obtain xs where "es = map f xs" "mset xs = mset (remove1 y ys)" by blast
  then show ?case using y by (intro exI [of _ "y # xs"]) simp
qed simp

text \<open>Constraints, table by table.\<close>

lemma constraints_iff:
  assumes "m_wf ts"
  shows "constraints ts \<longleftrightarrow> (\<forall>t d rs. map_of ts t = Some (d, rs) \<longrightarrow>
    (\<forall>r \<in> set rs. row_ok d r \<and> refs_ok ts d r) \<and> distinct (map (keyOf d) rs))"
  using assms by (fastforce simp: constraints_def m_wf_def)

lemma refs_ok_mono:
  assumes "\<And>c t k v. c \<in> set (tdCols d) \<Longrightarrow> colRef c = Some (t, k) \<Longrightarrow> present ts t k v \<Longrightarrow> present us t k v"
    and "refs_ok ts d r"
  shows "refs_ok us d r"
  using assms unfolding refs_ok_def by (fastforce split: option.splits)

lemma present_put:
  "present (m_put t (d, rs) ts) t' k v \<longleftrightarrow> (if t' = t then \<exists>r \<in> set rs. cell r k = v else present ts t' k v)"
  by (simp add: present_def)

text \<open>A row added at the end.\<close>

lemma constraints_append:
  assumes wf: "m_wf ts" and c: "constraints ts" and t: "map_of ts t = Some (d, rs)"
  shows "constraints (m_put t (d, rs @ [r]) ts) \<longleftrightarrow>
    row_ok d r \<and> refs_ok (m_put t (d, rs @ [r]) ts) d r \<and> keyOf d r \<notin> set (map (keyOf d) rs)"
proof -
  let ?us = "m_put t (d, rs @ [r]) ts"
  have mono: "refs_ok ts d' r' \<Longrightarrow> refs_ok ?us d' r'" for d' r'
    by (elim refs_ok_mono [rotated]) (auto simp: present_put present_def rowsOf_Some [OF t])
  have "\<forall>r \<in> set rs'. row_ok d' r \<and> refs_ok ts d' r" "distinct (map (keyOf d') rs')" if "map_of ts t' = Some (d', rs')" for t' d' rs'
    using c that by (auto simp: constraints_iff [OF wf])
  then show ?thesis
    using t mono by (auto simp: constraints_iff [OF m_wf_put [OF wf]] gomap_simps)
qed

text \<open>Rows changed in columns \<open>us\<close> that are in no key, make no reference, and are not referred to.\<close>

lemma constraints_update:
  assumes wf: "m_wf ts" and c: "constraints ts" and t: "map_of ts t = Some (d, rs)"
    and keep: "\<And>r c. r \<in> set rs \<Longrightarrow> c \<notin> set us \<Longrightarrow> cell (f r) c = cell r c"
    and ok: "\<And>r. r \<in> set rs \<Longrightarrow> row_ok d (f r)"
    and key: "set us \<inter> set (tdKey d) = {}"
    and own: "\<And>c. c \<in> set (tdCols d) \<Longrightarrow> colRef c \<noteq> None \<Longrightarrow> colName c \<notin> set us"
    and other: "\<And>t' d' rs' c k. map_of ts t' = Some (d', rs') \<Longrightarrow> c \<in> set (tdCols d') \<Longrightarrow> colRef c = Some (t, k) \<Longrightarrow> k \<notin> set us"
  shows "constraints (m_put t (d, map f rs) ts)"
proof -
  let ?us = "m_put t (d, map f rs) ts"
  have refs: "refs_ok ?us d' r" if "refs_ok ts d' r" "map_of ts t' = Some (d', rs')" for t' d' rs' r
    using that(1)
  proof (rule refs_ok_mono [rotated])
    fix c t'' k v
    assume "c \<in> set (tdCols d')" "colRef c = Some (t'', k)" and v: "present ts t'' k v"
    then have "t'' = t \<Longrightarrow> k \<notin> set us" using other that(2) by blast
    then show "present ?us t'' k v"
      using v keep by (auto simp: present_put present_def rowsOf_Some [OF t])
  qed
  have old: "\<forall>r \<in> set rs'. row_ok d' r \<and> refs_ok ts d' r" "distinct (map (keyOf d') rs')"
    if "map_of ts t' = Some (d', rs')" for t' d' rs'
    using c that by (auto simp: constraints_iff [OF wf])
  have "keyOf d (f r) = keyOf d r" if "r \<in> set rs" for r
    using key keep that by (auto simp: keyOf_def)
  then have keys: "map (keyOf d) (map f rs) = map (keyOf d) rs"
    by simp
  have "refs_ok ?us d (f r)" if "r \<in> set rs" for r
  proof -
    have "refs_ok ?us d r" using refs t old(1) [OF t] that by blast
    moreover have "cell (f r) (colName c) = cell r (colName c)" if "c \<in> set (tdCols d)" "colRef c \<noteq> None" for c
      using own [OF that] keep \<open>r \<in> set rs\<close> by blast
    ultimately show ?thesis unfolding refs_ok_def by (fastforce split: option.splits)
  qed
  then show ?thesis
    unfolding constraints_iff [OF m_wf_put [OF wf]]
    using ok refs old keys old(2) [OF t] by (auto simp: gomap_simps simp del: map_map split: if_splits)
qed

text \<open>Deleting.\<close>

lemma purge_id: "refs_met ts ts \<Longrightarrow> purge ts = ts"
  by (subst purge.simps) simp

definition sound_rows :: "tables \<Rightarrow> bool" where
  "sound_rows ts \<longleftrightarrow> (\<forall>(t, d, rs) \<in> set ts. (\<forall>r \<in> set rs. row_ok d r) \<and> distinct (map (keyOf d) rs))"

lemma constraints_split: "constraints ts \<longleftrightarrow> sound_rows ts \<and> refs_met ts ts"
  by (fastforce simp: constraints_def sound_rows_def refs_met_def)

lemma sound_kept: "sound_rows us \<Longrightarrow> sound_rows (kept ts us)"
  by (fastforce simp: sound_rows_def kept_def distinct_map_filter)

lemma constraints_purge: "sound_rows ts \<Longrightarrow> constraints (purge ts)"
proof (induction ts rule: purge.induct)
  case (1 ts)
  then show ?case by (subst purge.simps) (simp add: constraints_split sound_kept)
qed

text \<open>What purging keeps: the tables, and all rows of a table that refers to none.\<close>

definition defs :: "tables \<Rightarrow> (string \<times> tabledef) list" where
  "defs ts = map (\<lambda>(t, d, rs). (t, d)) ts"

lemma defs_kept [simp]: "defs (kept ts us) = defs us"
  by (simp add: defs_def kept_def case_prod_unfold comp_def)

lemma defs_purge [simp]: "defs (purge ts) = defs ts"
proof (induction ts rule: purge.induct)
  case (1 ts)
  then show ?case by (subst purge.simps) simp
qed

lemma rowsOf_kept: "map_of us t = Some (d, rs) \<Longrightarrow> map_of (kept ts us) t = Some (d, filter (refs_ok ts d) rs)"
  by (induction us) (auto simp: kept_def)

lemma purge_keeps_table:
  assumes "\<And>c. c \<in> set (tdCols d) \<Longrightarrow> colRef c = None"
  shows "map_of ts t = Some (d, rs) \<Longrightarrow> map_of (purge ts) t = Some (d, rs)"
proof (induction ts rule: purge.induct)
  case (1 ts)
  have "refs_ok ts d r" for r using assms by (simp add: refs_ok_def)
  then have "map_of (kept ts ts) t = Some (d, rs)" using rowsOf_kept [OF 1(2), of ts] by simp
  then show ?case using 1 by (subst purge.simps) simp
qed

lemma purge_subset:
  "map_of ts t = Some (d, rs) \<Longrightarrow> \<exists>P. map_of (purge ts) t = Some (d, filter P rs)"
proof (induction ts arbitrary: rs rule: purge.induct)
  case (1 ts)
  show ?case
  proof (cases "refs_met ts ts")
    case True
    then show ?thesis using 1(2) by (intro exI [of _ "\<lambda>_. True"]) (simp add: purge_id)
  next
    case False
    from 1(1) [OF False rowsOf_kept [OF 1(2)]] show ?thesis
      using False by (subst purge.simps) (auto simp: filter_filter)
  qed
qed

end
