(* ===== verification/PgDB.thy ===== *)
theory PgDB
  imports ChatDB Sql
begin

text \<open>
  \<^verbatim>\<open>PostgreSQLDB\<close> of \<^verbatim>\<open>chat/database.go\<close>: the schema, the statement of every method, what \<^verbatim>\<open>database/sql\<close> does with
  arguments and results, and the methods, for any driver.
\<close>

section \<open>The schema\<close>

abbreviation col :: "string \<Rightarrow> coltype \<Rightarrow> column" where
  "col n ty \<equiv> \<lparr>colName = n, colType = ty, notNull = False, colRef = None\<rparr>"

abbreviation col_nn :: "string \<Rightarrow> coltype \<Rightarrow> column" where
  "col_nn n ty \<equiv> \<lparr>colName = n, colType = ty, notNull = True, colRef = None\<rparr>"

abbreviation col_ref :: "string \<Rightarrow> coltype \<Rightarrow> bool \<Rightarrow> string \<Rightarrow> column" where
  "col_ref n ty nn t \<equiv> \<lparr>colName = n, colType = ty, notNull = nn, colRef = Some (t, ''id'')\<rparr>"

text \<open>
  A primary key is not null. Defaults are left out, since every \<^verbatim>\<open>INSERT\<close> of the program names all columns.
\<close>

definition roomsTable :: tabledef where
  "roomsTable = \<lparr>tdCols = [col_nn ''id'' (VARCHAR 255), col_nn ''type'' (VARCHAR 50), col_nn ''name'' (VARCHAR 255),
     col ''metadata'' JSONB, col ''created_at'' TIMESTAMP], tdKey = [''id'']\<rparr>"

definition messagesTable :: tabledef where
  "messagesTable = \<lparr>tdCols = [col_nn ''id'' (VARCHAR 255), col_ref ''room_id'' (VARCHAR 255) True ''rooms'',
     col_nn ''sender_id'' (VARCHAR 255), col_nn ''content'' TEXT, col ''timestamp'' TIMESTAMP,
     col_ref ''parent_message_id'' (VARCHAR 255) False ''messages'', col ''message_type'' (VARCHAR 50), col ''file_data'' TEXT,
     col ''file_name'' (VARCHAR 500), col ''file_size'' BIGINT, col ''file_type'' (VARCHAR 100), col ''media_data'' TEXT,
     col ''media_type'' (VARCHAR 50), col ''duration'' INTEGER, col ''latitude'' (DECIMAL 10 8),
     col ''longitude'' (DECIMAL 11 8)],
     tdKey = [''id'']\<rparr>"

definition room_membersTable :: tabledef where
  "room_membersTable = \<lparr>tdCols = [col_ref ''room_id'' (VARCHAR 255) True ''rooms'', col_nn ''user_id'' (VARCHAR 255),
     col ''role'' (VARCHAR 50), col ''joined_at'' TIMESTAMP], tdKey = [''room_id'', ''user_id'']\<rparr>"

definition read_receiptsTable :: tabledef where
  "read_receiptsTable = \<lparr>tdCols = [col_ref ''message_id'' (VARCHAR 255) True ''messages'', col_nn ''user_id'' (VARCHAR 255),
     col ''read_at'' TIMESTAMP], tdKey = [''message_id'', ''user_id'']\<rparr>"

definition schemaQueries :: "sql list" where
  "schemaQueries =
     [CREATE_TABLE ''rooms'' roomsTable, CREATE_TABLE ''messages'' messagesTable,
      CREATE_TABLE ''room_members'' room_membersTable, CREATE_TABLE ''read_receipts'' read_receiptsTable,
      CREATE_INDEX ''idx_messages_room_id'' ''messages'' ''room_id'',
      CREATE_INDEX ''idx_messages_timestamp'' ''messages'' ''timestamp'',
      CREATE_INDEX ''idx_messages_parent_id'' ''messages'' ''parent_message_id'',
      CREATE_INDEX ''idx_room_members_user_id'' ''room_members'' ''user_id'',
      CREATE_INDEX ''idx_read_receipts_user_id'' ''read_receipts'' ''user_id'']"

fun initSchemaLoop :: "'st driver \<Rightarrow> sql list \<Rightarrow> 'st \<Rightarrow> string option \<times> 'st" where
  "initSchemaLoop drv [] st = (None, st)"
| "initSchemaLoop drv (q # qs) st =
     (case dExec drv q [] st of
        (Some err, st') \<Rightarrow> (Some (''failed to execute query: '' @ dText drv q @ '', error: '' @ err), st')
      | (None, st') \<Rightarrow> initSchemaLoop drv qs st')"

definition initSchema :: "'st driver \<Rightarrow> 'st \<Rightarrow> string option \<times> 'st" where
  "initSchema drv st = initSchemaLoop drv schemaQueries st"

text \<open>\<open>opened\<close> and \<open>pinged\<close> are what \<^verbatim>\<open>sql.Open\<close> and \<^verbatim>\<open>Ping\<close> answer; the connection is the state \<open>st\<close>.\<close>

definition NewPostgreSQLDB ::
  "(string \<Rightarrow> string option) \<Rightarrow> string option \<Rightarrow> 'st driver \<Rightarrow> string \<Rightarrow> 'st \<Rightarrow> (string + 'st driver) \<times> 'st" where
  "NewPostgreSQLDB opened pinged drv connectionString st =
     (case opened connectionString of
        Some err \<Rightarrow> (Inl (''failed to open database: '' @ err), st)
      | None \<Rightarrow>
          (case pinged of
             Some err \<Rightarrow> (Inl (''failed to ping database: '' @ err), st)
           | None \<Rightarrow>
               (case initSchema drv st of
                  (Some err, st') \<Rightarrow> (Inl (''failed to initialize schema: '' @ err), st')
                | (None, st') \<Rightarrow> (Inr drv, st'))))"

section \<open>Arguments and results\<close>

definition bindE :: "'e + 'a \<Rightarrow> ('a \<Rightarrow> 'e + 'b) \<Rightarrow> 'e + 'b" where
  "bindE x f = (case x of Inl e \<Rightarrow> Inl e | Inr a \<Rightarrow> f a)"

lemma bindE_simps [simp]: "bindE (Inr a) f = f a" "bindE (Inl e) f = Inl e"
  by (simp_all add: bindE_def)

definition ptr :: "('a \<Rightarrow> sqlval) \<Rightarrow> 'a option \<Rightarrow> sqlval" where
  "ptr f x = (case x of None \<Rightarrow> Null | Some a \<Rightarrow> f a)"

text \<open>A value of type \<^verbatim>\<open>interface{}\<close> as an argument: maps and slices are not among the types \<^verbatim>\<open>database/sql\<close> takes.\<close>

definition argAny :: "'st driver \<Rightarrow> json option \<Rightarrow> string + sqlval" where
  "argAny drv x = (case x of
      None \<Rightarrow> Inr Null
    | Some JNull \<Rightarrow> Inr Null
    | Some (JStr s) \<Rightarrow> Inr (Text s)
    | Some (JArr _) \<Rightarrow> Inl ''unsupported type []interface {}, a slice''
    | Some (JObj _) \<Rightarrow> Inl ''unsupported type map[string]interface {}, a map''
    | Some j \<Rightarrow> Inr (Other (dNum drv j)))"

definition messageArgs :: "'st driver \<Rightarrow> DBMessage \<Rightarrow> string + sqlval list" where
  "messageArgs drv m = bindE (argAny drv (dmFileData m))
     (\<lambda>fd. Inr [Text (dmID m), Text (dmRoomID m), Text (dmSenderID m), Text (dmContent m), Time (dmTimestamp m),
        ptr Text (dmParent m), Text (dmType m), fd, ptr Text (dmFileName m), ptr Num (dmFileSize m), ptr Text (dmFileType m),
        ptr Text (dmMediaData m), ptr Text (dmMediaType m), ptr Num (dmDuration m),
        ptr Dec (dmLatitude m), ptr Dec (dmLongitude m)])"

text \<open>\<^verbatim>\<open>Scan\<close> into a variable of the kind of \<open>k\<close>.\<close>

fun sameKind :: "sqlval \<Rightarrow> sqlval \<Rightarrow> bool" where
  "sameKind (Text _) (Text _) = True"
| "sameKind (Num _) (Num _) = True"
| "sameKind (Flag _) (Flag _) = True"
| "sameKind (Time _) (Time _) = True"
| "sameKind (Dec _) (Dec _) = True"
| "sameKind _ _ = False"

definition scanVal :: "'st driver \<Rightarrow> sqlval \<Rightarrow> sqlval \<Rightarrow> string + sqlval" where
  "scanVal drv k v =
     (if v = Null then Inl ''converting NULL is unsupported'' else if sameKind k v then Inr v else dConv drv k v)"

definition scanStr :: "'st driver \<Rightarrow> sqlval \<Rightarrow> string + string" where
  "scanStr drv v = bindE (scanVal drv (Text '''') v) (\<lambda>v. Inr (case v of Text s \<Rightarrow> s | _ \<Rightarrow> ''''))"

definition scanInt :: "'st driver \<Rightarrow> sqlval \<Rightarrow> string + int" where
  "scanInt drv v = bindE (scanVal drv (Num 0) v) (\<lambda>v. Inr (case v of Num i \<Rightarrow> i | _ \<Rightarrow> 0))"

definition scanBool :: "'st driver \<Rightarrow> sqlval \<Rightarrow> string + bool" where
  "scanBool drv v = bindE (scanVal drv (Flag False) v) (\<lambda>v. Inr (case v of Flag b \<Rightarrow> b | _ \<Rightarrow> False))"

definition scanTime :: "'st driver \<Rightarrow> sqlval \<Rightarrow> string + int" where
  "scanTime drv v = bindE (scanVal drv (Time 0) v) (\<lambda>v. Inr (case v of Time t \<Rightarrow> t | _ \<Rightarrow> 0))"

definition scanFloat :: "'st driver \<Rightarrow> sqlval \<Rightarrow> string + float64" where
  "scanFloat drv v = bindE (scanVal drv (Dec 0) v) (\<lambda>v. Inr (case v of Dec x \<Rightarrow> x | _ \<Rightarrow> 0))"

text \<open>Into a pointer, which is nil for a null.\<close>

definition scanPtr :: "(sqlval \<Rightarrow> string + 'a) \<Rightarrow> sqlval \<Rightarrow> string + 'a option" where
  "scanPtr f v = (if v = Null then Inr None else bindE (f v) (\<lambda>a. Inr (Some a)))"

definition scanAny :: "sqlval \<Rightarrow> string + json option" where
  "scanAny v = (case v of Null \<Rightarrow> Inr None | Text s \<Rightarrow> Inr (Some (JStr s)) | Num i \<Rightarrow> Inr (Some (JNum i))
     | Flag b \<Rightarrow> Inr (Some (JBool b)) | Dec _ \<Rightarrow> Inl ''unsupported Scan'' | Other s \<Rightarrow> Inr (Some (JFrac s)) | Time _ \<Rightarrow> Inl ''unsupported Scan'')"

text \<open>The sixteen columns of a message.\<close>

definition scanMessage :: "'st driver \<Rightarrow> sqlval list \<Rightarrow> string + DBMessage" where
  "scanMessage drv cs =
     (if length cs \<noteq> 16 then Inl ''expected 16 destination arguments in Scan''
      else
        bindE (scanStr drv (cs ! 0)) (\<lambda>i.
        bindE (scanStr drv (cs ! 1)) (\<lambda>room.
        bindE (scanStr drv (cs ! 2)) (\<lambda>sender.
        bindE (scanStr drv (cs ! 3)) (\<lambda>content.
        bindE (scanTime drv (cs ! 4)) (\<lambda>t.
        bindE (scanPtr (scanStr drv) (cs ! 5)) (\<lambda>parent.
        bindE (scanStr drv (cs ! 6)) (\<lambda>ty.
        bindE (scanAny (cs ! 7)) (\<lambda>fileData.
        bindE (scanPtr (scanStr drv) (cs ! 8)) (\<lambda>fileName.
        bindE (scanPtr (scanInt drv) (cs ! 9)) (\<lambda>fileSize.
        bindE (scanPtr (scanStr drv) (cs ! 10)) (\<lambda>fileType.
        bindE (scanPtr (scanStr drv) (cs ! 11)) (\<lambda>mediaData.
        bindE (scanPtr (scanStr drv) (cs ! 12)) (\<lambda>mediaType.
        bindE (scanPtr (scanInt drv) (cs ! 13)) (\<lambda>duration.
        bindE (scanPtr (scanFloat drv) (cs ! 14)) (\<lambda>latitude.
        bindE (scanPtr (scanFloat drv) (cs ! 15)) (\<lambda>longitude.
          Inr \<lparr>dmID = i, dmRoomID = room, dmSenderID = sender, dmContent = content, dmTimestamp = t, dmParent = parent,
             dmType = ty, dmFileData = fileData, dmFileName = fileName, dmFileSize = fileSize, dmFileURL = None,
             dmFileType = fileType, dmMediaData = mediaData, dmMediaType = mediaType, dmDuration = duration,
             dmLatitude = latitude, dmLongitude = longitude\<rparr>)))))))))))))))))"

definition scanRoom :: "'st driver \<Rightarrow> sqlval list \<Rightarrow> string + DBRoom" where
  "scanRoom drv cs =
     (if length cs \<noteq> 5 then Inl ''expected 5 destination arguments in Scan''
      else
        bindE (scanStr drv (cs ! 0)) (\<lambda>i.
        bindE (scanStr drv (cs ! 1)) (\<lambda>ty.
        bindE (scanStr drv (cs ! 2)) (\<lambda>name.
        bindE (scanStr drv (cs ! 3)) (\<lambda>metadata.
        bindE (scanTime drv (cs ! 4)) (\<lambda>t.
          Inr \<lparr>drID = i, drType = ty, drName = name, drMetadata = metadata, drCreated = t\<rparr>))))))"

definition scanMember :: "'st driver \<Rightarrow> sqlval list \<Rightarrow> string + DBRoomMember" where
  "scanMember drv cs =
     (if length cs \<noteq> 4 then Inl ''expected 4 destination arguments in Scan''
      else
        bindE (scanStr drv (cs ! 0)) (\<lambda>r.
        bindE (scanStr drv (cs ! 1)) (\<lambda>u.
        bindE (scanStr drv (cs ! 2)) (\<lambda>role.
        bindE (scanTime drv (cs ! 3)) (\<lambda>t.
          Inr \<lparr>mbRoomID = r, mbUserID = u, mbRole = role, mbJoinedAt = t\<rparr>)))))"

definition scanReceipt :: "'st driver \<Rightarrow> sqlval list \<Rightarrow> string + DBReadReceipt" where
  "scanReceipt drv cs =
     (if length cs \<noteq> 3 then Inl ''expected 3 destination arguments in Scan''
      else
        bindE (scanStr drv (cs ! 0)) (\<lambda>i.
        bindE (scanStr drv (cs ! 1)) (\<lambda>u.
        bindE (scanTime drv (cs ! 2)) (\<lambda>t.
          Inr \<lparr>rrMessageID = i, rrUserID = u, rrReadAt = t\<rparr>))))"

text \<open>
  The loop over \<^verbatim>\<open>rows.Next\<close>, with \<^verbatim>\<open>rows.Err\<close> at its end. A row that cannot be scanned gives an error and no
  list; an error of the driver comes with the rows before it.
\<close>

fun scanLoop :: "('r \<Rightarrow> string + 'a) \<Rightarrow> 'r list \<Rightarrow> 'a list \<Rightarrow> string option \<Rightarrow> 'a list \<times> string option" where
  "scanLoop scan [] acc err = (acc, err)"
| "scanLoop scan (r # rs) acc err =
     (case scan r of Inl e \<Rightarrow> ([], Some e) | Inr a \<Rightarrow> scanLoop scan rs (acc @ [a]) err)"

definition queryAll :: "'st driver \<Rightarrow> (sqlval list \<Rightarrow> string + 'a) \<Rightarrow> sql \<Rightarrow> sqlval list \<Rightarrow> 'st \<Rightarrow> 'a list \<times> string option" where
  "queryAll drv scan q args st =
     (case dQuery drv q args st of
        Inl e \<Rightarrow> ([], Some e)
      | Inr (rows, err) \<Rightarrow> scanLoop scan rows [] err)"

text \<open>\<^verbatim>\<open>QueryRowContext\<close> and \<^verbatim>\<open>Scan\<close>: the first row, or an error that there is none.\<close>

definition queryRow :: "'st driver \<Rightarrow> (sqlval list \<Rightarrow> string + 'a) \<Rightarrow> sql \<Rightarrow> sqlval list \<Rightarrow> 'st \<Rightarrow> string + 'a" where
  "queryRow drv scan q args st =
     (case dQuery drv q args st of
        Inl e \<Rightarrow> Inl e
      | Inr ([], None) \<Rightarrow> Inl ''sql: no rows in result set''
      | Inr ([], Some e) \<Rightarrow> Inl e
      | Inr (r # _, _) \<Rightarrow> scan r)"

section \<open>Messages\<close>

definition messageCols :: "string list" where
  "messageCols = [''id'', ''room_id'', ''sender_id'', ''content'', ''timestamp'', ''parent_message_id'', ''message_type'',
     ''file_data'', ''file_name'', ''file_size'', ''file_type'', ''media_data'', ''media_type'', ''duration'', ''latitude'', ''longitude'']"

definition pgSaveMessage :: "'st driver \<Rightarrow> DBMessage \<Rightarrow> 'st \<Rightarrow> string option \<times> 'st" where
  "pgSaveMessage drv message st =
     (case messageArgs drv message of
        Inl e \<Rightarrow> (Some e, st)
      | Inr args \<Rightarrow> dExec drv (INSERT ''messages'' messageCols None) args st)"

abbreviation tcols :: "string \<Rightarrow> string list \<Rightarrow> (string \<times> string) list" where
  "tcols t cs \<equiv> map (Pair t) cs"

definition selectRoomMessages :: sql where
  "selectRoomMessages = SELECT \<lparr>qCols = tcols ''messages'' messageCols, qFrom = ''messages'', qJoin = None,
     qWhere = [(''messages'', ''room_id'')], qOrder = Some ((''messages'', ''timestamp''), False), qPage = True\<rparr>"

definition pgGetMessages :: "'st driver \<Rightarrow> string \<Rightarrow> int \<Rightarrow> int \<Rightarrow> 'st \<Rightarrow> DBMessage list \<times> string option" where
  "pgGetMessages drv roomID limit offset st =
     queryAll drv (scanMessage drv) selectRoomMessages [Text roomID, Num limit, Num offset] st"

definition selectThread :: sql where
  "selectThread = SELECT \<lparr>qCols = tcols ''messages'' messageCols, qFrom = ''messages'', qJoin = None,
     qWhere = [(''messages'', ''parent_message_id'')], qOrder = Some ((''messages'', ''timestamp''), True), qPage = False\<rparr>"

definition pgGetThreadMessages :: "'st driver \<Rightarrow> string \<Rightarrow> 'st \<Rightarrow> DBMessage list \<times> string option" where
  "pgGetThreadMessages drv parent st = queryAll drv (scanMessage drv) selectThread [Text parent] st"

definition selectMessage :: sql where
  "selectMessage = SELECT \<lparr>qCols = tcols ''messages'' messageCols, qFrom = ''messages'', qJoin = None,
     qWhere = [(''messages'', ''id'')], qOrder = None, qPage = False\<rparr>"

definition pgGetMessage :: "'st driver \<Rightarrow> string \<Rightarrow> 'st \<Rightarrow> string + DBMessage" where
  "pgGetMessage drv messageID st = queryRow drv (scanMessage drv) selectMessage [Text messageID] st"

section \<open>Rooms\<close>

definition roomCols :: "string list" where
  "roomCols = [''id'', ''type'', ''name'', ''metadata'', ''created_at'']"

definition pgCreateRoom :: "'st driver \<Rightarrow> DBRoom \<Rightarrow> 'st \<Rightarrow> string option \<times> 'st" where
  "pgCreateRoom drv room st =
     dExec drv (INSERT ''rooms'' roomCols None)
       [Text (drID room), Text (drType room), Text (drName room), Text (drMetadata room), Time (drCreated room)] st"

definition selectRoom :: sql where
  "selectRoom = SELECT \<lparr>qCols = tcols ''rooms'' roomCols, qFrom = ''rooms'', qJoin = None,
     qWhere = [(''rooms'', ''id'')], qOrder = None, qPage = False\<rparr>"

definition pgGetRoom :: "'st driver \<Rightarrow> string \<Rightarrow> 'st \<Rightarrow> string + DBRoom" where
  "pgGetRoom drv roomID st = queryRow drv (scanRoom drv) selectRoom [Text roomID] st"

definition selectUserRooms :: sql where
  "selectUserRooms = SELECT \<lparr>qCols = tcols ''rooms'' roomCols, qFrom = ''rooms'',
     qJoin = Some (''room_members'', (''rooms'', ''id''), (''room_members'', ''room_id'')),
     qWhere = [(''room_members'', ''user_id'')], qOrder = Some ((''rooms'', ''created_at''), False), qPage = False\<rparr>"

definition pgGetUserRooms :: "'st driver \<Rightarrow> string \<Rightarrow> 'st \<Rightarrow> DBRoom list \<times> string option" where
  "pgGetUserRooms drv userID st = queryAll drv (scanRoom drv) selectUserRooms [Text userID] st"

definition pgDeleteRoom :: "'st driver \<Rightarrow> string \<Rightarrow> 'st \<Rightarrow> string option \<times> 'st" where
  "pgDeleteRoom drv roomID st = dExec drv (DELETE ''rooms'' [''id'']) [Text roomID] st"

section \<open>Members\<close>

definition memberCols :: "string list" where
  "memberCols = [''room_id'', ''user_id'', ''role'', ''joined_at'']"

definition pgAddRoomMember :: "'st driver \<Rightarrow> DBRoomMember \<Rightarrow> 'st \<Rightarrow> string option \<times> 'st" where
  "pgAddRoomMember drv member st =
     dExec drv (INSERT ''room_members'' memberCols (Some [''role'', ''joined_at'']))
       [Text (mbRoomID member), Text (mbUserID member), Text (mbRole member), Time (mbJoinedAt member)] st"

definition pgRemoveRoomMember :: "'st driver \<Rightarrow> string \<Rightarrow> string \<Rightarrow> 'st \<Rightarrow> string option \<times> 'st" where
  "pgRemoveRoomMember drv roomID userID st =
     dExec drv (DELETE ''room_members'' [''room_id'', ''user_id'']) [Text roomID, Text userID] st"

definition selectMembers :: sql where
  "selectMembers = SELECT \<lparr>qCols = tcols ''room_members'' memberCols, qFrom = ''room_members'', qJoin = None,
     qWhere = [(''room_members'', ''room_id'')], qOrder = Some ((''room_members'', ''joined_at''), True), qPage = False\<rparr>"

definition pgGetRoomMembers :: "'st driver \<Rightarrow> string \<Rightarrow> 'st \<Rightarrow> DBRoomMember list \<times> string option" where
  "pgGetRoomMembers drv roomID st = queryAll drv (scanMember drv) selectMembers [Text roomID] st"

definition existsMember :: sql where
  "existsMember = EXISTS \<lparr>qCols = [], qFrom = ''room_members'', qJoin = None,
     qWhere = tcols ''room_members'' [''room_id'', ''user_id''], qOrder = None, qPage = False\<rparr>"

definition scanExists :: "'st driver \<Rightarrow> sqlval list \<Rightarrow> string + bool" where
  "scanExists drv cs = (if length cs \<noteq> 1 then Inl ''expected 1 destination arguments in Scan'' else scanBool drv (cs ! 0))"

text \<open>On an error the variable \<^verbatim>\<open>exists\<close> is still false.\<close>

definition pgIsUserInRoom :: "'st driver \<Rightarrow> string \<Rightarrow> string \<Rightarrow> 'st \<Rightarrow> bool \<times> string option" where
  "pgIsUserInRoom drv roomID userID st =
     (case queryRow drv (scanExists drv) existsMember [Text roomID, Text userID] st of
        Inl e \<Rightarrow> (False, Some e)
      | Inr b \<Rightarrow> (b, None))"

section \<open>Read receipts\<close>

definition receiptCols :: "string list" where
  "receiptCols = [''message_id'', ''user_id'', ''read_at'']"

definition pgSaveReadReceipt :: "'st driver \<Rightarrow> DBReadReceipt \<Rightarrow> 'st \<Rightarrow> string option \<times> 'st" where
  "pgSaveReadReceipt drv receipt st =
     dExec drv (INSERT ''read_receipts'' receiptCols (Some [''read_at'']))
       [Text (rrMessageID receipt), Text (rrUserID receipt), Time (rrReadAt receipt)] st"

definition selectReceipts :: sql where
  "selectReceipts = SELECT \<lparr>qCols = tcols ''read_receipts'' receiptCols, qFrom = ''read_receipts'', qJoin = None,
     qWhere = [(''read_receipts'', ''message_id'')], qOrder = Some ((''read_receipts'', ''read_at''), True), qPage = False\<rparr>"

definition pgGetReadReceipts :: "'st driver \<Rightarrow> string \<Rightarrow> 'st \<Rightarrow> DBReadReceipt list \<times> string option" where
  "pgGetReadReceipts drv messageID st = queryAll drv (scanReceipt drv) selectReceipts [Text messageID] st"

definition selectUserReceipts :: sql where
  "selectUserReceipts = SELECT \<lparr>qCols = tcols ''read_receipts'' receiptCols, qFrom = ''read_receipts'',
     qJoin = Some (''messages'', (''read_receipts'', ''message_id''), (''messages'', ''id'')),
     qWhere = [(''read_receipts'', ''user_id''), (''messages'', ''room_id'')],
     qOrder = Some ((''read_receipts'', ''read_at''), False), qPage = False\<rparr>"

definition pgGetUserReadReceipts :: "'st driver \<Rightarrow> string \<Rightarrow> string \<Rightarrow> 'st \<Rightarrow> DBReadReceipt list \<times> string option" where
  "pgGetUserReadReceipts drv userID roomID st = queryAll drv (scanReceipt drv) selectUserReceipts [Text userID, Text roomID] st"

section \<open>The interface\<close>

text \<open>Every caller looks at the error first.\<close>

definition result :: "'a \<times> string option \<Rightarrow> string + 'a" where
  "result x = (case snd x of None \<Rightarrow> Inr (fst x) | Some e \<Rightarrow> Inl e)"

definition postgres :: "'st driver \<Rightarrow> 'st Database" where
  "postgres drv =
     \<lparr>SaveMessage = pgSaveMessage drv, GetMessages = (\<lambda>r l k st. Returned (result (pgGetMessages drv r l k st))),
      GetThreadMessages = (\<lambda>i st. result (pgGetThreadMessages drv i st)), GetMessage = pgGetMessage drv,
      CreateRoom = pgCreateRoom drv, GetRoom = pgGetRoom drv, GetUserRooms = (\<lambda>u st. result (pgGetUserRooms drv u st)),
      DeleteRoom = pgDeleteRoom drv, AddRoomMember = pgAddRoomMember drv, RemoveRoomMember = pgRemoveRoomMember drv,
      GetRoomMembers = (\<lambda>r st. result (pgGetRoomMembers drv r st)),
      IsUserInRoom = (\<lambda>r u st. result (pgIsUserInRoom drv r u st)), SaveReadReceipt = pgSaveReadReceipt drv\<rparr>"

end
