(* ===== verification/MemberStore.thy ===== *)
theory MemberStore
  imports ChatDB
begin

text \<open>
  What every database promises about rooms and members: a contract weaker than \<open>membership_db\<close>, with an invariant
  of its states and conditions on what can be stored. Any two databases that keep it answer alike.
\<close>

section \<open>The contract\<close>

locale member_store =
  fixes ops :: "'db Database"
    and inv :: "'db \<Rightarrow> bool"
    and okRoom :: "DBRoom \<Rightarrow> bool"
    and okMember :: "DBRoomMember \<Rightarrow> bool"
    and isMember :: "'db \<Rightarrow> string \<Rightarrow> string \<Rightarrow> bool"
    and hasRoom :: "'db \<Rightarrow> string \<Rightarrow> bool"
  assumes is_in: "inv d \<Longrightarrow> IsUserInRoom ops r u d = Inr (isMember d r u)"
    and get_room: "inv d \<Longrightarrow> (\<exists>room. GetRoom ops r d = Inr room) \<longleftrightarrow> hasRoom d r"
    and add_ok: "inv d \<Longrightarrow> okMember mb \<Longrightarrow> hasRoom d (mbRoomID mb) \<Longrightarrow>
      fst (AddRoomMember ops mb d) = None \<and> inv (snd (AddRoomMember ops mb d))"
    and add_member: "inv d \<Longrightarrow> okMember mb \<Longrightarrow> hasRoom d (mbRoomID mb) \<Longrightarrow>
      isMember (snd (AddRoomMember ops mb d)) r u \<longleftrightarrow> (r = mbRoomID mb \<and> u = mbUserID mb) \<or> isMember d r u"
    and add_rooms: "inv d \<Longrightarrow> okMember mb \<Longrightarrow> hasRoom d (mbRoomID mb) \<Longrightarrow>
      hasRoom (snd (AddRoomMember ops mb d)) r \<longleftrightarrow> hasRoom d r"
    and remove_ok: "inv d \<Longrightarrow> fst (RemoveRoomMember ops r u d) = None \<and> inv (snd (RemoveRoomMember ops r u d))"
    and remove_member: "inv d \<Longrightarrow> isMember (snd (RemoveRoomMember ops r u d)) r' u' \<longleftrightarrow>
      \<not> (r' = r \<and> u' = u) \<and> isMember d r' u'"
    and remove_rooms: "inv d \<Longrightarrow> hasRoom (snd (RemoveRoomMember ops r u d)) r' \<longleftrightarrow> hasRoom d r'"
    and create_ok: "inv d \<Longrightarrow> okRoom room \<Longrightarrow> \<not> hasRoom d (drID room) \<Longrightarrow>
      fst (CreateRoom ops room d) = None \<and> inv (snd (CreateRoom ops room d))"
    and create_room: "inv d \<Longrightarrow> okRoom room \<Longrightarrow> \<not> hasRoom d (drID room) \<Longrightarrow>
      hasRoom (snd (CreateRoom ops room d)) r \<longleftrightarrow> r = drID room \<or> hasRoom d r"
    and create_member: "inv d \<Longrightarrow> okRoom room \<Longrightarrow> \<not> hasRoom d (drID room) \<Longrightarrow>
      isMember (snd (CreateRoom ops room d)) r u \<longleftrightarrow> r \<noteq> drID room \<and> isMember d r u"

text \<open>The in-memory database keeps it without conditions.\<close>

sublocale membership_db \<subseteq> store: member_store ops "\<lambda>_. True" "\<lambda>_. True" "\<lambda>_. True" isMember hasRoom
  by unfold_locales
    (simp_all add: is_in get_room add_result add_member add_rooms remove_result remove_member remove_rooms create_result
      create_room, metis create_member create_new)

section \<open>Runs\<close>

datatype memberOp = CreateOp DBRoom | AddOp DBRoomMember | RemoveOp string string

text \<open>What the program sees of an operation: whether it failed.\<close>

definition applyOp :: "'db Database \<Rightarrow> memberOp \<Rightarrow> 'db \<Rightarrow> bool \<times> 'db" where
  "applyOp ops x d = (case x of
      CreateOp room \<Rightarrow> apfst (\<lambda>e. e = None) (CreateRoom ops room d)
    | AddOp mb \<Rightarrow> apfst (\<lambda>e. e = None) (AddRoomMember ops mb d)
    | RemoveOp r u \<Rightarrow> apfst (\<lambda>e. e = None) (RemoveRoomMember ops r u d))"

fun runOps :: "'db Database \<Rightarrow> memberOp list \<Rightarrow> 'db \<Rightarrow> bool list \<times> 'db" where
  "runOps ops [] d = ([], d)"
| "runOps ops (x # xs) d = (let (ok, d1) = applyOp ops x d; (oks, d2) = runOps ops xs d1 in (ok # oks, d2))"

text \<open>The abstract database: rooms, and who is in them.\<close>

type_synonym absdb = "string set \<times> (string \<times> string) set"

fun absOp :: "memberOp \<Rightarrow> absdb \<Rightarrow> absdb" where
  "absOp (CreateOp room) (R, M) = (insert (drID room) R, {m \<in> M. fst m \<noteq> drID room})"
| "absOp (AddOp mb) (R, M) = (R, insert (mbRoomID mb, mbUserID mb) M)"
| "absOp (RemoveOp r u) (R, M) = (R, M - {(r, u)})"

definition absRun :: "memberOp list \<Rightarrow> absdb \<Rightarrow> absdb" where
  "absRun xs a = fold absOp xs a"

lemma absRun_simps [simp]: "absRun [] a = a" "absRun (x # xs) a = absRun xs (absOp x a)"
  by (simp_all add: absRun_def)

text \<open>Runs that create each room once, before its members.\<close>

fun okOp :: "(DBRoom \<Rightarrow> bool) \<Rightarrow> (DBRoomMember \<Rightarrow> bool) \<Rightarrow> memberOp \<Rightarrow> absdb \<Rightarrow> bool" where
  "okOp okR okM (CreateOp room) (R, M) \<longleftrightarrow> okR room \<and> drID room \<notin> R"
| "okOp okR okM (AddOp mb) (R, M) \<longleftrightarrow> okM mb \<and> mbRoomID mb \<in> R"
| "okOp okR okM (RemoveOp r u) (R, M) \<longleftrightarrow> True"

fun okOps :: "(DBRoom \<Rightarrow> bool) \<Rightarrow> (DBRoomMember \<Rightarrow> bool) \<Rightarrow> memberOp list \<Rightarrow> absdb \<Rightarrow> bool" where
  "okOps okR okM [] a \<longleftrightarrow> True"
| "okOps okR okM (x # xs) a \<longleftrightarrow> okOp okR okM x a \<and> okOps okR okM xs (absOp x a)"

lemma okOps_mono: "okOps okR okM xs a \<Longrightarrow> okOps (\<lambda>_. True) (\<lambda>_. True) xs a"
proof (induction xs arbitrary: a)
  case (Cons x xs)
  then show ?case by (cases x; cases a) auto
qed simp

context member_store begin

definition absOf :: "'db \<Rightarrow> absdb" where
  "absOf d = ({r. hasRoom d r}, {(r, u). isMember d r u})"

lemma applyOp_refines:
  assumes "inv d" and "okOp okRoom okMember x (absOf d)"
  shows "fst (applyOp ops x d) \<and> inv (snd (applyOp ops x d)) \<and> absOf (snd (applyOp ops x d)) = absOp x (absOf d)"
proof (cases x)
  case (CreateOp room)
  then have "okRoom room" "\<not> hasRoom d (drID room)" using assms(2) by (simp_all add: absOf_def)
  then show ?thesis
    using create_ok [OF assms(1)] create_room [OF assms(1)] create_member [OF assms(1)] CreateOp by (auto simp: applyOp_def absOf_def)
next
  case (AddOp mb)
  then have "okMember mb" "hasRoom d (mbRoomID mb)" using assms(2) by (simp_all add: absOf_def)
  then show ?thesis
    using add_ok [OF assms(1)] add_rooms [OF assms(1)] add_member [OF assms(1)] AddOp by (auto simp: applyOp_def absOf_def)
next
  case (RemoveOp r u)
  then show ?thesis
    using remove_ok [OF assms(1)] remove_rooms [OF assms(1)] remove_member [OF assms(1)] by (auto simp: applyOp_def absOf_def)
qed

lemma runOps_refines:
  assumes "inv d" and "okOps okRoom okMember xs (absOf d)"
  shows "fst (runOps ops xs d) = map (\<lambda>_. True) xs \<and> inv (snd (runOps ops xs d)) \<and> absOf (snd (runOps ops xs d)) = absRun xs (absOf d)"
  using assms
proof (induction xs arbitrary: d)
  case (Cons x xs)
  note step = applyOp_refines [of d x]
  have "okOps okRoom okMember xs (absOf (snd (applyOp ops x d)))" using step Cons.prems by simp
  from Cons.IH [OF _ this] step Cons.prems show ?case
    by (auto simp: Let_def split: prod.split)
qed simp

text \<open>After a run the database answers as the abstract one.\<close>

lemma answers_after:
  assumes "inv d" and "okOps okRoom okMember xs (absOf d)"
  shows "IsUserInRoom ops r u (snd (runOps ops xs d)) = Inr ((r, u) \<in> snd (absRun xs (absOf d)))"
    and "(\<exists>room. GetRoom ops r (snd (runOps ops xs d)) = Inr room) \<longleftrightarrow> r \<in> fst (absRun xs (absOf d))"
proof -
  note run = runOps_refines [OF assms]
  from run have "absRun xs (absOf d) = absOf (snd (runOps ops xs d))" by simp
  then show "IsUserInRoom ops r u (snd (runOps ops xs d)) = Inr ((r, u) \<in> snd (absRun xs (absOf d)))"
    "(\<exists>room. GetRoom ops r (snd (runOps ops xs d)) = Inr room) \<longleftrightarrow> r \<in> fst (absRun xs (absOf d))"
    using run by (simp_all add: is_in get_room absOf_def)
qed

end

end
