(* ===== verification/PgLaws.thy ===== *)
theory PgLaws
  imports PgDB MemberStore
begin

text \<open>
  What \<open>PostgreSQLDB\<close> promises over a driver that does what SQL says: the invariant of its tables, the contract of
  rooms and members, messages read back as they were saved, histories newest first.
\<close>

section \<open>The invariant\<close>

definition pgTables :: "(string \<times> tabledef) list" where
  "pgTables = [(''rooms'', roomsTable), (''messages'', messagesTable), (''room_members'', room_membersTable),
     (''read_receipts'', read_receiptsTable)]"

text \<open>Columns the schema would let be null, but which the program always fills and cannot read back as null.\<close>

definition neverNull :: "(string \<times> string) list" where
  "neverNull = [(''rooms'', ''metadata''), (''rooms'', ''created_at''), (''messages'', ''timestamp''),
     (''messages'', ''message_type''), (''room_members'', ''role''), (''room_members'', ''joined_at''),
     (''read_receipts'', ''read_at'')]"

definition filled :: "tables \<Rightarrow> bool" where
  "filled ts \<longleftrightarrow> (\<forall>(t, c) \<in> set neverNull. \<forall>r \<in> set (rowsOf ts t). cell r c \<noteq> Null)"

definition pgInv :: "tables \<Rightarrow> bool" where
  "pgInv ts \<longleftrightarrow> defs ts = pgTables \<and> constraints ts \<and> filled ts"

lemmas table_defs = roomsTable_def messagesTable_def room_membersTable_def read_receiptsTable_def

lemma m_keys_defs: "m_keys ts = map fst (defs ts)"
  by (induction ts) (auto simp: defs_def)

lemma map_of_defs: "map_of (defs ts) t = map_option fst (map_of ts t)"
  by (induction ts) (auto simp: defs_def)

lemma defs_put: "map_of ts t = Some (d, rs) \<Longrightarrow> defs (m_put t (d, rs') ts) = defs ts"
  by (induction ts) (auto simp: defs_def)

lemma pg_wf: "defs ts = pgTables \<Longrightarrow> m_wf ts"
  by (simp add: m_wf_def m_keys_defs pgTables_def)

lemma pg_table:
  assumes "defs ts = pgTables" and "map_of pgTables t = Some d"
  shows "map_of ts t = Some (d, rowsOf ts t)"
  using assms map_of_defs [of ts t] by (cases "map_of ts t") (auto simp: rowsOf_def)

lemma pg_names [simp]:
  "map_of pgTables ''rooms'' = Some roomsTable" "map_of pgTables ''messages'' = Some messagesTable"
  "map_of pgTables ''room_members'' = Some room_membersTable" "map_of pgTables ''read_receipts'' = Some read_receiptsTable"
  by (simp_all add: pgTables_def)

lemma pg_only:
  assumes "defs ts = pgTables" and "map_of ts t = Some (d, rs)"
  shows "(t, d) \<in> set pgTables"
  using assms map_of_defs [of ts t] by (auto dest: map_of_SomeD)

text \<open>What the constraints say of each table.\<close>

lemma refs_simps [simp]:
  "refs_ok ts roomsTable r"
  "refs_ok ts messagesTable r \<longleftrightarrow> (cell r ''room_id'' = Null \<or> present ts ''rooms'' ''id'' (cell r ''room_id'')) \<and>
     (cell r ''parent_message_id'' = Null \<or> present ts ''messages'' ''id'' (cell r ''parent_message_id''))"
  "refs_ok ts room_membersTable r \<longleftrightarrow> cell r ''room_id'' = Null \<or> present ts ''rooms'' ''id'' (cell r ''room_id'')"
  "refs_ok ts read_receiptsTable r \<longleftrightarrow> cell r ''message_id'' = Null \<or> present ts ''messages'' ''id'' (cell r ''message_id'')"
  by (simp_all add: refs_ok_def table_defs)

lemma key_simps [simp]:
  "keyOf roomsTable r = [cell r ''id'']" "keyOf messagesTable r = [cell r ''id'']"
  "keyOf room_membersTable r = [cell r ''room_id'', cell r ''user_id'']"
  "keyOf read_receiptsTable r = [cell r ''message_id'', cell r ''user_id'']"
  by (simp_all add: keyOf_def table_defs)

lemma filled_iff: "filled ts \<longleftrightarrow>
   (\<forall>r \<in> set (rowsOf ts ''rooms''). cell r ''metadata'' \<noteq> Null \<and> cell r ''created_at'' \<noteq> Null) \<and>
   (\<forall>r \<in> set (rowsOf ts ''messages''). cell r ''timestamp'' \<noteq> Null \<and> cell r ''message_type'' \<noteq> Null) \<and>
   (\<forall>r \<in> set (rowsOf ts ''room_members''). cell r ''role'' \<noteq> Null \<and> cell r ''joined_at'' \<noteq> Null) \<and>
   (\<forall>r \<in> set (rowsOf ts ''read_receipts''). cell r ''read_at'' \<noteq> Null)"
  by (auto simp: filled_def neverNull_def)

lemma pg_rows:
  assumes "pgInv ts" and "map_of pgTables t = Some d" and "r \<in> set (rowsOf ts t)"
  shows "row_ok d r" and "refs_ok ts d r"
  using assms pg_table [of ts t d] constraints_iff [OF pg_wf, of ts] by (auto simp: pgInv_def)

lemma pg_keys:
  assumes "pgInv ts" and "map_of pgTables t = Some d"
  shows "distinct (map (keyOf d) (rowsOf ts t))"
  using assms pg_table [of ts t d] constraints_iff [OF pg_wf, of ts] by (auto simp: pgInv_def)

section \<open>Opening a database\<close>

definition emptyTables :: tables where
  "emptyTables = map (\<lambda>(t, d). (t, d, [])) pgTables"

lemma pgInv_empty: "pgInv emptyTables"
  by (simp add: pgInv_def emptyTables_def pgTables_def defs_def constraints_def filled_def neverNull_def rowsOf_def)

lemma obeys_exec:
  assumes "obeys drv D view"
  shows "run D q args (view st) = Inr ts \<Longrightarrow> dExec drv q args st = (None, st') \<Longrightarrow> view st' = ts"
    and "run D q args (view st) = Inr ts \<Longrightarrow> fst (dExec drv q args st) = None \<and> view (snd (dExec drv q args st)) = ts"
    and "run D q args (view st) = Inl e \<Longrightarrow> fst (dExec drv q args st) \<noteq> None \<and> view (snd (dExec drv q args st)) = view st"
  using assms by (auto simp: obeys_def split: sum.splits) (metis (no_types, lifting) snd_conv sum.case(2))+

lemma initSchemaLoop_runs:
  assumes ob: "obeys drv D view"
  shows "fold (\<lambda>q t. bindE t (run D q [])) qs (Inr (view st)) = Inr ts \<Longrightarrow>
    fst (initSchemaLoop drv qs st) = None \<and> view (snd (initSchemaLoop drv qs st)) = ts"
proof (induction qs arbitrary: st)
  case (Cons q qs)
  show ?case
  proof (cases "run D q [] (view st)")
    case (Inl e)
    have "fold (\<lambda>q t. bindE t (run D q [])) qs (Inl e) = Inl e" by (induction qs) simp_all
    then show ?thesis using Cons.prems Inl by simp
  next
    case (Inr t)
    from obeys_exec(2) [OF ob Inr] obtain st' where st': "dExec drv q [] st = (None, st')" "view st' = t"
      by (cases "dExec drv q [] st") auto
    then show ?thesis using Cons Inr by simp
  qed
qed simp

lemma schema_fresh: "fold (\<lambda>q t. bindE t (run D q [])) schemaQueries (Inr []) = Inr emptyTables"
  by (simp add: schemaQueries_def run_def emptyTables_def pgTables_def m_has_def)

lemma schema_again:
  assumes "defs ts = pgTables"
  shows "fold (\<lambda>q t. bindE t (run D q [])) schemaQueries (Inr ts) = Inr ts"
  using pg_table [OF assms, of "''rooms''"] pg_table [OF assms, of "''messages''"] pg_table [OF assms, of "''room_members''"]
    pg_table [OF assms, of "''read_receipts''"]
  by (simp add: schemaQueries_def run_def m_has_def)

text \<open>
  Opening a database, new or with the tables of an earlier run: the schema is there afterwards, the rows of the
  earlier run are kept, and the invariant of the tables holds. If opening, pinging or a statement of the schema fails, the
  caller gets an error and no database.
\<close>

theorem NewPostgreSQLDB_ready:
  assumes "obeys drv D view" and "view st = [] \<or> pgInv (view st)"
  shows "(opened cs = None \<and> pinged = None \<longrightarrow>
      (\<exists>st'. NewPostgreSQLDB opened pinged drv cs st = (Inr drv, st') \<and> pgInv (view st') \<and>
         (view st = [] \<longrightarrow> view st' = emptyTables) \<and> (view st \<noteq> [] \<longrightarrow> view st' = view st))) \<and>
    (opened cs \<noteq> None \<or> pinged \<noteq> None \<or> fst (initSchema drv' st) \<noteq> None \<longrightarrow>
      (\<exists>e st'. NewPostgreSQLDB opened pinged drv' cs st = (Inl e, st')))"
proof (intro conjI impI)
  assume "opened cs = None \<and> pinged = None"
  moreover have "\<exists>ts. fold (\<lambda>q t. bindE t (run D q [])) schemaQueries (Inr (view st)) = Inr ts \<and> pgInv ts \<and>
      (view st = [] \<longrightarrow> ts = emptyTables) \<and> (view st \<noteq> [] \<longrightarrow> ts = view st)"
    using assms(2) schema_fresh [of D] schema_again [of "view st" D] pgInv_empty by (auto simp: pgInv_def)
  then obtain ts where "fold (\<lambda>q t. bindE t (run D q [])) schemaQueries (Inr (view st)) = Inr ts" and ts: "pgInv ts"
      "view st = [] \<longrightarrow> ts = emptyTables" "view st \<noteq> [] \<longrightarrow> ts = view st"
    by blast
  from initSchemaLoop_runs [OF assms(1) this(1)] ts
  have "fst (initSchema drv st) = None" "view (snd (initSchema drv st)) = ts" by (simp_all add: initSchema_def)
  ultimately show "\<exists>st'. NewPostgreSQLDB opened pinged drv cs st = (Inr drv, st') \<and> pgInv (view st') \<and>
      (view st = [] \<longrightarrow> view st' = emptyTables) \<and> (view st \<noteq> [] \<longrightarrow> view st' = view st)"
    using ts by (auto simp: NewPostgreSQLDB_def split: prod.split option.split)
next
  assume "opened cs \<noteq> None \<or> pinged \<noteq> None \<or> fst (initSchema drv' st) \<noteq> None"
  then show "\<exists>e st'. NewPostgreSQLDB opened pinged drv' cs st = (Inl e, st')"
    by (auto simp: NewPostgreSQLDB_def split: prod.split option.split)
qed

section \<open>Inserting and deleting\<close>

lemma run_insert:
  assumes inv: "pgInv ts" and t: "map_of pgTables t = Some d"
    and args: "length args = length cs" "set cs \<subseteq> set (map colName (tdCols d))"
    and new: "upd = None \<or> keyOf d r \<notin> set (map (keyOf d) (rowsOf ts t))" and r: "r = mkRow D d cs args"
  shows "run D (INSERT t cs upd) args ts =
    (if row_ok d r \<and> refs_ok (m_put t (d, rowsOf ts t @ [r]) ts) d r \<and> keyOf d r \<notin> set (map (keyOf d) (rowsOf ts t))
     then Inr (m_put t (d, rowsOf ts t @ [r]) ts) else Inl ''violates constraint'')"
proof -
  have tb: "map_of ts t = Some (d, rowsOf ts t)" using inv t by (simp add: pgInv_def pg_table)
  have c: "constraints (m_put t (d, rowsOf ts t @ [r]) ts) \<longleftrightarrow>
      row_ok d r \<and> refs_ok (m_put t (d, rowsOf ts t @ [r]) ts) d r \<and> keyOf d r \<notin> set (map (keyOf d) (rowsOf ts t))"
    using inv tb by (intro constraints_append) (simp_all add: pgInv_def pg_wf)
  have "run D (INSERT t cs upd) args ts = checked (m_put t (d, rowsOf ts t @ [r]) ts)"
    using args new by (auto simp: run_def tb insertRow_def r split: option.split)
  then show ?thesis unfolding checked_def c by simp
qed

lemma pgInv_put:
  assumes inv: "pgInv ts" and t: "map_of pgTables t = Some d" and c: "constraints (m_put t (d, rs) ts)"
    and full: "\<And>c r. (t, c) \<in> set neverNull \<Longrightarrow> r \<in> set rs \<Longrightarrow> cell r c \<noteq> Null"
  shows "pgInv (m_put t (d, rs) ts)"
proof -
  have tb: "map_of ts t = Some (d, rowsOf ts t)" using inv t by (simp add: pgInv_def pg_table)
  have "filled (m_put t (d, rs) ts)" using inv full by (auto simp: filled_def pgInv_def split: if_splits)
  then show ?thesis using inv c by (simp add: pgInv_def defs_put [OF tb])
qed

lemma pgInv_append:
  assumes inv: "pgInv ts" and t: "map_of pgTables t = Some d"
    and ok: "row_ok d r" "refs_ok (m_put t (d, rowsOf ts t @ [r]) ts) d r" "keyOf d r \<notin> set (map (keyOf d) (rowsOf ts t))"
    and full: "\<And>c. (t, c) \<in> set neverNull \<Longrightarrow> cell r c \<noteq> Null"
  shows "pgInv (m_put t (d, rowsOf ts t @ [r]) ts)"
proof -
  have tb: "map_of ts t = Some (d, rowsOf ts t)" using inv t by (simp add: pgInv_def pg_table)
  have "constraints (m_put t (d, rowsOf ts t @ [r]) ts)"
    using constraints_append [OF pg_wf _ tb, of r] inv ok by (simp add: pgInv_def)
  then show ?thesis
    by (rule pgInv_put [OF inv t]) (use inv full in \<open>auto simp: pgInv_def filled_def\<close>)
qed

text \<open>Deleting rows, and what refers to them.\<close>

lemma run_delete:
  assumes inv: "pgInv ts" and t: "map_of pgTables t = Some d"
  shows "run D (DELETE t cs) args ts = Inr (purge (m_put t (d, filter (\<lambda>r. \<not> matches cs args r) (rowsOf ts t)) ts))"
proof -
  have tb: "map_of ts t = Some (d, rowsOf ts t)" using inv t by (simp add: pgInv_def pg_table)
  then show ?thesis by (simp add: run_def)
qed

lemma pgInv_delete:
  assumes inv: "pgInv ts" and t: "map_of pgTables t = Some d"
  shows "pgInv (purge (m_put t (d, filter P (rowsOf ts t)) ts))"
proof -
  let ?us = "m_put t (d, filter P (rowsOf ts t)) ts"
  have tb: "map_of ts t = Some (d, rowsOf ts t)" using inv t by (simp add: pgInv_def pg_table)
  have ds: "defs ?us = pgTables" using inv by (simp add: pgInv_def defs_put [OF tb])
  have "sound_rows ?us"
  proof -
    have "(\<forall>r \<in> set rs. row_ok d' r) \<and> distinct (map (keyOf d') rs)" if "map_of ?us t' = Some (d', rs)" for t' d' rs
    proof -
      have "map_of pgTables t' = Some d'" using map_of_defs [of ?us t'] ds that by simp
      from pg_rows [OF inv this] pg_keys [OF inv this] that t inv show ?thesis
        by (auto simp: gomap_simps pgInv_def rowsOf_def distinct_map_filter split: if_splits)
    qed
    then show ?thesis
      using pg_wf [OF ds] by (fastforce simp: sound_rows_def m_wf_def)
  qed
  then have "constraints (purge ?us)" by (rule constraints_purge)
  moreover have "filled (purge ?us)"
  proof -
    have "set (rowsOf (purge ?us) t') \<subseteq> set (rowsOf ts t')" for t'
    proof (cases "map_of ?us t'")
      case None
      then have "map_of (purge ?us) t' = None" using map_of_defs [of "purge ?us" t'] map_of_defs [of ?us t'] by simp
      then show ?thesis by (simp add: rowsOf_def)
    next
      case (Some x)
      then obtain d' rs where x: "map_of ?us t' = Some (d', rs)" by (cases x) simp
      then obtain P' where "map_of (purge ?us) t' = Some (d', filter P' rs)" using purge_subset [OF x] by auto
      moreover have "set rs \<subseteq> set (rowsOf ts t')" using x by (auto simp: gomap_simps rowsOf_def split: if_splits)
      ultimately show ?thesis by (auto simp: rowsOf_def)
    qed
    then show ?thesis using inv unfolding filled_def pgInv_def by blast
  qed
  ultimately show ?thesis using ds by (simp add: pgInv_def)
qed

section \<open>Rooms and members\<close>

definition pgHasRoom :: "tables \<Rightarrow> string \<Rightarrow> bool" where
  "pgHasRoom ts r \<longleftrightarrow> present ts ''rooms'' ''id'' (Text r)"

definition pgIsMember :: "tables \<Rightarrow> string \<Rightarrow> string \<Rightarrow> bool" where
  "pgIsMember ts r u \<longleftrightarrow> (\<exists>x \<in> set (rowsOf ts ''room_members''). cell x ''room_id'' = Text r \<and> cell x ''user_id'' = Text u)"

definition okRoomRow :: "dialect \<Rightarrow> DBRoom \<Rightarrow> bool" where
  "okRoomRow D room \<longleftrightarrow> length (drID room) \<le> 255 \<and> length (drType room) \<le> 50 \<and> length (drName room) \<le> 255 \<and>
     keepJson D (drMetadata room) \<noteq> None"

definition okMemberRow :: "DBRoomMember \<Rightarrow> bool" where
  "okMemberRow mb \<longleftrightarrow> length (mbRoomID mb) \<le> 255 \<and> length (mbUserID mb) \<le> 255 \<and> length (mbRole mb) \<le> 50"

lemma pg_member_room:
  assumes "pgInv ts" and "pgIsMember ts r u"
  shows "pgHasRoom ts r"
proof -
  obtain x where x: "x \<in> set (rowsOf ts ''room_members'')" "cell x ''room_id'' = Text r"
    using assms(2) by (auto simp: pgIsMember_def)
  from pg_rows(2) [OF assms(1) pg_names(3) x(1)] x(2) show ?thesis by (simp add: pgHasRoom_def)
qed

definition roomArgs :: "DBRoom \<Rightarrow> sqlval list" where
  "roomArgs room = [Text (drID room), Text (drType room), Text (drName room), Text (drMetadata room), Time (drCreated room)]"

definition roomRow :: "dialect \<Rightarrow> DBRoom \<Rightarrow> row" where
  "roomRow D room = [(''id'', Text (drID room)), (''type'', Text (drType room)), (''name'', Text (drName room)),
     (''metadata'', stored D JSONB (Text (drMetadata room))), (''created_at'', Time (keepTime D (drCreated room)))]"

lemma mkRow_room: "mkRow D roomsTable roomCols (roomArgs room) = roomRow D room"
  by (simp add: mkRow_def roomsTable_def roomCols_def roomArgs_def roomRow_def stored_def)

lemma stored_json [simp]:
  "stored D JSONB (Text s) \<noteq> Null" "fits JSONB (stored D JSONB (Text s)) \<longleftrightarrow> keepJson D s \<noteq> None"
  by (auto simp: stored_def fits_def split: option.split)

lemma row_ok_room: "row_ok roomsTable (roomRow D room) \<longleftrightarrow> okRoomRow D room"
proof -
  have "fits (VARCHAR n) (Text s) \<longleftrightarrow> length s \<le> n" "fits TIMESTAMP (Time t)" for n s t by (simp_all add: fits_def)
  then show ?thesis by (simp add: row_ok_def roomsTable_def roomRow_def okRoomRow_def)
qed

lemma roomRow_cells [simp]:
  "cell (roomRow D room) ''id'' = Text (drID room)" "cell (roomRow D room) ''type'' = Text (drType room)"
  "cell (roomRow D room) ''name'' = Text (drName room)" "cell (roomRow D room) ''metadata'' = stored D JSONB (Text (drMetadata room))"
  "cell (roomRow D room) ''created_at'' = Time (keepTime D (drCreated room))"
  by (simp_all add: roomRow_def)

text \<open>Creating a room works exactly if its row fits and its id is new; the table of rooms is all that changes.\<close>

lemma run_create:
  assumes "pgInv ts"
  shows "run D (INSERT ''rooms'' roomCols None) (roomArgs room) ts =
    (if okRoomRow D room \<and> \<not> pgHasRoom ts (drID room)
     then Inr (m_put ''rooms'' (roomsTable, rowsOf ts ''rooms'' @ [roomRow D room]) ts) else Inl ''violates constraint'')"
proof -
  have "[Text (drID room)] \<notin> set (map (keyOf roomsTable) (rowsOf ts ''rooms'')) \<longleftrightarrow> \<not> pgHasRoom ts (drID room)"
    by (force simp: pgHasRoom_def present_def)
  moreover have "length (roomArgs room) = length roomCols" "set roomCols \<subseteq> set (map colName (tdCols roomsTable))"
    by (simp_all add: roomArgs_def roomCols_def roomsTable_def)
  ultimately show ?thesis
    using run_insert [of ts "''rooms''" roomsTable "roomArgs room" roomCols None "roomRow D room" D, OF assms pg_names(1) _ _ _
      mkRow_room [symmetric]] by (simp add: row_ok_room)
qed

lemma pgInv_create:
  assumes "pgInv ts" and "okRoomRow D room" and "\<not> pgHasRoom ts (drID room)"
  shows "pgInv (m_put ''rooms'' (roomsTable, rowsOf ts ''rooms'' @ [roomRow D room]) ts)"
  using assms by (intro pgInv_append) (auto simp: row_ok_room pgHasRoom_def present_def neverNull_def)

text \<open>Adding a member works exactly if its row fits and the room exists; a member that is there already is updated.\<close>

definition memberArgs :: "DBRoomMember \<Rightarrow> sqlval list" where
  "memberArgs mb = [Text (mbRoomID mb), Text (mbUserID mb), Text (mbRole mb), Time (mbJoinedAt mb)]"

definition memberRow :: "dialect \<Rightarrow> DBRoomMember \<Rightarrow> row" where
  "memberRow D mb = [(''room_id'', Text (mbRoomID mb)), (''user_id'', Text (mbUserID mb)), (''role'', Text (mbRole mb)),
     (''joined_at'', Time (keepTime D (mbJoinedAt mb)))]"

lemma mkRow_member: "mkRow D room_membersTable memberCols (memberArgs mb) = memberRow D mb"
  by (simp add: mkRow_def room_membersTable_def memberCols_def memberArgs_def memberRow_def stored_def)

lemma row_ok_member: "row_ok room_membersTable (memberRow D mb) \<longleftrightarrow> okMemberRow mb"
  by (simp add: row_ok_def room_membersTable_def memberRow_def okMemberRow_def fits_def)

lemma memberRow_cells [simp]:
  "cell (memberRow D mb) ''room_id'' = Text (mbRoomID mb)" "cell (memberRow D mb) ''user_id'' = Text (mbUserID mb)"
  "cell (memberRow D mb) ''role'' = Text (mbRole mb)" "cell (memberRow D mb) ''joined_at'' = Time (keepTime D (mbJoinedAt mb))"
  by (simp_all add: memberRow_def)

definition updMember :: "row \<Rightarrow> row list \<Rightarrow> row list" where
  "updMember r rs = map (\<lambda>r'. if keyOf room_membersTable r' = keyOf room_membersTable r
     then setCells r [''role'', ''joined_at''] r' else r') rs"

lemma member_columns:
  assumes "row_ok room_membersTable r" and "c \<in> {''role'', ''joined_at''}"
  shows "map_of r c \<noteq> None"
proof -
  have "fst ` set r = set (map colName (tdCols room_membersTable))"
    using assms(1) by (simp add: row_ok_def flip: set_map)
  then show ?thesis using assms(2) by (auto simp: map_of_eq_None_iff room_membersTable_def)
qed

lemma row_ok_updMember:
  assumes "row_ok room_membersTable r'" and "okMemberRow mb"
  shows "row_ok room_membersTable (setCells (memberRow D mb) [''role'', ''joined_at''] r')"
  using assms member_columns [OF assms(1)]
  by (simp add: row_ok_def room_membersTable_def cell_setCells okMemberRow_def fits_def)

lemma constraints_updMember:
  assumes inv: "pgInv ts" and mb: "okMemberRow mb"
  shows "constraints (m_put ''room_members'' (room_membersTable, updMember (memberRow D mb) (rowsOf ts ''room_members'')) ts)"
  unfolding updMember_def
proof (rule constraints_update [where us = "[''role'', ''joined_at'']"])
  show "m_wf ts" "constraints ts" "map_of ts ''room_members'' = Some (room_membersTable, rowsOf ts ''room_members'')"
    using inv pg_table [of ts "''room_members''"] by (simp_all add: pgInv_def pg_wf)
  fix t' d' rs' c k
  assume "map_of ts t' = Some (d', rs')" and c: "c \<in> set (tdCols d')" "colRef c = Some (''room_members'', k)"
  then have "(t', d') \<in> set pgTables" using inv by (auto simp: pgInv_def dest: pg_only)
  then show "k \<notin> set [''role'', ''joined_at'']" using c by (auto simp: pgTables_def table_defs)
qed (use pg_rows(1) [OF inv pg_names(3)] row_ok_updMember [OF _ mb] in \<open>auto simp: cell_setCells room_membersTable_def\<close>)

lemma run_add:
  assumes inv: "pgInv ts" and mb: "okMemberRow mb" and room: "pgHasRoom ts (mbRoomID mb)"
  shows "\<exists>rs. run D (INSERT ''room_members'' memberCols (Some [''role'', ''joined_at''])) (memberArgs mb) ts =
      Inr (m_put ''room_members'' (room_membersTable, rs) ts) \<and> pgInv (m_put ''room_members'' (room_membersTable, rs) ts) \<and>
    (\<forall>r u. (\<exists>x \<in> set rs. cell x ''room_id'' = Text r \<and> cell x ''user_id'' = Text u) \<longleftrightarrow>
       (r = mbRoomID mb \<and> u = mbUserID mb) \<or> pgIsMember ts r u)"
proof -
  let ?t = "''room_members''" and ?r = "memberRow D mb"
  let ?rs = "rowsOf ts ?t"
  have tb: "map_of ts ?t = Some (room_membersTable, ?rs)" using inv pg_table [of ts ?t] by (simp add: pgInv_def)
  have args: "length (memberArgs mb) = length memberCols" "set memberCols \<subseteq> set (map colName (tdCols room_membersTable))"
    by (simp_all add: memberArgs_def memberCols_def room_membersTable_def)
  show ?thesis
  proof (cases "keyOf room_membersTable ?r \<in> set (map (keyOf room_membersTable) ?rs)")
    case True
    let ?us = "updMember ?r ?rs"
    note c = constraints_updMember [OF inv mb, of D]
    have cells: "cell (if k then setCells ?r [''role'', ''joined_at''] x else x) ''room_id'' = cell x ''room_id''"
      "cell (if k then setCells ?r [''role'', ''joined_at''] x else x) ''user_id'' = cell x ''user_id''" for k x
      by (simp_all add: cell_setCells)
    have "run D (INSERT ?t memberCols (Some [''role'', ''joined_at''])) (memberArgs mb) ts =
        checked (m_put ?t (room_membersTable, ?us) ts)"
      using args True by (simp add: run_def tb insertRow_def mkRow_member updMember_def del: key_simps)
    then have "run D (INSERT ?t memberCols (Some [''role'', ''joined_at''])) (memberArgs mb) ts =
        Inr (m_put ?t (room_membersTable, ?us) ts)" using c by (simp add: checked_def)
    moreover have "pgInv (m_put ?t (room_membersTable, ?us) ts)"
    proof (rule pgInv_put [OF inv pg_names(3) c])
      fix c r
      assume "(?t, c) \<in> set neverNull" "r \<in> set ?us"
      then show "cell r c \<noteq> Null"
        using inv member_columns [OF pg_rows(1) [OF inv pg_names(3)]]
        by (auto simp: updMember_def cell_setCells neverNull_def pgInv_def filled_iff)
    qed
    moreover have "(\<exists>x \<in> set ?us. cell x ''room_id'' = Text r \<and> cell x ''user_id'' = Text u) \<longleftrightarrow> pgIsMember ts r u" for r u
      by (simp only: updMember_def pgIsMember_def set_map bex_simps cells)
    moreover have "pgIsMember ts (mbRoomID mb) (mbUserID mb)" using True by (auto simp: pgIsMember_def)
    ultimately show ?thesis by (intro exI [of _ ?us]) blast
  next
    case False
    have ok: "row_ok room_membersTable ?r" "refs_ok (m_put ?t (room_membersTable, ?rs @ [?r]) ts) room_membersTable ?r"
      using mb room by (simp_all add: row_ok_member pgHasRoom_def present_put)
    have "run D (INSERT ?t memberCols (Some [''role'', ''joined_at''])) (memberArgs mb) ts =
        Inr (m_put ?t (room_membersTable, ?rs @ [?r]) ts)"
      using run_insert [OF inv pg_names(3) args _ mkRow_member [symmetric], of "Some [''role'', ''joined_at'']" D] ok False by simp
    moreover have "pgInv (m_put ?t (room_membersTable, ?rs @ [?r]) ts)"
      using ok False by (intro pgInv_append [OF inv pg_names(3)]) (auto simp: neverNull_def)
    ultimately show ?thesis by (intro exI [of _ "?rs @ [?r]"]) (auto simp: pgIsMember_def)
  qed
qed

text \<open>Removing a member touches the table of members only, to which nothing refers.\<close>

lemma run_remove:
  assumes inv: "pgInv ts"
  shows "\<exists>rs. run D (DELETE ''room_members'' [''room_id'', ''user_id'']) [Text r, Text u] ts =
      Inr (m_put ''room_members'' (room_membersTable, rs) ts) \<and> pgInv (m_put ''room_members'' (room_membersTable, rs) ts) \<and>
    (\<forall>r' u'. (\<exists>x \<in> set rs. cell x ''room_id'' = Text r' \<and> cell x ''user_id'' = Text u') \<longleftrightarrow>
       \<not> (r' = r \<and> u' = u) \<and> pgIsMember ts r' u')"
proof -
  let ?rs = "filter (\<lambda>x. \<not> matches [''room_id'', ''user_id''] [Text r, Text u] x) (rowsOf ts ''room_members'')"
  let ?us = "m_put ''room_members'' (room_membersTable, ?rs) ts"
  have tb: "map_of ts ''room_members'' = Some (room_membersTable, rowsOf ts ''room_members'')"
    using inv pg_table [of ts "''room_members''"] by (simp add: pgInv_def)
  have ds: "defs ?us = pgTables" using inv by (simp add: pgInv_def defs_put [OF tb])
  have "refs_ok ?us d x" if "(t, d, rs) \<in> set ?us" "x \<in> set rs" for t d rs x
  proof -
    have mo: "map_of ?us t = Some (d, rs)" using that(1) pg_wf [OF ds] by (simp add: m_wf_def)
    then have d: "(t, d) \<in> set pgTables" using pg_only ds by blast
    have "map_of pgTables t = Some d" using mo map_of_defs [of ?us t] ds by simp
    moreover have "x \<in> set (rowsOf ts t)" using mo that(2) by (auto simp: gomap_simps rowsOf_def split: if_splits)
    ultimately have "refs_ok ts d x" by (rule pg_rows(2) [OF inv])
    then show ?thesis using d by (auto simp: pgTables_def present_put)
  qed
  then have "refs_met ?us ?us" by (auto simp: refs_met_def)
  then have "purge ?us = ?us" by (rule purge_id)
  then have "run D (DELETE ''room_members'' [''room_id'', ''user_id'']) [Text r, Text u] ts = Inr ?us" "pgInv ?us"
    using run_delete [OF inv pg_names(3), of D "[''room_id'', ''user_id'']" "[Text r, Text u]"]
      pgInv_delete [OF inv pg_names(3), of "\<lambda>x. \<not> matches [''room_id'', ''user_id''] [Text r, Text u] x"] by simp_all
  then show ?thesis by (intro exI [of _ ?rs]) (auto simp: matches_def pgIsMember_def)
qed

section \<open>Questions\<close>

lemma obeys_query:
  assumes "obeys drv D view"
  shows "\<not> refused q args (view st) \<Longrightarrow> \<exists>rows. dQuery drv (SELECT q) args st = Inr (rows, None) \<and> answers q args (view st) rows"
    and "\<not> refused q args (view st) \<Longrightarrow> dQuery drv (EXISTS q) args st = Inr ([[Flag (chosen q args (view st) \<noteq> [])]], None)"
    and "refused q args (view st) \<Longrightarrow> \<exists>e. dQuery drv (SELECT q) args st = Inl e"
  using assms unfolding obeys_def by (meson, metis, meson)

lemma pg_has: "pgInv ts \<Longrightarrow> map_of pgTables t = Some d \<Longrightarrow> m_has ts t"
  using pg_table [of ts t d] by (simp add: pgInv_def m_has_def)

text \<open>Scanning what the schema lets a column hold.\<close>

definition textIn :: "sqlval \<Rightarrow> string" where
  "textIn v = (case v of Text s \<Rightarrow> s | _ \<Rightarrow> '''')"

lemma scan_Text [simp]: "scanStr drv (Text s) = Inr s" "scanTime drv (Time t) = Inr t" "scanInt drv (Num i) = Inr i"
  "scanBool drv (Flag b) = Inr b"
  by (simp_all add: scanStr_def scanTime_def scanInt_def scanBool_def scanVal_def)

lemma fits_kind:
  "fits (VARCHAR n) v \<Longrightarrow> v \<noteq> Null \<Longrightarrow> \<exists>s. v = Text s" "fits TEXT v \<Longrightarrow> v \<noteq> Null \<Longrightarrow> \<exists>s. v = Text s"
  "fits JSONB v \<Longrightarrow> v \<noteq> Null \<Longrightarrow> \<exists>s. v = Text s" "fits TIMESTAMP v \<Longrightarrow> v \<noteq> Null \<Longrightarrow> \<exists>t. v = Time t"
  "fits BIGINT v \<Longrightarrow> v \<noteq> Null \<Longrightarrow> \<exists>i. v = Num i" "fits INTEGER v \<Longrightarrow> v \<noteq> Null \<Longrightarrow> \<exists>i. v = Num i"
  by (auto simp: fits_def split: sqlval.splits)

lemma scan_room_row:
  assumes "pgInv ts" and "r \<in> set (rowsOf ts ''rooms'')"
  shows "\<exists>room. scanRoom drv (map (cell r) roomCols) = Inr room"
proof -
  have "row_ok roomsTable r" by (rule pg_rows(1) [OF assms(1) pg_names(1) assms(2)])
  then have c: "fits (VARCHAR 255) (cell r ''id'')" "fits (VARCHAR 50) (cell r ''type'')" "fits (VARCHAR 255) (cell r ''name'')"
    "fits JSONB (cell r ''metadata'')" "fits TIMESTAMP (cell r ''created_at'')"
    and n: "cell r ''id'' \<noteq> Null" "cell r ''type'' \<noteq> Null" "cell r ''name'' \<noteq> Null"
    by (simp_all add: row_ok_def roomsTable_def)
  moreover have "cell r ''metadata'' \<noteq> Null" "cell r ''created_at'' \<noteq> Null"
    using assms by (auto simp: pgInv_def filled_iff)
  ultimately obtain i ty nm md t where "cell r ''id'' = Text i" "cell r ''type'' = Text ty" "cell r ''name'' = Text nm"
    "cell r ''metadata'' = Text md" "cell r ''created_at'' = Time t"
    using fits_kind by metis
  then show ?thesis by (simp add: scanRoom_def roomCols_def)
qed

text \<open>A query of one table with equations between columns and parameters.\<close>

lemma answers_rows:
  assumes "answers q args ts rows" and "qJoin q = None" and "qPage q = False"
    and "qWhere q = tcols (qFrom q) cs" and "qCols q = tcols (qFrom q) ds"
  shows "\<exists>rs. mset rs = mset (filter (matches cs args) (rowsOf ts (qFrom q))) \<and> rows = map (\<lambda>r. map (cell r) ds) rs"
proof -
  have look: "(\<lambda>e. map (look e) (qCols q)) (envOf (qFrom q) r) = map (cell r) ds" for r
    using assms(5) by simp
  have "chosen q args ts = map (envOf (qFrom q)) (filter (matches cs args) (rowsOf ts (qFrom q)))"
    using assms(2,4) unfolding chosen_def source_def matches_def
    by (simp add: filter_map comp_def zip_map1 case_prod_unfold)
  then obtain es where es: "mset es = image_mset (envOf (qFrom q)) (mset (filter (matches cs args) (rowsOf ts (qFrom q))))"
    and rows: "rows = map (\<lambda>e. map (look e) (qCols q)) es"
    using assms(1,3) by (auto simp: answers_def page_def)
  from es obtain rs where "es = map (envOf (qFrom q)) rs" "mset rs = mset (filter (matches cs args) (rowsOf ts (qFrom q)))"
    using mset_eq_map [of es "envOf (qFrom q)" "filter (matches cs args) (rowsOf ts (qFrom q))"] by auto
  then show ?thesis using rows look by (intro exI [of _ rs]) simp
qed

lemma pg_get_room:
  assumes ob: "obeys drv D view" and inv: "pgInv (view st)"
  shows "(\<exists>room. pgGetRoom drv r st = Inr room) \<longleftrightarrow> pgHasRoom (view st) r"
proof -
  let ?q = "\<lparr>qCols = tcols ''rooms'' roomCols, qFrom = ''rooms'', qJoin = None, qWhere = [(''rooms'', ''id'')],
    qOrder = None, qPage = False\<rparr>"
  have "\<not> refused ?q [Text r] (view st)"
    using pg_has [OF inv pg_names(1)] by (simp add: refused_def badPage_def tablesOf_def)
  from obeys_query(1) [OF ob this] obtain rows where
    q: "dQuery drv selectRoom [Text r] st = Inr (rows, None)" and a: "answers ?q [Text r] (view st) rows"
    by (auto simp: selectRoom_def)
  obtain rs where rs: "mset rs = mset (filter (matches [''id''] [Text r]) (rowsOf (view st) ''rooms''))"
    and rows: "rows = map (\<lambda>r. map (cell r) roomCols) rs"
    using answers_rows [OF a, of "[''id'']" roomCols] by auto
  have "set rs = {x \<in> set (rowsOf (view st) ''rooms''). cell x ''id'' = Text r}"
    using mset_eq_setD [OF rs] by (auto simp: matches_def)
  then show ?thesis
    using scan_room_row [OF inv, of _ drv]
    by (cases rs) (auto simp: pgGetRoom_def queryRow_def q rows pgHasRoom_def present_def)
qed

lemma pg_is_in:
  assumes ob: "obeys drv D view" and inv: "pgInv (view st)"
  shows "pgIsUserInRoom drv r u st = (pgIsMember (view st) r u, None)"
proof -
  let ?q = "\<lparr>qCols = [], qFrom = ''room_members'', qJoin = None, qWhere = tcols ''room_members'' [''room_id'', ''user_id''],
    qOrder = None, qPage = False\<rparr>"
  have "\<not> refused ?q [Text r, Text u] (view st)"
    using pg_has [OF inv pg_names(3)] by (simp add: refused_def badPage_def tablesOf_def)
  from obeys_query(2) [OF ob this]
  have q: "dQuery drv existsMember [Text r, Text u] st = Inr ([[Flag (chosen ?q [Text r, Text u] (view st) \<noteq> [])]], None)"
    by (simp add: existsMember_def)
  have "chosen ?q [Text r, Text u] (view st) \<noteq> [] \<longleftrightarrow> pgIsMember (view st) r u"
    by (auto simp: chosen_def source_def pgIsMember_def filter_empty_conv)
  then show ?thesis
    by (simp add: pgIsUserInRoom_def queryRow_def q scanExists_def)
qed

section \<open>The contract of rooms and members\<close>

lemma exec_ok:
  assumes "obeys drv D view" and "run D q args (view st) = Inr ts"
  shows "fst (dExec drv q args st) = None" and "view (snd (dExec drv q args st)) = ts"
  using obeys_exec(2) [OF assms] by simp_all

lemma pg_create:
  assumes ob: "obeys drv D view" and inv: "pgInv (view st)"
  shows "fst (pgCreateRoom drv room st) = None \<longleftrightarrow> okRoomRow D room \<and> \<not> pgHasRoom (view st) (drID room)"
    and "pgInv (view (snd (pgCreateRoom drv room st)))"
    and "pgHasRoom (view (snd (pgCreateRoom drv room st))) r \<longleftrightarrow>
      (r = drID room \<and> okRoomRow D room) \<or> pgHasRoom (view st) r"
    and "pgIsMember (view (snd (pgCreateRoom drv room st))) r u \<longleftrightarrow> pgIsMember (view st) r u"
proof -
  let ?st = "snd (pgCreateRoom drv room st)"
  have args: "pgCreateRoom drv room st = dExec drv (INSERT ''rooms'' roomCols None) (roomArgs room) st"
    by (simp add: pgCreateRoom_def roomArgs_def)
  have "(fst (pgCreateRoom drv room st) = None \<longleftrightarrow> okRoomRow D room \<and> \<not> pgHasRoom (view st) (drID room)) \<and> pgInv (view ?st) \<and>
    (pgHasRoom (view ?st) r \<longleftrightarrow> (r = drID room \<and> okRoomRow D room) \<or> pgHasRoom (view st) r) \<and>
    (pgIsMember (view ?st) r u \<longleftrightarrow> pgIsMember (view st) r u)"
  proof (cases "okRoomRow D room \<and> \<not> pgHasRoom (view st) (drID room)")
    case True
    then have "run D (INSERT ''rooms'' roomCols None) (roomArgs room) (view st) =
        Inr (m_put ''rooms'' (roomsTable, rowsOf (view st) ''rooms'' @ [roomRow D room]) (view st))"
      using run_create [OF inv, of D room] by simp
    from exec_ok [OF ob this] True pgInv_create [OF inv, of D room] show ?thesis
      by (auto simp: args pgHasRoom_def present_put present_def pgIsMember_def)
  next
    case False
    then have "run D (INSERT ''rooms'' roomCols None) (roomArgs room) (view st) = Inl ''violates constraint''"
      using run_create [OF inv, of D room] by simp
    from obeys_exec(3) [OF ob this] False inv show ?thesis by (auto simp: args)
  qed
  then show "fst (pgCreateRoom drv room st) = None \<longleftrightarrow> okRoomRow D room \<and> \<not> pgHasRoom (view st) (drID room)"
    "pgInv (view (snd (pgCreateRoom drv room st)))"
    "pgHasRoom (view (snd (pgCreateRoom drv room st))) r \<longleftrightarrow> (r = drID room \<and> okRoomRow D room) \<or> pgHasRoom (view st) r"
    "pgIsMember (view (snd (pgCreateRoom drv room st))) r u \<longleftrightarrow> pgIsMember (view st) r u"
    by blast+
qed

lemma pg_add:
  assumes ob: "obeys drv D view" and inv: "pgInv (view st)" and mb: "okMemberRow mb" and room: "pgHasRoom (view st) (mbRoomID mb)"
  shows "fst (pgAddRoomMember drv mb st) = None" and "pgInv (view (snd (pgAddRoomMember drv mb st)))"
    and "pgHasRoom (view (snd (pgAddRoomMember drv mb st))) r \<longleftrightarrow> pgHasRoom (view st) r"
    and "pgIsMember (view (snd (pgAddRoomMember drv mb st))) r u \<longleftrightarrow> (r = mbRoomID mb \<and> u = mbUserID mb) \<or> pgIsMember (view st) r u"
proof -
  obtain rs where run: "run D (INSERT ''room_members'' memberCols (Some [''role'', ''joined_at''])) (memberArgs mb) (view st) =
      Inr (m_put ''room_members'' (room_membersTable, rs) (view st))"
    and rs: "pgInv (m_put ''room_members'' (room_membersTable, rs) (view st))"
    "\<And>r u. (\<exists>x \<in> set rs. cell x ''room_id'' = Text r \<and> cell x ''user_id'' = Text u) \<longleftrightarrow>
      (r = mbRoomID mb \<and> u = mbUserID mb) \<or> pgIsMember (view st) r u"
    using run_add [OF inv mb room, of D] by blast
  show "fst (pgAddRoomMember drv mb st) = None" "pgInv (view (snd (pgAddRoomMember drv mb st)))"
    "pgHasRoom (view (snd (pgAddRoomMember drv mb st))) r \<longleftrightarrow> pgHasRoom (view st) r"
    "pgIsMember (view (snd (pgAddRoomMember drv mb st))) r u \<longleftrightarrow> (r = mbRoomID mb \<and> u = mbUserID mb) \<or> pgIsMember (view st) r u"
    using exec_ok [OF ob run] rs
    by (simp_all add: pgAddRoomMember_def memberArgs_def [symmetric] pgHasRoom_def present_put pgIsMember_def)
qed

lemma pg_remove:
  assumes ob: "obeys drv D view" and inv: "pgInv (view st)"
  shows "fst (pgRemoveRoomMember drv r u st) = None" and "pgInv (view (snd (pgRemoveRoomMember drv r u st)))"
    and "pgHasRoom (view (snd (pgRemoveRoomMember drv r u st))) r' \<longleftrightarrow> pgHasRoom (view st) r'"
    and "pgIsMember (view (snd (pgRemoveRoomMember drv r u st))) r' u' \<longleftrightarrow> \<not> (r' = r \<and> u' = u) \<and> pgIsMember (view st) r' u'"
proof -
  obtain rs where run: "run D (DELETE ''room_members'' [''room_id'', ''user_id'']) [Text r, Text u] (view st) =
      Inr (m_put ''room_members'' (room_membersTable, rs) (view st))"
    and rs: "pgInv (m_put ''room_members'' (room_membersTable, rs) (view st))"
    "\<And>r' u'. (\<exists>x \<in> set rs. cell x ''room_id'' = Text r' \<and> cell x ''user_id'' = Text u') \<longleftrightarrow>
      \<not> (r' = r \<and> u' = u) \<and> pgIsMember (view st) r' u'"
    using run_remove [OF inv, of D r u] by blast
  show "fst (pgRemoveRoomMember drv r u st) = None" "pgInv (view (snd (pgRemoveRoomMember drv r u st)))"
    "pgHasRoom (view (snd (pgRemoveRoomMember drv r u st))) r' \<longleftrightarrow> pgHasRoom (view st) r'"
    "pgIsMember (view (snd (pgRemoveRoomMember drv r u st))) r' u' \<longleftrightarrow> \<not> (r' = r \<and> u' = u) \<and> pgIsMember (view st) r' u'"
    using exec_ok [OF ob run] rs by (simp_all add: pgRemoveRoomMember_def pgHasRoom_def present_put pgIsMember_def)
qed

lemma pg_member_store:
  assumes ob: "obeys drv D view"
  shows "member_store (postgres drv) (\<lambda>st. pgInv (view st)) (okRoomRow D) okMemberRow (\<lambda>st. pgIsMember (view st)) (\<lambda>st. pgHasRoom (view st))"
  by unfold_locales
    (simp_all add: postgres_def result_def pg_is_in [OF ob] pg_get_room [OF ob] pg_create [OF ob] pg_add [OF ob] pg_remove [OF ob],
     metis pg_member_room)

interpretation pgdb: member_store "postgres (reference D)" pgInv "okRoomRow D" okMemberRow pgIsMember pgHasRoom
  for D
  using pg_member_store [OF reference_obeys [of D]] by simp


definition demo_dialect :: dialect where
  "demo_dialect = \<lparr>keepTime = (\<lambda>t. t div 1000 * 1000), keepDec = (\<lambda>_ _. Some), keepJson = Some\<rparr>"

definition demo_room :: DBRoom where
  "demo_room = \<lparr>drID = ''group:g'', drType = ''group'', drName = ''g'', drMetadata = ''{}'', drCreated = 0\<rparr>"

definition demo_ops :: "memberOp list" where
  "demo_ops = [CreateOp demo_room, AddOp \<lparr>mbRoomID = ''group:g'', mbUserID = ''u'', mbRole = ''admin'', mbJoinedAt = 1\<rparr>,
     AddOp \<lparr>mbRoomID = ''group:g'', mbUserID = ''v'', mbRole = ''member'', mbJoinedAt = 2\<rparr>, RemoveOp ''group:g'' ''u'']"


end
