(* ===== verification/PgMessages.thy ===== *)
theory PgMessages
  imports PgLaws
begin

text \<open>
  Messages in PostgreSQL: when a message can be saved, what is read back, and the pages of a room's history.
\<close>

section \<open>Rows of messages\<close>

definition optText :: "sqlval \<Rightarrow> string option" where
  "optText v = (case v of Text s \<Rightarrow> Some s | _ \<Rightarrow> None)"

definition optNum :: "sqlval \<Rightarrow> int option" where
  "optNum v = (case v of Num i \<Rightarrow> Some i | _ \<Rightarrow> None)"

definition optDec :: "sqlval \<Rightarrow> float64 option" where
  "optDec v = (case v of Dec x \<Rightarrow> Some x | _ \<Rightarrow> None)"

lemma opt_simps [simp]:
  "optText Null = None" "optText (Text s) = Some s" "optNum Null = None" "optNum (Num i) = Some i"
  "textIn (Text s) = s" "instant (Time t) = t" "ptr f None = Null" "ptr f (Some x) = f x"
  "optDec Null = None" "optDec (Dec y) = Some y"
  by (simp_all add: optText_def optNum_def optDec_def textIn_def instant_def ptr_def)

definition rowMessage :: "row \<Rightarrow> DBMessage" where
  "rowMessage r =
     \<lparr>dmID = textIn (cell r ''id''), dmRoomID = textIn (cell r ''room_id''), dmSenderID = textIn (cell r ''sender_id''),
      dmContent = textIn (cell r ''content''), dmTimestamp = instant (cell r ''timestamp''),
      dmParent = optText (cell r ''parent_message_id''), dmType = textIn (cell r ''message_type''),
      dmFileData = map_option JStr (optText (cell r ''file_data'')), dmFileName = optText (cell r ''file_name''),
      dmFileSize = optNum (cell r ''file_size''), dmFileURL = None, dmFileType = optText (cell r ''file_type''),
      dmMediaData = optText (cell r ''media_data''), dmMediaType = optText (cell r ''media_type''),
      dmDuration = optNum (cell r ''duration''), dmLatitude = optDec (cell r ''latitude''),
      dmLongitude = optDec (cell r ''longitude'')\<rparr>"

fun isText :: "sqlval \<Rightarrow> bool" where
  "isText Null = True" | "isText (Text _) = True" | "isText _ = False"

fun isNum :: "sqlval \<Rightarrow> bool" where
  "isNum Null = True" | "isNum (Num _) = True" | "isNum _ = False"

fun isTime :: "sqlval \<Rightarrow> bool" where
  "isTime Null = True" | "isTime (Time _) = True" | "isTime _ = False"

fun isDec :: "sqlval \<Rightarrow> bool" where
  "isDec Null = True" | "isDec (Dec _) = True" | "isDec _ = False"

lemma fits_iff:
  "fits (VARCHAR n) v \<longleftrightarrow> isText v \<and> length (textIn v) \<le> n" "fits TEXT v \<longleftrightarrow> isText v" "fits TIMESTAMP v \<longleftrightarrow> isTime v"
  "fits BIGINT v \<longleftrightarrow> isNum v \<and> (\<forall>i. v = Num i \<longrightarrow> - (2 ^ 63) \<le> i \<and> i < 2 ^ 63)"
  "fits INTEGER v \<longleftrightarrow> isNum v \<and> (\<forall>i. v = Num i \<longrightarrow> - (2 ^ 31) \<le> i \<and> i < 2 ^ 31)"
  "fits (DECIMAL p k) v \<longleftrightarrow> isDec v"
  by (cases v; simp add: fits_def textIn_def)+

lemma scan_kind:
  "isText v \<Longrightarrow> v \<noteq> Null \<Longrightarrow> scanStr drv v = Inr (textIn v)"
  "isTime v \<Longrightarrow> v \<noteq> Null \<Longrightarrow> scanTime drv v = Inr (instant v)"
  "isText v \<Longrightarrow> scanPtr (scanStr drv) v = Inr (optText v)"
  "isNum v \<Longrightarrow> scanPtr (scanInt drv) v = Inr (optNum v)"
  "isDec v \<Longrightarrow> scanPtr (scanFloat drv) v = Inr (optDec v)"
  "isText v \<Longrightarrow> scanAny v = Inr (map_option JStr (optText v))"
  by (cases v; auto simp: scanPtr_def scanAny_def scanFloat_def scanVal_def)+

lemma scan_message_row:
  assumes "row_ok messagesTable r" and "cell r ''timestamp'' \<noteq> Null" and "cell r ''message_type'' \<noteq> Null"
  shows "scanMessage drv (map (cell r) messageCols) = Inr (rowMessage r)"
  using assms unfolding row_ok_def messagesTable_def
  by (simp add: scanMessage_def messageCols_def rowMessage_def fits_iff scan_kind)

lemma scan_stored_message:
  assumes "pgInv ts" and "r \<in> set (rowsOf ts ''messages'')"
  shows "scanMessage drv (map (cell r) messageCols) = Inr (rowMessage r)"
  using assms pg_rows(1) [OF assms(1) pg_names(2) assms(2)]
  by (intro scan_message_row) (auto simp: pgInv_def filled_iff)

lemma scanLoop_all: "(\<And>r. r \<in> set rs \<Longrightarrow> scan r = Inr (f r)) \<Longrightarrow> scanLoop scan rs acc err = (acc @ map f rs, err)"
  by (induction rs arbitrary: acc) auto

section \<open>Reading one message\<close>

text \<open>The message with an id, as the tables have it.\<close>

definition messageAt :: "tables \<Rightarrow> string \<Rightarrow> DBMessage option" where
  "messageAt ts i = map_option rowMessage (find (\<lambda>r. cell r ''id'' = Text i) (rowsOf ts ''messages''))"

lemma filter_key:
  assumes "distinct (map f xs)"
  shows "filter (\<lambda>x. f x = k) xs = (case find (\<lambda>x. f x = k) xs of None \<Rightarrow> [] | Some x \<Rightarrow> [x])"
  using assms
proof (induction xs)
  case (Cons x xs)
  have "filter (\<lambda>y. f y = f x) xs = []" using Cons.prems by (force simp: filter_empty_conv image_iff)
  then show ?case using Cons by auto
qed simp

lemma pg_get_message:
  assumes ob: "obeys drv D view" and inv: "pgInv (view st)"
  shows "pgGetMessage drv i st = (case messageAt (view st) i of None \<Rightarrow> Inl ''sql: no rows in result set'' | Some m \<Rightarrow> Inr m)"
proof -
  let ?q = "\<lparr>qCols = tcols ''messages'' messageCols, qFrom = ''messages'', qJoin = None, qWhere = [(''messages'', ''id'')],
    qOrder = None, qPage = False\<rparr>"
  let ?rs = "rowsOf (view st) ''messages''"
  have "\<not> refused ?q [Text i] (view st)"
    using pg_has [OF inv pg_names(2)] by (simp add: refused_def badPage_def tablesOf_def)
  from obeys_query(1) [OF ob this] obtain rows where
    q: "dQuery drv selectMessage [Text i] st = Inr (rows, None)" and a: "answers ?q [Text i] (view st) rows"
    by (auto simp: selectMessage_def)
  obtain rs where rs: "mset rs = mset (filter (matches [''id''] [Text i]) ?rs)"
    and rows: "rows = map (\<lambda>r. map (cell r) messageCols) rs"
    using answers_rows [OF a, of "[''id'']" messageCols] by auto
  have di: "distinct (map (\<lambda>r. cell r ''id'') ?rs)"
    using pg_keys [OF inv pg_names(2)] by (simp add: distinct_map inj_on_def)
  have "mset rs = mset (filter (\<lambda>r. cell r ''id'' = Text i) ?rs)" using rs by (simp add: matches_def)
  then have "mset rs = mset (case find (\<lambda>r. cell r ''id'' = Text i) ?rs of None \<Rightarrow> [] | Some r \<Rightarrow> [r])"
    unfolding filter_key [OF di] .
  then have "rs = (case find (\<lambda>r. cell r ''id'' = Text i) ?rs of None \<Rightarrow> [] | Some r \<Rightarrow> [r])"
    by (auto split: option.splits)
  moreover have "find (\<lambda>r. cell r ''id'' = Text i) ?rs = Some r \<Longrightarrow> r \<in> set ?rs" for r
    by (auto simp: find_Some_iff)
  ultimately show ?thesis
    using scan_stored_message [OF inv, of _ drv]
    by (auto simp: pgGetMessage_def queryRow_def q rows messageAt_def split: option.split)
qed

section \<open>Saving a message\<close>

text \<open>What comes back of an \<^verbatim>\<open>interface{}\<close>: a number or truth value as its text, and nothing of a null.\<close>

definition readData :: "'st driver \<Rightarrow> json option \<Rightarrow> json option" where
  "readData drv x = (case argAny drv x of Inr (Text s) \<Rightarrow> Some (JStr s) | Inr (Other s) \<Rightarrow> Some (JStr s) | _ \<Rightarrow> None)"

definition storedMessage :: "dialect \<Rightarrow> 'st driver \<Rightarrow> DBMessage \<Rightarrow> DBMessage" where
  "storedMessage D drv m = m\<lparr>dmTimestamp := keepTime D (dmTimestamp m), dmFileURL := None, dmFileData := readData drv (dmFileData m),
     dmLatitude := Option.bind (dmLatitude m) (keepDec D 10 8), dmLongitude := Option.bind (dmLongitude m) (keepDec D 11 8)\<rparr>"

definition fitsPtr :: "('a \<Rightarrow> bool) \<Rightarrow> 'a option \<Rightarrow> bool" where
  "fitsPtr P x = (case x of None \<Rightarrow> True | Some a \<Rightarrow> P a)"

lemma fitsPtr_iff: "fitsPtr P x \<longleftrightarrow> (\<forall>a. x = Some a \<longrightarrow> P a)"
  by (simp add: fitsPtr_def split: option.split)

text \<open>A message fits the columns of its table.\<close>

definition okMessageRow :: "dialect \<Rightarrow> DBMessage \<Rightarrow> bool" where
  "okMessageRow D m \<longleftrightarrow>
     length (dmID m) \<le> 255 \<and> length (dmRoomID m) \<le> 255 \<and> length (dmSenderID m) \<le> 255 \<and> length (dmType m) \<le> 50 \<and>
     fitsPtr (\<lambda>i. length i \<le> 255) (dmParent m) \<and> fitsPtr (\<lambda>n. length n \<le> 500) (dmFileName m) \<and>
     fitsPtr (\<lambda>n. length n \<le> 100) (dmFileType m) \<and> fitsPtr (\<lambda>n. length n \<le> 50) (dmMediaType m) \<and>
     fitsPtr (\<lambda>i. - (2 ^ 63) \<le> i \<and> i < 2 ^ 63) (dmFileSize m) \<and> fitsPtr (\<lambda>i. - (2 ^ 31) \<le> i \<and> i < 2 ^ 31) (dmDuration m) \<and>
     fitsPtr (\<lambda>x. keepDec D 10 8 x \<noteq> None) (dmLatitude m) \<and> fitsPtr (\<lambda>x. keepDec D 11 8 x \<noteq> None) (dmLongitude m)"

lemma okMessageRow_iff: "okMessageRow D m \<longleftrightarrow>
     length (dmID m) \<le> 255 \<and> length (dmRoomID m) \<le> 255 \<and> length (dmSenderID m) \<le> 255 \<and> length (dmType m) \<le> 50 \<and>
     (\<forall>i. dmParent m = Some i \<longrightarrow> length i \<le> 255) \<and> (\<forall>n. dmFileName m = Some n \<longrightarrow> length n \<le> 500) \<and>
     (\<forall>n. dmFileType m = Some n \<longrightarrow> length n \<le> 100) \<and> (\<forall>n. dmMediaType m = Some n \<longrightarrow> length n \<le> 50) \<and>
     (\<forall>i. dmFileSize m = Some i \<longrightarrow> - (2 ^ 63) \<le> i \<and> i < 2 ^ 63) \<and> (\<forall>i. dmDuration m = Some i \<longrightarrow> - (2 ^ 31) \<le> i \<and> i < 2 ^ 31) \<and>
     (\<forall>x. dmLatitude m = Some x \<longrightarrow> keepDec D 10 8 x \<noteq> None) \<and> (\<forall>x. dmLongitude m = Some x \<longrightarrow> keepDec D 11 8 x \<noteq> None)"
  by (simp add: okMessageRow_def fitsPtr_iff)

text \<open>It can be saved: its room and the message it answers exist, and its id is new.\<close>

definition saveable :: "dialect \<Rightarrow> 'st driver \<Rightarrow> DBMessage \<Rightarrow> tables \<Rightarrow> bool" where
  "saveable D drv m ts \<longleftrightarrow>
     okMessageRow D m \<and> \<not> isl (argAny drv (dmFileData m)) \<and> pgHasRoom ts (dmRoomID m) \<and> messageAt ts (dmID m) = None \<and>
     fitsPtr (\<lambda>i. i = dmID m \<or> messageAt ts i \<noteq> None) (dmParent m)"

lemma saveable_iff: "saveable D drv m ts \<longleftrightarrow>
     okMessageRow D m \<and> (\<exists>v. argAny drv (dmFileData m) = Inr v) \<and> pgHasRoom ts (dmRoomID m) \<and> messageAt ts (dmID m) = None \<and>
     (\<forall>i. dmParent m = Some i \<longrightarrow> i = dmID m \<or> messageAt ts i \<noteq> None)"
  by (cases "argAny drv (dmFileData m)") (auto simp: saveable_def fitsPtr_iff)

definition messageRow :: "dialect \<Rightarrow> DBMessage \<Rightarrow> sqlval \<Rightarrow> row" where
  "messageRow D m fd = zip messageCols
     [Text (dmID m), Text (dmRoomID m), Text (dmSenderID m), Text (dmContent m), Time (keepTime D (dmTimestamp m)),
      ptr Text (dmParent m), Text (dmType m), (case fd of Other s \<Rightarrow> Text s | _ \<Rightarrow> fd), ptr Text (dmFileName m), ptr Num (dmFileSize m),
      ptr Text (dmFileType m), ptr Text (dmMediaData m), ptr Text (dmMediaType m), ptr Num (dmDuration m),
      stored D (DECIMAL 10 8) (ptr Dec (dmLatitude m)), stored D (DECIMAL 11 8) (ptr Dec (dmLongitude m))]"

definition argKind :: "sqlval \<Rightarrow> bool" where
  "argKind v \<longleftrightarrow> v = Null \<or> (\<exists>s. v = Text s \<or> v = Other s)"

lemma argAny_kind: "argAny drv x = Inr v \<Longrightarrow> argKind v"
  by (auto simp: argAny_def argKind_def split: option.splits json.splits)

lemma messageRow_cells [simp]:
  "cell (messageRow D m fd) ''id'' = Text (dmID m)" "cell (messageRow D m fd) ''room_id'' = Text (dmRoomID m)"
  "cell (messageRow D m fd) ''sender_id'' = Text (dmSenderID m)" "cell (messageRow D m fd) ''content'' = Text (dmContent m)"
  "cell (messageRow D m fd) ''timestamp'' = Time (keepTime D (dmTimestamp m))"
  "cell (messageRow D m fd) ''parent_message_id'' = ptr Text (dmParent m)"
  "cell (messageRow D m fd) ''message_type'' = Text (dmType m)"
  "cell (messageRow D m fd) ''file_data'' = (case fd of Other s \<Rightarrow> Text s | _ \<Rightarrow> fd)"
  "cell (messageRow D m fd) ''file_name'' = ptr Text (dmFileName m)" "cell (messageRow D m fd) ''file_size'' = ptr Num (dmFileSize m)"
  "cell (messageRow D m fd) ''file_type'' = ptr Text (dmFileType m)" "cell (messageRow D m fd) ''media_data'' = ptr Text (dmMediaData m)"
  "cell (messageRow D m fd) ''media_type'' = ptr Text (dmMediaType m)" "cell (messageRow D m fd) ''duration'' = ptr Num (dmDuration m)"
  "cell (messageRow D m fd) ''latitude'' = stored D (DECIMAL 10 8) (ptr Dec (dmLatitude m))"
  "cell (messageRow D m fd) ''longitude'' = stored D (DECIMAL 11 8) (ptr Dec (dmLongitude m))"
  "map fst (messageRow D m fd) = messageCols"
  by (simp_all add: messageRow_def messageCols_def)

lemma messageCols_table: "map colName (tdCols messagesTable) = messageCols"
  by (simp add: messagesTable_def messageCols_def)

lemma ptr_kind [simp]:
  "isText (ptr Text x)" "ptr Text x \<noteq> Num i" "optText (ptr Text x) = x" "ptr Text x = Null \<longleftrightarrow> x = None"
  "isNum (ptr Num y)" "optNum (ptr Num y) = y" "ptr Num y = Num i \<longleftrightarrow> y = Some i"
  by (cases x; simp) (cases x; simp | cases y; simp)+

lemma length_ptr: "length (textIn (ptr Text x)) \<le> n \<longleftrightarrow> (\<forall>s. x = Some s \<longrightarrow> length s \<le> n)"
  by (cases x) (auto simp: textIn_def)

lemma stored_Dec [simp]:
  "isDec (stored D (DECIMAL p k) (ptr Dec x)) \<longleftrightarrow> (\<forall>y. x = Some y \<longrightarrow> keepDec D p k y \<noteq> None)"
  "optDec (stored D (DECIMAL p k) (ptr Dec x)) = Option.bind x (keepDec D p k)"
  by (cases x; auto simp: stored_def optDec_def split: option.split)+

lemma row_ok_message:
  assumes "argKind fd"
  shows "row_ok messagesTable (messageRow D m fd) \<longleftrightarrow> okMessageRow D m"
proof -
  have "isText (case fd of Other s \<Rightarrow> Text s | _ \<Rightarrow> fd)" using assms by (auto simp: argKind_def)
  then show ?thesis
    unfolding row_ok_def messageCols_table messageRow_cells(17)
    by (simp add: messagesTable_def fits_iff length_ptr okMessageRow_iff) blast
qed

lemma mkRow_message:
  assumes "argAny drv (dmFileData m) = Inr fd" and "messageArgs drv m = Inr args"
  shows "mkRow D messagesTable messageCols args = messageRow D m fd" and "length args = length messageCols"
proof -
  have st: "stored D (VARCHAR n) (ptr Text x) = ptr Text x" "stored D TEXT (ptr Text x) = ptr Text x"
    "stored D BIGINT (ptr Num y) = ptr Num y" "stored D INTEGER (ptr Num y) = ptr Num y" for n x y
    by (cases x; cases y; simp add: stored_def)+
  have fd: "stored D TEXT fd = (case fd of Other s \<Rightarrow> Text s | _ \<Rightarrow> fd)"
    using argAny_kind [OF assms(1)] by (auto simp: stored_def argKind_def)
  have args: "args = [Text (dmID m), Text (dmRoomID m), Text (dmSenderID m), Text (dmContent m), Time (dmTimestamp m),
      ptr Text (dmParent m), Text (dmType m), fd, ptr Text (dmFileName m), ptr Num (dmFileSize m), ptr Text (dmFileType m),
      ptr Text (dmMediaData m), ptr Text (dmMediaType m), ptr Num (dmDuration m),
      ptr Dec (dmLatitude m), ptr Dec (dmLongitude m)]"
    using assms by (simp add: messageArgs_def)
  show "mkRow D messagesTable messageCols args = messageRow D m fd"
    by (simp add: args mkRow_def messagesTable_def messageCols_def messageRow_def st fd) (simp add: stored_def)
  show "length args = length messageCols" by (simp add: args messageCols_def)
qed

lemma rowMessage_messageRow:
  assumes "argAny drv (dmFileData m) = Inr fd"
  shows "rowMessage (messageRow D m fd) = storedMessage D drv m"
  using argAny_kind [OF assms] assms
  by (auto simp: rowMessage_def storedMessage_def readData_def argKind_def)

lemma find_append: "find P (xs @ ys) = (case find P xs of None \<Rightarrow> find P ys | Some x \<Rightarrow> Some x)"
  by (induction xs) auto

lemma messageAt_None: "messageAt ts i = None \<longleftrightarrow> \<not> present ts ''messages'' ''id'' (Text i)"
  by (auto simp: messageAt_def present_def find_None_iff)

lemma run_save:
  assumes inv: "pgInv ts" and fd: "argAny drv (dmFileData m) = Inr fd" and args: "messageArgs drv m = Inr args"
  shows "run D (INSERT ''messages'' messageCols None) args ts =
    (if saveable D drv m ts then Inr (m_put ''messages'' (messagesTable, rowsOf ts ''messages'' @ [messageRow D m fd]) ts)
     else Inl ''violates constraint'')"
proof -
  let ?r = "messageRow D m fd"
  have "[Text (dmID m)] \<notin> set (map (keyOf messagesTable) (rowsOf ts ''messages'')) \<longleftrightarrow> messageAt ts (dmID m) = None"
    by (force simp: messageAt_None present_def)
  moreover have "refs_ok (m_put ''messages'' (messagesTable, rowsOf ts ''messages'' @ [?r]) ts) messagesTable ?r \<longleftrightarrow>
      pgHasRoom ts (dmRoomID m) \<and> (\<forall>i. dmParent m = Some i \<longrightarrow> i = dmID m \<or> messageAt ts i \<noteq> None)"
    by (cases "dmParent m") (auto simp: present_put pgHasRoom_def messageAt_None, auto simp: present_def)
  moreover have "set messageCols \<subseteq> set (map colName (tdCols messagesTable))" by (simp add: messageCols_table)
  ultimately show ?thesis
    using run_insert [of ts "''messages''" messagesTable args messageCols None ?r D, OF inv pg_names(2) _ _ _
        mkRow_message(1) [OF fd args, symmetric]] mkRow_message(2) [OF fd args] row_ok_message [OF argAny_kind [OF fd], of D m] fd
    by (auto simp: saveable_iff)
qed

lemma pgInv_save:
  assumes inv: "pgInv ts" and fd: "argAny drv (dmFileData m) = Inr fd" and ok: "saveable D drv m ts"
  shows "pgInv (m_put ''messages'' (messagesTable, rowsOf ts ''messages'' @ [messageRow D m fd]) ts)"
proof (rule pgInv_append [OF inv pg_names(2)])
  show "row_ok messagesTable (messageRow D m fd)"
    using ok row_ok_message [OF argAny_kind [OF fd], of D m] by (simp add: saveable_iff)
  show "keyOf messagesTable (messageRow D m fd) \<notin> set (map (keyOf messagesTable) (rowsOf ts ''messages''))"
    using ok by (force simp: saveable_iff messageAt_None present_def)
  show "refs_ok (m_put ''messages'' (messagesTable, rowsOf ts ''messages'' @ [messageRow D m fd]) ts) messagesTable (messageRow D m fd)"
    using ok by (cases "dmParent m") (auto simp: saveable_iff present_put pgHasRoom_def messageAt_None, auto simp: present_def)
qed (auto simp: neverNull_def)

lemma messageAt_save:
  assumes "saveable D drv m ts" and "argAny drv (dmFileData m) = Inr fd"
  shows "messageAt (m_put ''messages'' (messagesTable, rowsOf ts ''messages'' @ [messageRow D m fd]) ts) i =
    (if i = dmID m then Some (storedMessage D drv m) else messageAt ts i)"
  using assms by (auto simp: saveable_iff messageAt_def find_append rowMessage_messageRow split: option.split)

lemma SaveMessage_GetMessage_iff:
  assumes ob: "obeys drv D view" and inv: "pgInv (view st)"
  shows "(fst (pgSaveMessage drv m st) = None \<longleftrightarrow> saveable D drv m (view st)) \<and> pgInv (view (snd (pgSaveMessage drv m st))) \<and>
    (saveable D drv m (view st) \<longrightarrow>
       pgGetMessage drv (dmID m) (snd (pgSaveMessage drv m st)) = Inr (storedMessage D drv m) \<and>
       (i \<noteq> dmID m \<longrightarrow> pgGetMessage drv i (snd (pgSaveMessage drv m st)) = pgGetMessage drv i st)) \<and>
    (\<not> saveable D drv m (view st) \<longrightarrow> view (snd (pgSaveMessage drv m st)) = view st)"
proof (cases "argAny drv (dmFileData m)")
  case (Inl e)
  then show ?thesis using inv by (simp add: pgSaveMessage_def messageArgs_def saveable_iff)
next
  case fd: (Inr fd)
  then obtain args where args: "messageArgs drv m = Inr args" by (simp add: messageArgs_def)
  note run = run_save [OF inv fd args, of D]
  have save: "pgSaveMessage drv m st = dExec drv (INSERT ''messages'' messageCols None) args st"
    by (simp add: pgSaveMessage_def args)
  show ?thesis
  proof (cases "saveable D drv m (view st)")
    case True
    then have run': "run D (INSERT ''messages'' messageCols None) args (view st) =
        Inr (m_put ''messages'' (messagesTable, rowsOf (view st) ''messages'' @ [messageRow D m fd]) (view st))" using run by simp
    note eff = exec_ok [OF ob run', folded save]
    have inv': "pgInv (view (snd (pgSaveMessage drv m st)))" using pgInv_save [OF inv fd True] eff(2) by simp
    show ?thesis
      using eff inv' True messageAt_save [OF True fd] pg_get_message [OF ob inv'] pg_get_message [OF ob inv] by simp
  next
    case False
    then have "run D (INSERT ''messages'' messageCols None) args (view st) = Inl ''violates constraint''" using run by simp
    from obeys_exec(3) [OF ob this] False inv show ?thesis by (simp add: save)
  qed
qed


section \<open>Histories\<close>

definition roomHistory :: "tables \<Rightarrow> string \<Rightarrow> DBMessage list" where
  "roomHistory ts r = map rowMessage (filter (\<lambda>x. cell x ''room_id'' = Text r) (rowsOf ts ''messages''))"

definition threadOf :: "tables \<Rightarrow> string \<Rightarrow> DBMessage list" where
  "threadOf ts i = map rowMessage (filter (\<lambda>x. cell x ''parent_message_id'' = Text i) (rowsOf ts ''messages''))"

text \<open>An ordered query of one table.\<close>

lemma answers_sorted:
  assumes "answers q args ts rows" and "qJoin q = None" and "qWhere q = [(qFrom q, c)]" and "args = v # rest" and "v \<noteq> Null"
    and "qCols q = tcols (qFrom q) ds" and "qOrder q = Some ((qFrom q, k), asc)"
  shows "\<exists>rs. mset rs = mset (filter (\<lambda>r. cell r c = v) (rowsOf ts (qFrom q))) \<and>
    sorted (map (\<lambda>r. if asc then instant (cell r k) else - instant (cell r k)) rs) \<and>
    rows = page q args (map (\<lambda>r. map (cell r) ds) rs)"
proof -
  have look: "(\<lambda>e. map (look e) (qCols q)) (envOf (qFrom q) r) = map (cell r) ds" for r
    using assms(6) by simp
  have key: "orderKey q (envOf (qFrom q) r) = (if asc then instant (cell r k) else - instant (cell r k))" for r
    using assms(7) by (simp add: orderKey_def)
  have "chosen q args ts = map (envOf (qFrom q)) (filter (\<lambda>r. cell r c = v) (rowsOf ts (qFrom q)))"
    using assms(2-5) unfolding chosen_def source_def by (simp add: filter_map comp_def)
  then obtain es where es: "mset es = mset (map (envOf (qFrom q)) (filter (\<lambda>r. cell r c = v) (rowsOf ts (qFrom q))))"
    and srt: "sorted (map (orderKey q) es)" and rows: "rows = map (\<lambda>e. map (look e) (qCols q)) (page q args es)"
    using assms(1) by (auto simp: answers_def)
  obtain rs where rs: "es = map (envOf (qFrom q)) rs" "mset rs = mset (filter (\<lambda>r. cell r c = v) (rowsOf ts (qFrom q)))"
    using mset_eq_map [OF es] by blast
  have "map f (page q args xs) = page q args (map f xs)" for f :: "env \<Rightarrow> sqlval list" and xs
    by (simp add: page_def take_map drop_map split: list.split sqlval.split)
  then have "rows = page q args (map (\<lambda>r. map (cell r) ds) rs)" using rows rs(1) look by (simp add: comp_def)
  moreover have "sorted (map (\<lambda>r. if asc then instant (cell r k) else - instant (cell r k)) rs)"
    using srt rs(1) by (simp add: key comp_def)
  ultimately show ?thesis using rs(2) by blast
qed

lemma scan_all:
  assumes "pgInv ts" and "set rs \<subseteq> set (rowsOf ts ''messages'')"
  shows "scanLoop (scanMessage drv) (map (\<lambda>r. map (cell r) messageCols) rs) acc err = (acc @ map rowMessage rs, err)"
  using assms(2)
proof (induction rs arbitrary: acc)
  case (Cons r rs)
  then show ?case using scan_stored_message [OF assms(1), of r drv] by simp
qed simp

lemma rowMessage_fields:
  "dmTimestamp (rowMessage r) = instant (cell r ''timestamp'')"
  by (simp add: rowMessage_def)

lemma messages_page:
  assumes ob: "obeys drv D view" and inv: "pgInv (view st)"
  shows "\<exists>all. mset all = mset (roomHistory (view st) r) \<and> sorted (map (\<lambda>m. - dmTimestamp m) all) \<and>
    pgGetMessages drv r (int n) (int k) st = (take n (drop k all), None)"
proof -
  let ?q = "\<lparr>qCols = tcols ''messages'' messageCols, qFrom = ''messages'', qJoin = None, qWhere = [(''messages'', ''room_id'')],
    qOrder = Some ((''messages'', ''timestamp''), False), qPage = True\<rparr>"
  let ?a = "[Text r, Num (int n), Num (int k)]"
  have "\<not> refused ?q ?a (view st)"
    using pg_has [OF inv pg_names(2)] by (simp add: refused_def badPage_def tablesOf_def)
  from obeys_query(1) [OF ob this] obtain rows where
    q: "dQuery drv selectRoomMessages ?a st = Inr (rows, None)" and a: "answers ?q ?a (view st) rows"
    by (auto simp: selectRoomMessages_def)
  obtain rs where rs: "mset rs = mset (filter (\<lambda>x. cell x ''room_id'' = Text r) (rowsOf (view st) ''messages''))"
    and srt: "sorted (map (\<lambda>x. - instant (cell x ''timestamp'')) rs)"
    and rows: "rows = map (\<lambda>x. map (cell x) messageCols) (take n (drop k rs))"
    using answers_sorted [OF a, of "''room_id''" "Text r" "[Num (int n), Num (int k)]" messageCols "''timestamp''" False]
    by (auto simp: page_def take_map drop_map)
  have "set (take n (drop k rs)) \<subseteq> set (rowsOf (view st) ''messages'')"
    using mset_eq_setD [OF rs] set_take_subset set_drop_subset by (metis (no_types, lifting) filter_is_subset order_trans)
  from scan_all [OF inv this, of drv "[]" None]
  have "pgGetMessages drv r (int n) (int k) st = (take n (drop k (map rowMessage rs)), None)"
    by (simp add: pgGetMessages_def queryAll_def q rows take_map drop_map)
  moreover have "mset (map rowMessage rs) = mset (roomHistory (view st) r)" using rs by (simp add: roomHistory_def)
  moreover have "sorted (map (\<lambda>m. - dmTimestamp m) (map rowMessage rs))" using srt by (simp add: rowMessage_fields comp_def)
  ultimately show ?thesis by blast
qed

lemma messages_bad_page:
  assumes ob: "obeys drv D view" and "limit < 0 \<or> offset < 0"
  shows "\<exists>e. pgGetMessages drv r limit offset st = ([], Some e)"
proof -
  let ?q = "\<lparr>qCols = tcols ''messages'' messageCols, qFrom = ''messages'', qJoin = None, qWhere = [(''messages'', ''room_id'')],
    qOrder = Some ((''messages'', ''timestamp''), False), qPage = True\<rparr>"
  have "refused ?q [Text r, Num limit, Num offset] (view st)" using assms(2) by (auto simp: refused_def badPage_def)
  from obeys_query(3) [OF ob this] show ?thesis by (auto simp: pgGetMessages_def queryAll_def selectRoomMessages_def)
qed

lemma thread_sorted:
  assumes ob: "obeys drv D view" and inv: "pgInv (view st)"
  shows "\<exists>all. mset all = mset (threadOf (view st) i) \<and> sorted (map dmTimestamp all) \<and>
    pgGetThreadMessages drv i st = (all, None)"
proof -
  let ?q = "\<lparr>qCols = tcols ''messages'' messageCols, qFrom = ''messages'', qJoin = None,
    qWhere = [(''messages'', ''parent_message_id'')], qOrder = Some ((''messages'', ''timestamp''), True), qPage = False\<rparr>"
  have "\<not> refused ?q [Text i] (view st)"
    using pg_has [OF inv pg_names(2)] by (simp add: refused_def badPage_def tablesOf_def)
  from obeys_query(1) [OF ob this] obtain rows where
    q: "dQuery drv selectThread [Text i] st = Inr (rows, None)" and a: "answers ?q [Text i] (view st) rows"
    by (auto simp: selectThread_def)
  obtain rs where rs: "mset rs = mset (filter (\<lambda>x. cell x ''parent_message_id'' = Text i) (rowsOf (view st) ''messages''))"
    and srt: "sorted (map (\<lambda>x. instant (cell x ''timestamp'')) rs)" and rows: "rows = map (\<lambda>x. map (cell x) messageCols) rs"
    using answers_sorted [OF a, of "''parent_message_id''" "Text i" "[]" messageCols "''timestamp''" True]
    by (auto simp: page_def)
  have "set rs \<subseteq> set (rowsOf (view st) ''messages'')" using mset_eq_setD [OF rs] by auto
  from scan_all [OF inv this, of drv "[]" None] have "pgGetThreadMessages drv i st = (map rowMessage rs, None)"
    by (simp add: pgGetThreadMessages_def queryAll_def q rows)
  moreover have "mset (map rowMessage rs) = mset (threadOf (view st) i)" using rs by (simp add: threadOf_def)
  moreover have "sorted (map dmTimestamp (map rowMessage rs))" using srt by (simp add: rowMessage_fields comp_def)
  ultimately show ?thesis by blast
qed

text \<open>
  C16. \<^verbatim>\<open>GetMessages\<close> answers with a page of the room's history, newest first: some arrangement of exactly the
  messages of the room, sorted by time, of which the page takes the given number after the given offset. A negative limit or
  offset is an error. \<^verbatim>\<open>GetThreadMessages\<close> gives all replies to a message, oldest first.
\<close>

theorem history_newest_first:
  assumes ob: "obeys drv D view" and inv: "pgInv (view st)"
  shows "(\<exists>all. mset all = mset (roomHistory (view st) r) \<and> sorted (map (\<lambda>m. - dmTimestamp m) all) \<and>
      pgGetMessages drv r (int n) (int k) st = (take n (drop k all), None)) \<and>
    (limit < 0 \<or> offset < 0 \<longrightarrow> (\<exists>e. pgGetMessages drv r limit offset st = ([], Some e))) \<and>
    (\<exists>all. mset all = mset (threadOf (view st) i) \<and> sorted (map dmTimestamp all) \<and>
      pgGetThreadMessages drv i st = (all, None))"
  using messages_page [OF assms] messages_bad_page [OF ob] thread_sorted [OF assms] by blast

end
