(* ===== verification/PgOps.thy ===== *)
theory PgOps
  imports PgMessages
begin

text \<open>
  All operations of \<^verbatim>\<open>PostgreSQLDB\<close> that write, in any order: the tables stay valid, and deleting a room deletes all that
  belongs to it. And the operations that read: an error of the driver is always reported.
\<close>

section \<open>Writing\<close>

datatype dbOp = SaveMessageOp DBMessage | CreateRoomOp DBRoom | DeleteRoomOp string | AddRoomMemberOp DBRoomMember
  | RemoveRoomMemberOp string string | SaveReadReceiptOp DBReadReceipt

definition pgApply :: "'st driver \<Rightarrow> dbOp \<Rightarrow> 'st \<Rightarrow> string option \<times> 'st" where
  "pgApply drv x st = (case x of
      SaveMessageOp m \<Rightarrow> pgSaveMessage drv m st
    | CreateRoomOp room \<Rightarrow> pgCreateRoom drv room st
    | DeleteRoomOp r \<Rightarrow> pgDeleteRoom drv r st
    | AddRoomMemberOp mb \<Rightarrow> pgAddRoomMember drv mb st
    | RemoveRoomMemberOp r u \<Rightarrow> pgRemoveRoomMember drv r u st
    | SaveReadReceiptOp rr \<Rightarrow> pgSaveReadReceipt drv rr st)"

text \<open>An insertion that the constraints let through keeps the invariant if it fills the columns that are never null.\<close>

lemma insert_keeps:
  assumes inv: "pgInv ts" and t: "map_of pgTables t = Some d"
    and run: "run D (INSERT t cs upd) args ts = Inr ts'"
    and full: "\<And>c. (t, c) \<in> set neverNull \<Longrightarrow> cell (mkRow D d cs args) c \<noteq> Null"
  shows "pgInv ts'"
proof -
  let ?r = "mkRow D d cs args"
  have tb: "map_of ts t = Some (d, rowsOf ts t)" using inv t by (simp add: pgInv_def pg_table)
  have old: "cell x c \<noteq> Null" if "(t, c) \<in> set neverNull" "x \<in> set (rowsOf ts t)" for x c
    using inv that by (auto simp: pgInv_def filled_def)
  from run have c: "constraints ts'" and ts': "ts' = insertRow D t d (rowsOf ts t) upd ?r ts"
    by (auto simp: run_def tb checked_def split: if_splits)
  have "\<exists>rs. ts' = m_put t (d, rs) ts \<and> (\<forall>c. (t, c) \<in> set neverNull \<longrightarrow> (\<forall>x \<in> set rs. cell x c \<noteq> Null))"
  proof (cases "\<exists>us. upd = Some us \<and> keyOf d ?r \<in> set (map (keyOf d) (rowsOf ts t))")
    case True
    then obtain us where upd: "upd = Some us" "keyOf d ?r \<in> set (map (keyOf d) (rowsOf ts t))" by blast
    have "cell (setCells ?r us x) c \<noteq> Null" if "(t, c) \<in> set neverNull" "x \<in> set (rowsOf ts t)" for x c
      using full old that by (simp add: cell_setCells)
    then have "\<forall>c. (t, c) \<in> set neverNull \<longrightarrow>
        (\<forall>x \<in> set (map (\<lambda>r'. if keyOf d r' = keyOf d ?r then setCells ?r us r' else r') (rowsOf ts t)). cell x c \<noteq> Null)"
      using old by auto
    then show ?thesis using upd by (auto simp: ts' insertRow_def)
  next
    case False
    then have "ts' = m_put t (d, rowsOf ts t @ [?r]) ts" by (auto simp: ts' insertRow_def split: option.split)
    then show ?thesis using full old by (intro exI [of _ "rowsOf ts t @ [?r]"]) auto
  qed
  then show ?thesis using pgInv_put [OF inv t] c by blast
qed

lemma exec_keeps:
  assumes ob: "obeys drv D view" and inv: "pgInv (view st)"
    and run: "\<And>ts'. run D q args (view st) = Inr ts' \<Longrightarrow> pgInv ts'"
  shows "pgInv (view (snd (dExec drv q args st)))"
  using obeys_exec(2,3) [OF ob, of q args st] run inv by (cases "run D q args (view st)") auto

lemma receipt_full: "cell (mkRow D read_receiptsTable receiptCols [Text i, Text u, Time t]) ''read_at'' \<noteq> Null"
  by (simp add: mkRow_def read_receiptsTable_def receiptCols_def stored_def)

lemma member_full:
  "cell (mkRow D room_membersTable memberCols (memberArgs mb)) ''role'' \<noteq> Null"
  "cell (mkRow D room_membersTable memberCols (memberArgs mb)) ''joined_at'' \<noteq> Null"
  by (simp_all add: mkRow_member)

lemma pgApply_keeps:
  assumes ob: "obeys drv D view" and inv: "pgInv (view st)"
  shows "pgInv (view (snd (pgApply drv x st)))"
proof (cases x)
  case (SaveMessageOp m)
  then show ?thesis using SaveMessage_GetMessage_iff [OF ob inv, of m] by (simp add: pgApply_def)
next
  case (CreateRoomOp room)
  then show ?thesis using pg_create(2) [OF ob inv] by (simp add: pgApply_def)
next
  case (DeleteRoomOp r)
  have "pgInv (view (snd (pgDeleteRoom drv r st)))"
    unfolding pgDeleteRoom_def
    by (rule exec_keeps [OF ob inv]) (auto simp: run_delete [OF inv pg_names(1)] intro: pgInv_delete [OF inv pg_names(1)])
  then show ?thesis using DeleteRoomOp by (simp add: pgApply_def)
next
  case (AddRoomMemberOp mb)
  have "pgInv (view (snd (pgAddRoomMember drv mb st)))"
    unfolding pgAddRoomMember_def memberArgs_def [symmetric]
    by (rule exec_keeps [OF ob inv], erule insert_keeps [OF inv pg_names(3)]) (auto simp: neverNull_def member_full)
  then show ?thesis using AddRoomMemberOp by (simp add: pgApply_def)
next
  case (RemoveRoomMemberOp r u)
  then show ?thesis using pg_remove(2) [OF ob inv] by (simp add: pgApply_def)
next
  case (SaveReadReceiptOp rr)
  have "pgInv (view (snd (pgSaveReadReceipt drv rr st)))"
    unfolding pgSaveReadReceipt_def
    by (rule exec_keeps [OF ob inv], erule insert_keeps [OF inv pg_names(4)]) (auto simp: neverNull_def receipt_full)
  then show ?thesis using SaveReadReceiptOp by (simp add: pgApply_def)
qed

lemma find_in: "find P xs = Some x \<Longrightarrow> x \<in> set xs"
  by (induction xs) (auto split: if_splits)

lemma pg_message_room:
  assumes inv: "pgInv ts" and m: "messageAt ts i = Some m"
  shows "pgHasRoom ts (dmRoomID m) \<and> (\<forall>p. dmParent m = Some p \<longrightarrow> messageAt ts p \<noteq> None)"
proof -
  obtain r where r: "r \<in> set (rowsOf ts ''messages'')" "m = rowMessage r"
    using m by (auto simp: messageAt_def dest: find_in)
  note ok = pg_rows [OF inv pg_names(2) r(1)]
  have "isText (cell r ''room_id'')" "cell r ''room_id'' \<noteq> Null" "isText (cell r ''parent_message_id'')"
    using ok(1) by (simp_all add: row_ok_def messagesTable_def fits_iff)
  then show ?thesis
    using ok(2) by (cases "cell r ''room_id''"; cases "cell r ''parent_message_id''")
      (auto simp: r(2) rowMessage_def pgHasRoom_def messageAt_None)
qed

text \<open>
  C17. Whatever is written through the operations of \<^verbatim>\<open>PostgreSQLDB\<close>, in any order and whether each succeeds or fails, the tables stay
  as the schema wants them: every member is in a room that exists, and every message belongs to a room that exists and answers a message that
  exists, if any. So no row can ever fail to be read back.
\<close>

theorem tables_stay_valid:
  assumes ob: "obeys drv D view" and inv: "pgInv (view st)"
  shows "let ts = view (fold (\<lambda>x s. snd (pgApply drv x s)) xs st)
    in pgInv ts \<and> (pgIsMember ts r u \<longrightarrow> pgHasRoom ts r) \<and>
      (messageAt ts i = Some m \<longrightarrow> pgHasRoom ts (dmRoomID m) \<and> (\<forall>p. dmParent m = Some p \<longrightarrow> messageAt ts p \<noteq> None))"
proof -
  have "pgInv (view (fold (\<lambda>x s. snd (pgApply drv x s)) xs st))"
    using inv by (induction xs arbitrary: st) (simp_all add: pgApply_keeps [OF ob])
  then show ?thesis
    using pg_member_room pg_message_room unfolding Let_def by blast
qed

text \<open>
  Deleting a room succeeds and leaves neither the room, nor members, nor messages of it; every other room stays. (The
  in-memory database keeps the messages.)
\<close>

theorem DeleteRoom_cascades:
  assumes ob: "obeys drv D view" and inv: "pgInv (view st)"
  shows "let ts = view (snd (pgDeleteRoom drv r st))
    in fst (pgDeleteRoom drv r st) = None \<and> (pgHasRoom ts r' \<longleftrightarrow> r' \<noteq> r \<and> pgHasRoom (view st) r') \<and> \<not> pgIsMember ts r u \<and>
      roomHistory ts r = [] \<and> messages (snd (memDeleteRoom r m)) = messages m"
proof -
  let ?rs = "filter (\<lambda>x. \<not> matches [''id''] [Text r] x) (rowsOf (view st) ''rooms'')"
  let ?ts = "purge (m_put ''rooms'' (roomsTable, ?rs) (view st))"
  have run: "run D (DELETE ''rooms'' [''id'']) [Text r] (view st) = Inr ?ts" by (rule run_delete [OF inv pg_names(1)])
  have ts: "fst (pgDeleteRoom drv r st) = None" "view (snd (pgDeleteRoom drv r st)) = ?ts"
    using exec_ok [OF ob run] by (simp_all add: pgDeleteRoom_def)
  have inv': "pgInv ?ts" by (rule pgInv_delete [OF inv pg_names(1)])
  have "map_of ?ts ''rooms'' = Some (roomsTable, ?rs)"
    by (rule purge_keeps_table) (auto simp: roomsTable_def gomap_simps)
  then have rooms: "pgHasRoom ?ts r' \<longleftrightarrow> r' \<noteq> r \<and> pgHasRoom (view st) r'" for r'
    by (auto simp: pgHasRoom_def present_def rowsOf_Some matches_def)
  have "cell x ''room_id'' \<noteq> Text r" if "x \<in> set (rowsOf ?ts ''messages'')" for x
    using pg_rows(2) [OF inv' pg_names(2) that] rooms [of r] by (auto simp: pgHasRoom_def)
  then have "roomHistory ?ts r = []" by (simp add: roomHistory_def filter_empty_conv)
  then show ?thesis
    using ts rooms pg_member_room [OF inv'] by (auto simp: Let_def memDeleteRoom_def)
qed

section \<open>Reading\<close>

lemma scanLoop_iff: "scanLoop scan rs acc None = (xs, None) \<longleftrightarrow> (\<exists>ys. map scan rs = map Inr ys \<and> xs = acc @ ys)"
proof (induction rs arbitrary: acc)
  case (Cons r rs)
  show ?case
  proof (cases "scan r")
    case (Inr a)
    then show ?thesis using Cons [of "acc @ [a]"] by (auto simp: Cons_eq_map_conv)
  qed (auto simp: Cons_eq_map_conv)
qed auto

lemma scanLoop_error: "scanLoop scan rs acc (Some e) \<noteq> (xs, None)"
  by (induction rs arbitrary: acc) (auto split: sum.split)

lemma result_iff: "result p = Inr xs \<longleftrightarrow> p = (xs, None)"
  by (cases p) (auto simp: result_def split: option.splits)

lemma queryAll_iff:
  "result (queryAll drv scan q args st) = Inr xs \<longleftrightarrow> (\<exists>rows. dQuery drv q args st = Inr (rows, None) \<and> map scan rows = map Inr xs)"
proof (cases "dQuery drv q args st")
  case (Inr x)
  obtain rows err where x: "x = (rows, err)" by (cases x)
  then show ?thesis
    using Inr scanLoop_iff [of scan rows "[]" xs] by (cases err) (auto simp: queryAll_def result_iff scanLoop_error)
qed (simp add: queryAll_def result_def)

text \<open>
  C33. Whatever a driver does, an answer of \<^verbatim>\<open>PostgreSQLDB\<close> is complete: a list of messages, replies, rooms or members is reported without
  an error exactly if the query succeeded, its rows ended without an error, and each of them could be read; the list is then all of
  them in order. No partial list passes for an answer.
\<close>

theorem answers_complete_or_error:
  "(GetMessages (postgres drv) r l k st = Returned (Inr ms) \<longleftrightarrow>
      (\<exists>rows. dQuery drv selectRoomMessages [Text r, Num l, Num k] st = Inr (rows, None) \<and> map (scanMessage drv) rows = map Inr ms)) \<and>
   (GetThreadMessages (postgres drv) i st = Inr ms \<longleftrightarrow>
      (\<exists>rows. dQuery drv selectThread [Text i] st = Inr (rows, None) \<and> map (scanMessage drv) rows = map Inr ms)) \<and>
   (GetUserRooms (postgres drv) u st = Inr rooms \<longleftrightarrow>
      (\<exists>rows. dQuery drv selectUserRooms [Text u] st = Inr (rows, None) \<and> map (scanRoom drv) rows = map Inr rooms)) \<and>
   (GetRoomMembers (postgres drv) r st = Inr mbs \<longleftrightarrow>
      (\<exists>rows. dQuery drv selectMembers [Text r] st = Inr (rows, None) \<and> map (scanMember drv) rows = map Inr mbs))"
  by (simp add: postgres_def pgGetMessages_def pgGetThreadMessages_def pgGetUserRooms_def pgGetRoomMembers_def queryAll_iff)

end
