(* ===== verification/PgChat.thy ===== *)
theory PgChat
  imports PgOps ChatReach
begin

text \<open>
  The chat server on PostgreSQL: which rooms it can store messages of, and examples of the database at work.
\<close>

section \<open>The rooms made at the start\<close>

lemma defaultRoom_pg:
  assumes "obeys drv D view" and "ops e = postgres drv" and "pgInv (view (db s))" and "okRoomRow D (createRoomRow e (fst x) PublicRoom (snd x))"
  shows "pgInv (view (db (defaultRoom e x s)))" and "pgHasRoom (view (db (defaultRoom e x s))) r \<longleftrightarrow> r = fst x \<or> pgHasRoom (view (db s)) r"
    and "pgIsMember (view (db (defaultRoom e x s))) r u \<longleftrightarrow> pgIsMember (view (db s)) r u"
  using pg_create [OF assms(1,3), of "createRoomRow e (fst x) PublicRoom (snd x)"] assms(4)
  by (auto simp: defaultRoom_def assms(2) postgres_def createRoomRow_def)

lemma defaultRooms_pg:
  assumes ob: "obeys drv D view" and e: "ops e = postgres drv"
  shows "pgInv (view (db s)) \<Longrightarrow> \<forall>x \<in> set xs. okRoomRow D (createRoomRow e (fst x) PublicRoom (snd x)) \<Longrightarrow>
    pgInv (view (db (fold (defaultRoom e) xs s))) \<and>
    (pgHasRoom (view (db (fold (defaultRoom e) xs s))) r \<longleftrightarrow> r \<in> fst ` set xs \<or> pgHasRoom (view (db s)) r) \<and>
    (pgIsMember (view (db (fold (defaultRoom e) xs s))) r u \<longleftrightarrow> pgIsMember (view (db s)) r u)"
proof (induction xs arbitrary: s)
  case (Cons x xs)
  note step = defaultRoom_pg [OF ob e Cons.prems(1), of x]
  show ?case using Cons.IH [of "defaultRoom e x s"] step Cons.prems by auto
qed simp

text \<open>
  Started on PostgreSQL, for the first time or again, the server has its three public rooms in the database, and
  every room, member and the invariant of the tables is kept: creating a room that exists fails, and the server ignores that. (The
  in-memory database, asked to create a room again, forgets its members.)
\<close>

theorem restart_keeps_members:
  assumes ob: "obeys drv D view" and e: "ops e = postgres drv" and inv: "pgInv (view (db s))" and js: "keepJson D ''{}'' \<noteq> None"
  shows "pgInv (view (db (initializeDefaultRooms e s))) \<and>
    (pgHasRoom (view (db (initializeDefaultRooms e s))) r \<longleftrightarrow>
       r \<in> {''public:lobby'', ''public:random'', ''public:help''} \<or> pgHasRoom (view (db s)) r) \<and>
    (pgIsMember (view (db (initializeDefaultRooms e s))) r u \<longleftrightarrow> pgIsMember (view (db s)) r u) \<and>
    \<not> memIsMember (snd (memCreateRoom room m)) (drID room) u"
proof -
  let ?xs = "[(''public:lobby'', ''General Lobby''), (''public:random'', ''Random Chat''), (''public:help'', ''Help & Support'')]"
  have "\<forall>x \<in> set ?xs. okRoomRow D (createRoomRow e (fst x) PublicRoom (snd x))"
    using js by (simp add: okRoomRow_def createRoomRow_def PublicRoom_def)
  from defaultRooms_pg [OF ob e inv this, of r u] memdb.create_new [of id room m u] show ?thesis
    by (simp add: initializeDefaultRooms_def inMemory_def del: fold_simps)
qed

section \<open>Rooms made by joining\<close>

lemma db_joinPublic:
  assumes "hasPrefix r ''public:''" and "map_of (rooms s) r = None" and "cmRoomID msg = r"
  shows "db (handleJoinRoom e c msg s) = db s" and "hasClient (handleJoinRoom e c msg s) r c"
    and "inRooms (cstore (handleJoinRoom e c msg s) c) r"
proof -
  let ?room = "\<lparr>rType = PublicRoom, rName = r, rClients = [], rCreated = now e\<rparr>"
  have g: "getOrCreateRoom e r s = (Inr ?room, putRoom r ?room s)"
    using assms(1,2) by (simp add: getOrCreateRoom_def roomTypeOf_def Let_def)
  have "db (enterRoom r c (putRoom r ?room s)) = db s"
    by (simp add: enterRoom_def gomap_simps)
  moreover have "hasClient (enterRoom r c (putRoom r ?room s)) r c" "inRooms (cstore (enterRoom r c (putRoom r ?room s)) c) r"
    by (simp_all add: hasClient_enterRoom m_has_put) (simp add: enterRoom_def gomap_simps inRooms_put)
  ultimately show "db (handleJoinRoom e c msg s) = db s" "hasClient (handleJoinRoom e c msg s) r c"
    "inRooms (cstore (handleJoinRoom e c msg s) c) r"
    by (simp_all add: handleJoinRoom_def assms(3) g Let_def chat_frame same_srv [OF sendHistory_same] same_client [OF sendHistory_same])
qed

text \<open>
  A public room that a client makes by joining it is in no table. On PostgreSQL every text message to such a room is
  refused with an error to its sender: the row refers to a room that is not there. The database is unchanged and nothing is
  broadcast, although the clients have joined the room. (The in-memory database stores the message.)
\<close>

theorem new_public_rooms_hold_no_messages:
  assumes ob: "obeys drv D view" and e: "ops e = postgres drv" and inv: "pgInv (view (db s))"
    and r: "hasPrefix r ''public:''" "map_of (rooms s) r = None" "\<not> pgHasRoom (view (db s)) r"
    and join: "cmRoomID jmsg = r" and msg: "cmRoomID msg = r" "parsePayload e (cmPayload msg) MessagePayload = Some p"
  shows "hasClient (handleJoinRoom e' c jmsg s) r c \<and>
    (\<exists>err d. handleChatMessage e c msg (handleJoinRoom e' c jmsg s) =
       sendError e c 500 ''Failed to save message'' err ((handleJoinRoom e' c jmsg s)\<lparr>db := d\<rparr>) \<and> view d = view (db s)) \<and>
    (\<exists>m'. memSaveMessage row m = (None, m') \<and> memGetMessage (dmID row) m' = Inr row)"
proof -
  let ?t = "handleJoinRoom e' c jmsg s"
  note t = db_joinPublic [OF r(1,2) join, of e' c]
  let ?row = "emptyRow (strField (setSender (cstore ?t c) (withID e p)) ''messageId'') r (cUserID (cstore ?t c))
    (strField (setSender (cstore ?t c) (withID e p)) ''content'') (cmTimestamp msg) (cmType msg)"
  have "\<not> saveable D drv ?row (view (db s))" using r(3) by (simp add: saveable_iff emptyRow_def)
  then have "fst (pgSaveMessage drv ?row (db s)) \<noteq> None" "view (snd (pgSaveMessage drv ?row (db s))) = view (db s)"
    using SaveMessage_GetMessage_iff [OF ob inv, of ?row] by simp_all
  then obtain err d where "pgSaveMessage drv ?row (db s) = (Some err, d)" "view d = view (db s)"
    by (cases "pgSaveMessage drv ?row (db s)") auto
  then have "handleChatMessage e c msg ?t = sendError e c 500 ''Failed to save message'' err (?t\<lparr>db := d\<rparr>) \<and> view d = view (db s)"
    using t msg by (simp add: handleChatMessage_def withPayload_def saveRow_def Let_def e postgres_def)
  then show ?thesis using t(2) by (auto simp: memSaveMessage_def memGetMessage_def gomap_simps)
qed

section \<open>Examples\<close>

definition demo_pg :: "tables driver" where
  "demo_pg = reference demo_dialect"

lemma demo_obeys: "obeys demo_pg demo_dialect id"
  by (simp add: demo_pg_def reference_obeys)

definition demo_withRoom :: tables where
  "demo_withRoom = snd (pgCreateRoom demo_pg demo_room emptyTables)"

lemma demo_withRoom_inv: "pgInv demo_withRoom"
  using pg_create(2) [OF demo_obeys, of emptyTables demo_room] pgInv_empty by (simp add: demo_withRoom_def)

theorem NewPostgreSQLDB_ready_witness:
  "(\<exists>st'. NewPostgreSQLDB (\<lambda>_. None) None demo_pg ''postgres://'' [] = (Inr demo_pg, st') \<and> pgInv st' \<and> st' = emptyTables) \<and>
   (\<exists>e st'. NewPostgreSQLDB (\<lambda>_. Some ''refused'') None demo_pg ''postgres://'' [] = (Inl e, st'))"
  using NewPostgreSQLDB_ready [OF demo_obeys, of "[]" "\<lambda>_. None" "''postgres://''" None]
    NewPostgreSQLDB_ready [OF demo_obeys, of "[]" "\<lambda>_. Some ''refused''" "''postgres://''" None demo_pg] by auto

definition demo_upload :: DBMessage where
  "demo_upload = \<lparr>dmID = ''m1'', dmRoomID = ''group:g'', dmSenderID = ''u'', dmContent = ''look'', dmTimestamp = 1500, dmParent = None,
     dmType = ''file'', dmFileData = None, dmFileName = Some ''x.txt'', dmFileSize = Some 3, dmFileURL = Some ''/files/x.txt'',
     dmFileType = None, dmMediaData = None, dmMediaType = None, dmDuration = Some 7, dmLatitude = Some 0x404A000000000000,
     dmLongitude = None\<rparr>"

definition demo_reply :: DBMessage where
  "demo_reply = demo_upload\<lparr>dmID := ''m2'', dmTimestamp := 9000, dmParent := Some ''m1'', dmFileURL := None\<rparr>"

definition demo_saved1 :: tables where
  "demo_saved1 = snd (pgSaveMessage demo_pg demo_upload demo_withRoom)"

definition demo_saved2 :: tables where
  "demo_saved2 = snd (pgSaveMessage demo_pg demo_reply demo_saved1)"


lemma demo_saved_inv: "pgInv demo_saved2"
proof -
  have "pgInv (id demo_saved1)"
    using SaveMessage_GetMessage_iff [OF demo_obeys, of demo_withRoom demo_upload] demo_withRoom_inv by (simp add: demo_saved1_def)
  from SaveMessage_GetMessage_iff [OF demo_obeys this, of demo_reply] show ?thesis
    by (simp add: demo_saved2_def)
qed

theorem history_newest_first_witness:
  "map dmID (fst (pgGetMessages demo_pg ''group:g'' (int 1) (int 0) demo_saved2)) = [''m2''] \<and>
   (\<exists>all. mset all = mset (roomHistory demo_saved2 ''group:g'') \<and>
      pgGetMessages demo_pg ''group:g'' (int 1) (int 0) demo_saved2 = (take 1 (drop 0 all), None)) \<and>
   (\<exists>e. pgGetMessages demo_pg ''group:g'' (- 1) 0 demo_saved2 = ([], Some e)) \<and>
   pgGetThreadMessages demo_pg ''m1'' demo_saved2 = ([demo_reply], None)"
proof -
  have inv: "pgInv (id demo_saved2)" by (simp add: demo_saved_inv)
  have "map dmID (fst (pgGetMessages demo_pg ''group:g'' (int 1) (int 0) demo_saved2)) = [''m2'']"
    "pgGetThreadMessages demo_pg ''m1'' demo_saved2 = ([demo_reply], None)" by code_simp+
  then show ?thesis
    using history_newest_first [OF demo_obeys inv, of "''group:g''" 1 0 "- 1" 0 "''m1''"] by auto
qed

definition demo_pg_env :: "tables env" where
  "demo_pg_env = \<lparr>ops = postgres demo_pg, security = security demo_env, now = 0, rnd = replicate 16 0, ord = id,
     parse = (\<lambda>_. None), sprint = (\<lambda>_. ''''), timeOk = (\<lambda>_. True), timeText = (\<lambda>_. ''''), jsonErr = '''', writeErr = None\<rparr>"

definition demo_member :: tables where
  "demo_member = snd (pgAddRoomMember demo_pg \<lparr>mbRoomID = ''group:g'', mbUserID = ''u'', mbRole = ''admin'', mbJoinedAt = 0\<rparr> demo_withRoom)"

theorem restart_keeps_members_witness:
  "pgHasRoom (db (initializeDefaultRooms demo_pg_env (NewChatServer demo_member))) ''public:lobby'' \<and>
   pgIsMember (db (initializeDefaultRooms demo_pg_env (NewChatServer demo_member))) ''group:g'' ''u''"
proof -
  have mb: "okMemberRow \<lparr>mbRoomID = ''group:g'', mbUserID = ''u'', mbRole = ''admin'', mbJoinedAt = 0\<rparr>"
    "pgHasRoom (id demo_withRoom) (mbRoomID \<lparr>mbRoomID = ''group:g'', mbUserID = ''u'', mbRole = ''admin'', mbJoinedAt = 0\<rparr>)"
    by code_simp+
  have inv: "pgInv (id demo_withRoom)" by (simp add: demo_withRoom_inv)
  have "pgInv (id (db (NewChatServer demo_member)))" "pgIsMember (id (db (NewChatServer demo_member))) ''group:g'' ''u''"
    using pg_add(2,4) [OF demo_obeys inv mb] by (simp_all add: demo_member_def NewChatServer_def)
  then show ?thesis
    using restart_keeps_members [OF demo_obeys, of demo_pg_env "NewChatServer demo_member"]
    by (simp add: demo_pg_env_def demo_dialect_def)
qed

definition demo_hello :: ChatMessage where
  "demo_hello = \<lparr>cmType = TMessage, cmRoomID = ''public:new'', cmMessageID = '''', cmPayload = PRaw (JObj [(''content'', JStr ''hi'')]),
     cmTimestamp = 0\<rparr>"

theorem new_public_rooms_hold_no_messages_witness:
  "hasClient (handleJoinRoom demo_pg_env ''c1'' demo_hello (NewChatServer emptyTables)) ''public:new'' ''c1'' \<and>
   (\<exists>err d. handleChatMessage demo_pg_env ''c1'' demo_hello (handleJoinRoom demo_pg_env ''c1'' demo_hello (NewChatServer emptyTables)) =
      sendError demo_pg_env ''c1'' 500 ''Failed to save message'' err
        ((handleJoinRoom demo_pg_env ''c1'' demo_hello (NewChatServer emptyTables))\<lparr>db := d\<rparr>) \<and> d = emptyTables)"
proof -
  have "hasPrefix ''public:new'' ''public:''" "map_of (rooms (NewChatServer emptyTables)) ''public:new'' = None"
    "\<not> pgHasRoom (id (db (NewChatServer emptyTables))) ''public:new''" "cmRoomID demo_hello = ''public:new''"
    "parsePayload demo_pg_env (cmPayload demo_hello) MessagePayload \<noteq> None"
    by code_simp+
  moreover have "ops demo_pg_env = postgres demo_pg" "pgInv (id (db (NewChatServer emptyTables)))"
    by (simp_all add: demo_pg_env_def NewChatServer_def pgInv_empty)
  ultimately show ?thesis
    using new_public_rooms_hold_no_messages [OF demo_obeys, of demo_pg_env "NewChatServer emptyTables" "''public:new''" demo_hello demo_hello]
    by (fastforce simp: NewChatServer_def)
qed

theorem tables_stay_valid_witness:
  "let ts = fold (\<lambda>x s. snd (pgApply demo_pg x s))
       [CreateRoomOp demo_room, SaveMessageOp demo_upload, SaveMessageOp demo_reply, DeleteRoomOp ''group:g'',
        SaveMessageOp demo_reply] emptyTables
   in pgInv ts \<and> messageAt ts ''m2'' = None"
proof -
  let ?xs = "[CreateRoomOp demo_room, SaveMessageOp demo_upload, SaveMessageOp demo_reply, DeleteRoomOp ''group:g'',
    SaveMessageOp demo_reply]"
  have "messageAt (fold (\<lambda>x s. snd (pgApply demo_pg x s)) ?xs emptyTables) ''m2'' = None" by code_simp
  moreover have "pgInv (id emptyTables)" by (simp add: pgInv_empty)
  ultimately show ?thesis
    using tables_stay_valid [OF demo_obeys, of emptyTables ?xs] unfolding Let_def by auto
qed

theorem DeleteRoom_cascades_witness:
  "map dmID (roomHistory demo_saved2 ''group:g'') = [''m1'', ''m2''] \<and>
   roomHistory (snd (pgDeleteRoom demo_pg ''group:g'' demo_saved2)) ''group:g'' = []"
proof -
  have "pgInv (id demo_saved2)" using demo_saved_inv by simp
  moreover have "map dmID (roomHistory demo_saved2 ''group:g'') = [''m1'', ''m2'']" by code_simp
  ultimately show ?thesis
    using DeleteRoom_cascades [OF demo_obeys, of demo_saved2 "''group:g''"] unfolding Let_def by auto
qed

end
