(* ===== verification/Locks.thy ===== *)
theory Locks
  imports Prelude
begin

text \<open>
  Goroutines that take locks: the part of a Go program that decides whether it can get stuck, and whether two goroutines
  can touch a map at the same time. A goroutine is a list of operations; the choices it makes (branches, how often a loop
  runs) are made when the list is chosen. Goroutine 0 serves requests over unbuffered channels, one at a time, as the
  hub of the event server does.
\<close>

section \<open>Goroutines\<close>

text \<open>
  \<open>Acq True l\<close> is \<^verbatim>\<open>l.Lock()\<close>, \<open>Acq False l\<close> is \<^verbatim>\<open>l.RLock()\<close>, \<open>Rel l\<close> unlocks; \<open>Acc w v\<close> reads or writes (\<open>w\<close>) a
  variable that goroutines share; \<open>Req job\<close> hands \<open>job\<close> to goroutine 0, once that is waiting for requests.
\<close>

datatype ('l, 'v) op = Acq bool 'l | Rel 'l | Acc bool 'v | Req "('l, 'v) op list"

record ('l, 'v) routine =
  code :: "('l, 'v) op list"
  locks :: "('l \<times> bool) list"

definition holds :: "('l, 'v) routine \<Rightarrow> 'l \<Rightarrow> bool" where
  "holds g l \<longleftrightarrow> l \<in> fst ` set (locks g)"

text \<open>A goroutine that is about to lock, or waits in \<^verbatim>\<open>Lock\<close>.\<close>

definition wants :: "('l, 'v) routine \<Rightarrow> 'l \<Rightarrow> bool" where
  "wants g l \<longleftrightarrow> (case code g of Acq True l' # _ \<Rightarrow> l' = l | _ \<Rightarrow> False)"

text \<open>
  Whether goroutine \<open>i\<close> may go on: a writer waits for everybody, a reader for a writer that holds the lock; and no lock can be taken
  twice, not even by its own holder.
\<close>

definition able :: "('l, 'v) routine list \<Rightarrow> nat \<Rightarrow> bool" where
  "able cs i \<longleftrightarrow> i < length cs \<and>
     (case code (cs ! i) of
        [] \<Rightarrow> False
      | Acq w l # _ \<Rightarrow> (if w then list_all (\<lambda>g. \<not> holds g l) cs
                         else list_all (\<lambda>g. (l, True) \<notin> set (locks g)) cs)
      | Rel l # _ \<Rightarrow> True
      | Acc w v # _ \<Rightarrow> True
      | Req job # _ \<Rightarrow> i \<noteq> 0 \<and> code (cs ! 0) = [])"

text \<open>
  Whether it can be relied on to go on. \<^verbatim>\<open>sync.RWMutex\<close> lets writers that wait go before readers that come later, so a reader may have to wait for them
  too.
\<close>

definition ready :: "('l, 'v) routine list \<Rightarrow> nat \<Rightarrow> bool" where
  "ready cs i \<longleftrightarrow> able cs i \<and>
     (case code (cs ! i) of Acq False l # _ \<Rightarrow> list_all (\<lambda>g. \<not> wants g l) cs | _ \<Rightarrow> True)"

definition fire :: "('l, 'v) routine list \<Rightarrow> nat \<Rightarrow> ('l, 'v) routine list" where
  "fire cs i =
     (let g = cs ! i
      in case code g of
           [] \<Rightarrow> cs
         | Acq w l # p \<Rightarrow> cs[i := \<lparr>code = p, locks = (l, w) # locks g\<rparr>]
         | Rel l # p \<Rightarrow> cs[i := \<lparr>code = p, locks = filter (\<lambda>x. fst x \<noteq> l) (locks g)\<rparr>]
         | Acc w v # p \<Rightarrow> cs[i := \<lparr>code = p, locks = locks g\<rparr>]
         | Req job # p \<Rightarrow> cs[i := \<lparr>code = p, locks = locks g\<rparr>, 0 := (cs ! 0)\<lparr>code := job\<rparr>])"

text \<open>
  A schedule says whose turn it is, and whether, if that is a reader, it gets past the writers. A goroutine that cannot go on waits. Whatever
  \<^verbatim>\<open>sync.RWMutex\<close> and the scheduler do is one of these schedules.
\<close>

fun exec :: "('l, 'v) routine list \<Rightarrow> (nat \<times> bool) list \<Rightarrow> ('l, 'v) routine list" where
  "exec cs [] = cs"
| "exec cs ((i, eager) # sched) = exec (if able cs i \<and> (eager \<or> ready cs i) then fire cs i else cs) sched"

definition start :: "('l, 'v) op list list \<Rightarrow> ('l, 'v) routine list" where
  "start ps = \<lparr>code = [], locks = []\<rparr> # map (\<lambda>p. \<lparr>code = p, locks = []\<rparr>) ps"

definition finished :: "('l, 'v) routine list \<Rightarrow> bool" where
  "finished cs \<longleftrightarrow> list_all (\<lambda>g. code g = [] \<and> locks g = []) cs"

text \<open>Two goroutines are about to touch a variable, and one of them to change it.\<close>

definition racing :: "('l, 'v) routine list \<Rightarrow> 'v \<Rightarrow> bool" where
  "racing cs v \<longleftrightarrow> (\<exists>i < length cs. \<exists>j < length cs. i \<noteq> j \<and>
     (\<exists>p. code (cs ! i) = Acc True v # p) \<and> (\<exists>w p. code (cs ! j) = Acc w v # p))"

lemma exec_append: "exec cs (xs @ ys) = exec (exec cs xs) ys"
  by (induction cs xs rule: exec.induct) simp_all

lemma length_fire [simp]: "length (fire cs i) = length cs"
  by (auto simp: fire_def Let_def split: list.split op.split)

lemma able_length: "able cs i \<Longrightarrow> i < length cs"
  by (simp add: able_def)

lemma ready_able: "ready cs i \<Longrightarrow> able cs i"
  by (simp add: ready_def)

lemma nth_update_two:
  "j < length xs \<Longrightarrow> i \<noteq> 0 \<Longrightarrow> xs[i := a, 0 := b] ! j = (if j = 0 then b else if j = i then a else xs ! j)"
  by (cases "j = 0"; cases "j = i") simp_all

text \<open>The cases of a step.\<close>

lemma able_cases:
  assumes "able cs i"
  obtains (acq) w l p where "code (cs ! i) = Acq w l # p"
      "fire cs i = cs[i := \<lparr>code = p, locks = (l, w) # locks (cs ! i)\<rparr>]"
      "\<And>j. j < length cs \<Longrightarrow> (l, True) \<notin> set (locks (cs ! j))" "\<And>j. j < length cs \<Longrightarrow> w \<Longrightarrow> \<not> holds (cs ! j) l"
  | (rel) l p where "code (cs ! i) = Rel l # p"
      "fire cs i = cs[i := \<lparr>code = p, locks = filter (\<lambda>x. fst x \<noteq> l) (locks (cs ! i))\<rparr>]"
  | (acc) w v p where "code (cs ! i) = Acc w v # p" "fire cs i = cs[i := \<lparr>code = p, locks = locks (cs ! i)\<rparr>]"
  | (req) job p where "code (cs ! i) = Req job # p" "i \<noteq> 0" "code (cs ! 0) = []"
      "fire cs i = cs[i := \<lparr>code = p, locks = locks (cs ! i)\<rparr>, 0 := (cs ! 0)\<lparr>code := job\<rparr>]"
proof (cases "code (cs ! i)")
  case Nil
  then show thesis using assms by (simp add: able_def)
next
  case (Cons x p)
  show thesis
  proof (cases x)
    case (Acq w l)
    show thesis
      by (rule acq [of w l p])
        (use assms Cons Acq in \<open>force simp: able_def fire_def holds_def list_all_length split: if_splits\<close>)+
  next
    case (Rel l)
    then show thesis using rel [of l p] Cons by (simp add: fire_def)
  next
    case (Acc w v)
    then show thesis using acc [of w v p] Cons by (simp add: fire_def)
  next
    case (Req job)
    then show thesis using req [of job p] Cons assms by (simp add: fire_def able_def)
  qed
qed

section \<open>Mutual exclusion\<close>

definition exclusive :: "('l, 'v) routine list \<Rightarrow> bool" where
  "exclusive cs \<longleftrightarrow> (\<forall>i < length cs. \<forall>j < length cs. \<forall>l. i \<noteq> j \<longrightarrow> (l, True) \<in> set (locks (cs ! i)) \<longrightarrow> \<not> holds (cs ! j) l)"

lemma exclusiveD:
  "exclusive cs \<Longrightarrow> i < length cs \<Longrightarrow> j < length cs \<Longrightarrow> i \<noteq> j \<Longrightarrow> (l, True) \<in> set (locks (cs ! i)) \<Longrightarrow> \<not> holds (cs ! j) l"
  by (simp add: exclusive_def)

lemma exclusive_fewer:
  assumes "exclusive cs" and "length ds = length cs" and "\<And>i. i < length cs \<Longrightarrow> set (locks (ds ! i)) \<subseteq> set (locks (cs ! i))"
  shows "exclusive ds"
  using assms unfolding exclusive_def holds_def by (metis image_mono subsetD)

lemma exclusive_fire:
  assumes "exclusive cs" and "able cs i"
  shows "exclusive (fire cs i)"
  using assms(2)
proof (cases rule: able_cases)
  case (acq w l p)
  have i: "i < length cs" using assms(2) by (rule able_length)
  show ?thesis
    unfolding exclusive_def acq(2)
  proof (intro allI impI)
    fix a b m
    let ?cs = "cs[i := \<lparr>code = p, locks = (l, w) # locks (cs ! i)\<rparr>]"
    assume "a < length ?cs" "b < length ?cs" "a \<noteq> b" "(m, True) \<in> set (locks (?cs ! a))"
    then show "\<not> holds (?cs ! b) m"
      using acq(3) [of a] acq(4) [of b] exclusiveD [OF assms(1), of a b m] i
      by (cases "a = i"; cases "b = i") (auto simp: holds_def)
  qed
next
  case (rel l p)
  show ?thesis unfolding rel(2) by (rule exclusive_fewer [OF assms(1)]) (use able_length [OF assms(2)] in \<open>auto simp: nth_list_update split: if_splits\<close>)
next
  case (acc w v p)
  show ?thesis unfolding acc(2) by (rule exclusive_fewer [OF assms(1)]) (use able_length [OF assms(2)] in \<open>auto simp: nth_list_update split: if_splits\<close>)
next
  case (req job p)
  show ?thesis unfolding req(4) by (rule exclusive_fewer [OF assms(1)]) (auto simp: nth_update_two req(2) split: if_splits)
qed

lemma exclusive_exec: "exclusive cs \<Longrightarrow> exclusive (exec cs sched)"
  by (induction cs sched rule: exec.induct) (simp_all add: exclusive_fire)

lemma exclusive_start: "exclusive (start ps)"
  by (auto simp: exclusive_def start_def nth_Cons' holds_def)

section \<open>The lock order\<close>

text \<open>
  The discipline that keeps a program going: every lock has a rank, and locks are taken in ascending order. A goroutine that
  waits for goroutine 0 holds only locks ranked below \<open>hub\<close>, and the requests that goroutine 0 serves take only locks
  ranked above it. Every goroutine gives back what it took.
\<close>

fun jobOk :: "('l \<Rightarrow> nat) \<Rightarrow> nat \<Rightarrow> ('l, 'v) op list \<Rightarrow> 'l list \<Rightarrow> bool" where
  "jobOk rank hub [] h \<longleftrightarrow> h = []"
| "jobOk rank hub (Acq w l # p) h \<longleftrightarrow> hub < rank l \<and> list_all (\<lambda>m. rank m < rank l) h \<and> jobOk rank hub p (l # h)"
| "jobOk rank hub (Rel l # p) h \<longleftrightarrow> List.member h l \<and> jobOk rank hub p (filter (\<lambda>m. m \<noteq> l) h)"
| "jobOk rank hub (Acc w v # p) h \<longleftrightarrow> jobOk rank hub p h"
| "jobOk rank hub (Req job # p) h \<longleftrightarrow> False"

fun ordered :: "('l \<Rightarrow> nat) \<Rightarrow> nat \<Rightarrow> ('l, 'v) op list \<Rightarrow> 'l list \<Rightarrow> bool" where
  "ordered rank hub [] h \<longleftrightarrow> h = []"
| "ordered rank hub (Acq w l # p) h \<longleftrightarrow> list_all (\<lambda>m. rank m < rank l) h \<and> ordered rank hub p (l # h)"
| "ordered rank hub (Rel l # p) h \<longleftrightarrow> List.member h l \<and> ordered rank hub p (filter (\<lambda>m. m \<noteq> l) h)"
| "ordered rank hub (Acc w v # p) h \<longleftrightarrow> ordered rank hub p h"
| "ordered rank hub (Req job # p) h \<longleftrightarrow> list_all (\<lambda>m. rank m < hub) h \<and> jobOk rank hub job [] \<and> ordered rank hub p h"

abbreviation held :: "('l, 'v) routine \<Rightarrow> 'l list" where
  "held g \<equiv> map fst (locks g)"

definition lawful :: "('l \<Rightarrow> nat) \<Rightarrow> nat \<Rightarrow> ('l, 'v) routine list \<Rightarrow> bool" where
  "lawful rank hub cs \<longleftrightarrow> cs \<noteq> [] \<and> jobOk rank hub (code (cs ! 0)) (held (cs ! 0)) \<and>
     (\<forall>i < length cs. 0 < i \<longrightarrow> ordered rank hub (code (cs ! i)) (held (cs ! i)))"

lemma held_filter: "map fst (filter (\<lambda>x. fst x \<noteq> l) xs) = filter (\<lambda>m. m \<noteq> l) (map fst xs)"
  by (simp add: filter_map comp_def)

lemma lawfulD:
  assumes "lawful rank hub cs" and "i < length cs"
  shows "if i = 0 then jobOk rank hub (code (cs ! i)) (held (cs ! i)) else ordered rank hub (code (cs ! i)) (held (cs ! i))"
  using assms by (simp add: lawful_def)

lemma lawfulI:
  assumes "cs \<noteq> []"
    and "\<And>i. i < length cs \<Longrightarrow>
      if i = 0 then jobOk rank hub (code (cs ! i)) (held (cs ! i)) else ordered rank hub (code (cs ! i)) (held (cs ! i))"
  shows "lawful rank hub cs"
  using assms by (fastforce simp: lawful_def split: if_splits)

text \<open>One step of one goroutine keeps the discipline.\<close>

lemma lawful_step:
  assumes "lawful rank hub cs" and "i < length cs"
    and "jobOk rank hub (code (cs ! i)) (held (cs ! i)) \<Longrightarrow> jobOk rank hub (code g) (held g)"
    and "ordered rank hub (code (cs ! i)) (held (cs ! i)) \<Longrightarrow> ordered rank hub (code g) (held g)"
  shows "lawful rank hub (cs[i := g])"
proof (rule lawfulI)
  show "cs[i := g] \<noteq> []" using assms(2) by auto
next
  fix j assume "j < length (cs[i := g])"
  then show "if j = 0 then jobOk rank hub (code (cs[i := g] ! j)) (held (cs[i := g] ! j))
             else ordered rank hub (code (cs[i := g] ! j)) (held (cs[i := g] ! j))"
    using lawfulD [OF assms(1), of j] assms(2-4) by (cases "j = i") (auto split: if_splits)
qed

lemma lawful_fire:
  assumes "lawful rank hub cs" and "able cs i"
  shows "lawful rank hub (fire cs i)"
  using assms(2)
proof (cases rule: able_cases)
  case (acq w l p)
  have i: "i < length cs" using assms(2) by (rule able_length)
  show ?thesis unfolding acq(2) by (rule lawful_step [OF assms(1) i]) (simp_all add: acq(1))
next
  case (rel l p)
  have i: "i < length cs" using assms(2) by (rule able_length)
  show ?thesis unfolding rel(2) by (rule lawful_step [OF assms(1) i]) (simp_all add: rel(1) held_filter)
next
  case (acc w v p)
  have i: "i < length cs" using assms(2) by (rule able_length)
  show ?thesis unfolding acc(2) by (rule lawful_step [OF assms(1) i]) (simp_all add: acc(1))
next
  case (req job p)
  have i: "i < length cs" using assms(2) by (rule able_length)
  have o: "ordered rank hub (Req job # p) (held (cs ! i))" using lawfulD [OF assms(1) i] req(1,2) by simp
  have h: "locks (cs ! 0) = []" using lawfulD [OF assms(1), of 0] i req(3) by fastforce
  let ?cs = "cs[i := \<lparr>code = p, locks = locks (cs ! i)\<rparr>]"
  have "lawful rank hub ?cs" by (rule lawful_step [OF assms(1) i]) (simp_all add: req(1))
  note D = lawfulD [OF this]
  show ?thesis unfolding req(4)
  proof (rule lawfulI)
    show "?cs[0 := (cs ! 0)\<lparr>code := job\<rparr>] \<noteq> []" using i by auto
  next
    fix j assume j: "j < length (?cs[0 := (cs ! 0)\<lparr>code := job\<rparr>])"
    show "if j = 0 then jobOk rank hub (code (?cs[0 := (cs ! 0)\<lparr>code := job\<rparr>] ! j)) (held (?cs[0 := (cs ! 0)\<lparr>code := job\<rparr>] ! j))
               else ordered rank hub (code (?cs[0 := (cs ! 0)\<lparr>code := job\<rparr>] ! j)) (held (?cs[0 := (cs ! 0)\<lparr>code := job\<rparr>] ! j))"
    proof (cases "j = 0")
      case True
      then show ?thesis using o h i j by (simp add: nth_update_two req(2))
    next
      case False
      then show ?thesis using D [of j] j by simp
    qed
  qed
qed

lemma lawful_exec: "lawful rank hub cs \<Longrightarrow> lawful rank hub (exec cs sched)"
  by (induction cs sched rule: exec.induct) (simp_all add: lawful_fire)

lemma lawful_start: "list_all (\<lambda>p. ordered rank hub p []) ps \<Longrightarrow> lawful rank hub (start ps)"
  by (rule lawfulI) (auto simp: start_def nth_Cons list_all_length split: nat.split)

section \<open>No deadlock\<close>

text \<open>What a goroutine waits for, when it is about to take a lock.\<close>

definition next_lock :: "('l, 'v) routine \<Rightarrow> 'l option" where
  "next_lock g = (case code g of Acq w l # _ \<Rightarrow> Some l | _ \<Rightarrow> None)"

lemma ordered_holder: "ordered rank hub p h \<Longrightarrow> m \<in> set h \<Longrightarrow> p \<noteq> []"
  by (cases p) auto

lemma jobOk_holder: "jobOk rank hub p h \<Longrightarrow> m \<in> set h \<Longrightarrow> p \<noteq> []"
  by (cases p) auto

lemma finished_iff: "finished cs \<longleftrightarrow> (\<forall>i < length cs. code (cs ! i) = [] \<and> locks (cs ! i) = [])"
  by (simp add: finished_def list_all_length)

text \<open>A goroutine that waits for a lock waits for one that somebody holds.\<close>

lemma blocked_held:
  assumes "i < length cs" and "next_lock (cs ! i) = Some l" and "\<And>j. \<not> ready cs j"
  shows "\<exists>k < length cs. holds (cs ! k) l"
proof (rule ccontr)
  assume "\<not> ?thesis"
  then have free: "\<not> holds (cs ! k) l" if "k < length cs" for k using that by blast
  then have ww: "ready cs k" if "k < length cs" "wants (cs ! k) l" for k
    using that by (auto simp: ready_def able_def wants_def list_all_length split: list.splits op.splits bool.splits)
  obtain w p where "code (cs ! i) = Acq w l # p"
    using assms(2) by (auto simp: next_lock_def split: list.splits op.splits)
  moreover have "(l, True) \<notin> set (locks (cs ! k))" if "k < length cs" for k
    using free [OF that] by (force simp: holds_def)
  ultimately have "ready cs i"
    using ww free assms(1,3) by (auto simp: ready_def able_def list_all_length)
  then show False using assms(3) by blast
qed

text \<open>Its holder waits too: for a lock of higher rank, or for goroutine 0.\<close>

lemma holder_waits:
  assumes "lawful rank hub cs" and "k < length cs" and "holds (cs ! k) l" and "\<And>j. \<not> ready cs j"
  obtains j m where "j < length cs" and "next_lock (cs ! j) = Some m" and "rank l < rank m"
proof -
  have mem: "l \<in> set (held (cs ! k))" using assms(3) by (simp add: holds_def)
  note L = lawfulD [OF assms(1,2)]
  have ne: "code (cs ! k) \<noteq> []" using L mem by (auto split: if_splits dest: ordered_holder jobOk_holder)
  then obtain x p where c: "code (cs ! k) = x # p" by (cases "code (cs ! k)") auto
  show thesis
  proof (cases x)
    case (Acq w m)
    then show thesis
      using that [of k m] L mem c assms(2) by (auto simp: next_lock_def list_all_iff split: if_splits)
  next
    case (Rel m)
    then show thesis using assms(4) [of k] c assms(2) by (simp add: ready_def able_def)
  next
    case (Acc w v)
    then show thesis using assms(4) [of k] c assms(2) by (simp add: ready_def able_def)
  next
    case (Req job)
    have k0: "k \<noteq> 0" using L c Req by (auto split: if_splits)
    then have lt: "rank l < hub" using L mem c Req by (auto simp: list_all_iff)
    have b: "code (cs ! 0) \<noteq> []" using assms(4) [of k] c Req assms(2) k0 by (simp add: ready_def able_def)
    have z: "0 < length cs" using assms(2) by linarith
    obtain y q where c0: "code (cs ! 0) = y # q" using b by (cases "code (cs ! 0)") auto
    note L0 = lawfulD [OF assms(1) z]
    show thesis
    proof (cases y)
      case (Acq w m)
      then show thesis using that [of 0 m] z c0 L0 lt by (simp add: next_lock_def)
    next
      case (Rel m)
      then show thesis using assms(4) [of 0] c0 z by (simp add: ready_def able_def)
    next
      case (Acc w v)
      then show thesis using assms(4) [of 0] c0 z by (simp add: ready_def able_def)
    next
      case (Req job')
      then show thesis using L0 c0 by simp
    qed
  qed
qed

lemma no_lock_waited:
  assumes "lawful rank hub cs" and "\<And>j. \<not> ready cs j" and "i < length cs"
  shows "next_lock (cs ! i) = None"
proof (rule ccontr)
  let ?W = "{rank m |j m. j < length cs \<and> next_lock (cs ! j) = Some m}"
  have "?W = (\<lambda>j. rank (the (next_lock (cs ! j)))) ` {j. j < length cs \<and> next_lock (cs ! j) \<noteq> None}" by force
  then have fin: "finite ?W" by simp
  assume "next_lock (cs ! i) \<noteq> None"
  then have "?W \<noteq> {}" using assms(3) by auto
  then obtain j m where j: "j < length cs" "next_lock (cs ! j) = Some m" "rank m = Max ?W"
    using Max_in [OF fin] by auto
  obtain k where k: "k < length cs" "holds (cs ! k) m" using blocked_held [OF j(1,2) assms(2)] by blast
  obtain j' m' where "j' < length cs" "next_lock (cs ! j') = Some m'" "rank m < rank m'"
    using holder_waits [OF assms(1) k assms(2)] .
  moreover from this have "rank m' \<le> Max ?W" using fin by (intro Max_ge) auto
  ultimately show False using j(3) by simp
qed

lemma lawful_progress:
  assumes "lawful rank hub cs" and "\<not> finished cs"
  shows "\<exists>i. ready cs i"
proof (rule ccontr)
  assume "\<nexists>i. ready cs i"
  then have n: "\<not> ready cs j" for j by blast
  have idle: "code (cs ! i) = [] \<or> i \<noteq> 0 \<and> (\<exists>job p. code (cs ! i) = Req job # p)" if i: "i < length cs" for i
    using no_lock_waited [OF assms(1) n i] n [of i] lawfulD [OF assms(1) i] i
    by (auto simp: next_lock_def ready_def able_def split: list.splits op.splits if_splits)
  have z: "0 < length cs" using assms(1) by (auto simp: lawful_def)
  have "code (cs ! i) = []" if i: "i < length cs" for i
    using idle [OF i] idle [OF z] n [of i] i by (auto simp: ready_def able_def)
  then have "finished cs"
    unfolding finished_iff using lawfulD [OF assms(1)] by (fastforce split: if_splits)
  then show False using assms(2) by simp
qed

section \<open>Every run ends\<close>

fun op_count :: "('l, 'v) op list \<Rightarrow> nat" where
  "op_count [] = 0"
| "op_count (Req job # p) = Suc (op_count job + op_count p)"
| "op_count (Acq w l # p) = Suc (op_count p)"
| "op_count (Rel l # p) = Suc (op_count p)"
| "op_count (Acc w v # p) = Suc (op_count p)"

definition work :: "('l, 'v) routine list \<Rightarrow> nat" where
  "work cs = sum_list (map (\<lambda>g. op_count (code g)) cs)"

lemma work_update:
  "i < length cs \<Longrightarrow> work (cs[i := g]) + op_count (code (cs ! i)) = work cs + op_count (code g)"
  by (induction cs arbitrary: i) (auto simp: work_def nth_Cons' split: nat.splits)

lemma work_fire:
  assumes "able cs i"
  shows "work cs = Suc (work (fire cs i))"
  using assms
proof (cases rule: able_cases)
  case (req job p)
  let ?cs = "cs[i := \<lparr>code = p, locks = locks (cs ! i)\<rparr>]"
  have i: "i < length cs" using assms by (rule able_length)
  then have "0 < length ?cs" by auto
  from work_update [OF this, of "(cs ! 0)\<lparr>code := job\<rparr>"]
  have "work (?cs[0 := (cs ! 0)\<lparr>code := job\<rparr>]) = work ?cs + op_count job" using req(2,3) by simp
  moreover have "work ?cs + Suc (op_count job + op_count p) = work cs + op_count p"
    using work_update [OF i, of "\<lparr>code = p, locks = locks (cs ! i)\<rparr>"] req(1) by simp
  ultimately show ?thesis unfolding req(4) by simp
next
  case (acq w l p)
  then show ?thesis using work_update [OF able_length [OF assms], of "\<lparr>code = p, locks = (l, w) # locks (cs ! i)\<rparr>"] by simp
next
  case (rel l p)
  then show ?thesis
    using work_update [OF able_length [OF assms], of "\<lparr>code = p, locks = filter (\<lambda>x. fst x \<noteq> l) (locks (cs ! i))\<rparr>"] by simp
next
  case (acc w v p)
  then show ?thesis using work_update [OF able_length [OF assms], of "\<lparr>code = p, locks = locks (cs ! i)\<rparr>"] by simp
qed

lemma work_exec: "work (exec cs sched) \<le> work cs"
proof (induction cs sched rule: exec.induct)
  case (2 cs i eager sched)
  then show ?case using work_fire [of cs i] by (cases "able cs i \<and> (eager \<or> ready cs i)") auto
qed simp

text \<open>A round in which everybody gets a turn does some work: somebody is ready, and stays so until somebody else has gone on.\<close>

lemma round_works: "ready cs i \<Longrightarrow> i \<in> fst ` set sched \<Longrightarrow> work (exec cs sched) < work cs"
proof (induction cs sched rule: exec.induct)
  case (2 cs j eager sched)
  show ?case
  proof (cases "able cs j \<and> (eager \<or> ready cs j)")
    case True
    then show ?thesis using work_exec [of "fire cs j" sched] work_fire [of cs j] by simp
  next
    case False
    then have "j \<noteq> i" using 2 ready_able by blast
    then show ?thesis using 2 False by auto
  qed
qed simp

lemma length_exec [simp]: "length (exec cs sched) = length cs"
  by (induction cs sched rule: exec.induct) simp_all

text \<open>
  So a program that keeps the discipline finishes, whatever it has done so far: it takes no more rounds than it has operations left,
  whatever the rounds look like, as long as everybody gets a turn in each.
\<close>

lemma lawful_finish:
  assumes "lawful rank hub cs" and "\<And>r. r \<in> set rounds \<Longrightarrow> {..<length cs} \<subseteq> fst ` set r" and "work cs \<le> length rounds"
  shows "finished (exec cs (concat rounds))"
  using assms
proof (induction rounds arbitrary: cs)
  case Nil
  then show ?case using lawful_progress [of rank hub cs] work_fire [of cs] ready_able [of cs] by fastforce
next
  case (Cons r rounds)
  have law: "lawful rank hub (exec cs r)" using Cons.prems(1) by (rule lawful_exec)
  show ?case
  proof (cases "finished cs")
    case True
    then have "\<not> able ds i" if "finished ds" for ds :: "('a, 'b) routine list" and i
      using that by (auto simp: finished_iff able_def)
    then have "finished (exec ds sched)" if "finished ds" for ds :: "('a, 'b) routine list" and sched
      using that by (induction ds sched rule: exec.induct) simp_all
    then show ?thesis using True by blast
  next
    case False
    then obtain i where i: "ready cs i" using lawful_progress [OF Cons.prems(1)] by blast
    then have "i \<in> fst ` set r" using Cons.prems(2) [of r] able_length [OF ready_able [OF i]] by auto
    then have "work (exec cs r) \<le> length rounds" using round_works [OF i] Cons.prems(3) by fastforce
    then have "finished (exec (exec cs r) (concat rounds))"
      using Cons.IH [OF law] Cons.prems(2) by simp
    then show ?thesis by (simp add: exec_append)
  qed
qed

section \<open>No race\<close>

text \<open>Every access to \<open>v\<close> is made under \<open>l\<close>, a writing one under \<^verbatim>\<open>Lock\<close>.\<close>

fun guarded :: "'v \<Rightarrow> 'l \<Rightarrow> ('l, 'v) op list \<Rightarrow> ('l \<times> bool) list \<Rightarrow> bool" where
  "guarded v l [] h \<longleftrightarrow> True"
| "guarded v l (Acq w m # p) h \<longleftrightarrow> guarded v l p ((m, w) # h)"
| "guarded v l (Rel m # p) h \<longleftrightarrow> guarded v l p (filter (\<lambda>x. fst x \<noteq> m) h)"
| "guarded v l (Acc w x # p) h \<longleftrightarrow> (x = v \<longrightarrow> (if w then (l, True) \<in> set h else l \<in> fst ` set h)) \<and> guarded v l p h"
| "guarded v l (Req job # p) h \<longleftrightarrow> guarded v l job [] \<and> guarded v l p h"

lemma guarded_mono: "guarded v l p h \<Longrightarrow> set h \<subseteq> set k \<Longrightarrow> guarded v l p k"
proof (induction v l p h arbitrary: k rule: guarded.induct)
  case (2 v l w m p h)
  then show ?case by (metis guarded.simps(2) insert_mono list.simps(15))
next
  case (3 v l m p h)
  have "set (filter (\<lambda>x. fst x \<noteq> m) h) \<subseteq> set (filter (\<lambda>x. fst x \<noteq> m) k)" using 3(3) by auto
  then show ?case using 3 by simp
qed (auto split: if_splits)

definition guards :: "'l \<Rightarrow> 'v \<Rightarrow> ('l, 'v) routine list \<Rightarrow> bool" where
  "guards l v cs \<longleftrightarrow> (\<forall>i < length cs. guarded v l (code (cs ! i)) (locks (cs ! i)))"

lemma guards_fire:
  assumes "guards l v cs" and "able cs i"
  shows "guards l v (fire cs i)"
  using assms(2)
proof (cases rule: able_cases)
  case (req job p)
  have "guarded v l (Req job # p) (locks (cs ! i))"
    using assms req(1) able_length [OF assms(2)] unfolding guards_def by metis
  then show ?thesis
    unfolding guards_def req(4)
    using assms(1) req(2,3) guarded_mono [of v l job "[]" "locks (cs ! 0)"]
    by (auto simp: nth_update_two guards_def)
qed (use assms able_length [OF assms(2)] in \<open>auto simp: guards_def nth_list_update split: if_splits; metis guarded.simps\<close>)+

lemma guards_exec: "guards l v cs \<Longrightarrow> guards l v (exec cs sched)"
  by (induction cs sched rule: exec.induct) (simp_all add: guards_fire)

lemma guards_start: "list_all (\<lambda>p. guarded v l p []) ps \<Longrightarrow> guards l v (start ps)"
  by (auto simp: guards_def start_def nth_Cons list_all_length split: nat.split)

lemma guarded_race_free:
  assumes "guards l v cs" and "exclusive cs"
  shows "\<not> racing cs v"
proof
  assume "racing cs v"
  then obtain i j p w q where ij: "i < length cs" "j < length cs" "i \<noteq> j"
    and i: "code (cs ! i) = Acc True v # p" and j: "code (cs ! j) = Acc w v # q"
    unfolding racing_def by blast
  have "guarded v l (Acc True v # p) (locks (cs ! i))" using assms(1) ij(1) i unfolding guards_def by metis
  then have "(l, True) \<in> set (locks (cs ! i))" by simp
  moreover have "guarded v l (Acc w v # q) (locks (cs ! j))" using assms(1) ij(2) j unfolding guards_def by metis
  then have "holds (cs ! j) l" by (force simp: holds_def split: if_splits)
  ultimately show False using exclusiveD [OF assms(2) ij] by blast
qed

section \<open>What goroutine 0 owns\<close>

text \<open>
  A variable that only goroutine 0 changes, under \<open>l\<close>, and that the others read under \<open>l\<close>. Goroutine 0 may read it without.
\<close>

fun ownerOk :: "'v \<Rightarrow> 'l \<Rightarrow> ('l, 'v) op list \<Rightarrow> ('l \<times> bool) list \<Rightarrow> bool" where
  "ownerOk v l [] h \<longleftrightarrow> True"
| "ownerOk v l (Acq w m # p) h \<longleftrightarrow> ownerOk v l p ((m, w) # h)"
| "ownerOk v l (Rel m # p) h \<longleftrightarrow> ownerOk v l p (filter (\<lambda>x. fst x \<noteq> m) h)"
| "ownerOk v l (Acc w x # p) h \<longleftrightarrow> (x = v \<and> w \<longrightarrow> (l, True) \<in> set h) \<and> ownerOk v l p h"
| "ownerOk v l (Req job # p) h \<longleftrightarrow> False"

fun lent :: "'v \<Rightarrow> 'l \<Rightarrow> ('l, 'v) op list \<Rightarrow> ('l \<times> bool) list \<Rightarrow> bool" where
  "lent v l [] h \<longleftrightarrow> True"
| "lent v l (Acq w m # p) h \<longleftrightarrow> lent v l p ((m, w) # h)"
| "lent v l (Rel m # p) h \<longleftrightarrow> lent v l p (filter (\<lambda>x. fst x \<noteq> m) h)"
| "lent v l (Acc w x # p) h \<longleftrightarrow> (x = v \<longrightarrow> \<not> w \<and> l \<in> fst ` set h) \<and> lent v l p h"
| "lent v l (Req job # p) h \<longleftrightarrow> ownerOk v l job [] \<and> lent v l p h"

lemma ownerOk_mono: "ownerOk v l p h \<Longrightarrow> set h \<subseteq> set k \<Longrightarrow> ownerOk v l p k"
proof (induction v l p h arbitrary: k rule: ownerOk.induct)
  case (2 v l w m p h)
  then show ?case by (metis ownerOk.simps(2) insert_mono list.simps(15))
next
  case (3 v l m p h)
  have "set (filter (\<lambda>x. fst x \<noteq> m) h) \<subseteq> set (filter (\<lambda>x. fst x \<noteq> m) k)" using 3(3) by auto
  then show ?case using 3 by simp
qed auto

lemma lent_mono: "lent v l p h \<Longrightarrow> set h \<subseteq> set k \<Longrightarrow> lent v l p k"
proof (induction v l p h arbitrary: k rule: lent.induct)
  case (2 v l w m p h)
  then show ?case by (metis lent.simps(2) insert_mono list.simps(15))
next
  case (3 v l m p h)
  have "set (filter (\<lambda>x. fst x \<noteq> m) h) \<subseteq> set (filter (\<lambda>x. fst x \<noteq> m) k)" using 3(3) by auto
  then show ?case using 3 by simp
qed auto

definition owned :: "'l \<Rightarrow> 'v \<Rightarrow> ('l, 'v) routine list \<Rightarrow> bool" where
  "owned l v cs \<longleftrightarrow> (\<forall>i < length cs. if i = 0 then ownerOk v l (code (cs ! i)) (locks (cs ! i))
                                  else lent v l (code (cs ! i)) (locks (cs ! i)))"

lemma ownedD:
  "owned l v cs \<Longrightarrow> i < length cs \<Longrightarrow>
   if i = 0 then ownerOk v l (code (cs ! i)) (locks (cs ! i)) else lent v l (code (cs ! i)) (locks (cs ! i))"
  unfolding owned_def by blast

lemma ownedI:
  assumes "\<And>i. i < length cs \<Longrightarrow>
    if i = 0 then ownerOk v l (code (cs ! i)) (locks (cs ! i)) else lent v l (code (cs ! i)) (locks (cs ! i))"
  shows "owned l v cs"
  using assms unfolding owned_def by blast

lemma owned_step:
  assumes "owned l v cs" and "i < length cs"
    and "ownerOk v l (code (cs ! i)) (locks (cs ! i)) \<Longrightarrow> ownerOk v l (code g) (locks g)"
    and "lent v l (code (cs ! i)) (locks (cs ! i)) \<Longrightarrow> lent v l (code g) (locks g)"
  shows "owned l v (cs[i := g])"
proof (rule ownedI)
  fix j assume "j < length (cs[i := g])"
  then show "if j = 0 then ownerOk v l (code (cs[i := g] ! j)) (locks (cs[i := g] ! j))
             else lent v l (code (cs[i := g] ! j)) (locks (cs[i := g] ! j))"
    using ownedD [OF assms(1), of j] assms(2-4) by (cases "j = i") (auto split: if_splits)
qed

lemma owned_fire:
  assumes "owned l v cs" and "able cs i"
  shows "owned l v (fire cs i)"
  using assms(2)
proof (cases rule: able_cases)
  case (acq w m p)
  show ?thesis unfolding acq(2) by (rule owned_step [OF assms(1) able_length [OF assms(2)]]) (simp_all add: acq(1))
next
  case (rel m p)
  show ?thesis unfolding rel(2) by (rule owned_step [OF assms(1) able_length [OF assms(2)]]) (simp_all add: rel(1))
next
  case (acc w x p)
  show ?thesis unfolding acc(2) by (rule owned_step [OF assms(1) able_length [OF assms(2)]]) (simp_all add: acc(1))
next
  case (req job p)
  have "lent v l (Req job # p) (locks (cs ! i))"
    using ownedD [OF assms(1) able_length [OF assms(2)]] req(1,2) by simp
  then have o: "ownerOk v l job (locks (cs ! 0))" "lent v l p (locks (cs ! i))"
    using ownerOk_mono [of v l job "[]" "locks (cs ! 0)"] by simp_all
  show ?thesis unfolding req(4)
  proof (rule ownedI)
    let ?ds = "cs[i := \<lparr>code = p, locks = locks (cs ! i)\<rparr>, 0 := (cs ! 0)\<lparr>code := job\<rparr>]"
    fix j assume "j < length ?ds"
    then have j: "j < length cs" by simp
    show "if j = 0 then ownerOk v l (code (?ds ! j)) (locks (?ds ! j)) else lent v l (code (?ds ! j)) (locks (?ds ! j))"
      unfolding nth_update_two [OF j req(2)] using ownedD [OF assms(1) j] o by (simp split: if_splits)
  qed
qed

lemma owned_exec: "owned l v cs \<Longrightarrow> owned l v (exec cs sched)"
  by (induction cs sched rule: exec.induct) (simp_all add: owned_fire)

lemma owned_start: "list_all (\<lambda>p. lent v l p []) ps \<Longrightarrow> owned l v (start ps)"
  by (auto simp: owned_def start_def nth_Cons list_all_length split: nat.split)

lemma owned_race_free:
  assumes "owned l v cs" and "exclusive cs"
  shows "\<not> racing cs v"
proof
  assume "racing cs v"
  then obtain i j p w q where ij: "i < length cs" "j < length cs" "i \<noteq> j"
    and i: "code (cs ! i) = Acc True v # p" and j: "code (cs ! j) = Acc w v # q"
    unfolding racing_def by blast
  have "i = 0 \<and> (l, True) \<in> set (locks (cs ! i))" using ownedD [OF assms(1) ij(1)] i by (auto split: if_splits)
  moreover have "j \<noteq> 0 \<Longrightarrow> holds (cs ! j) l" using ownedD [OF assms(1) ij(2)] j by (auto simp: holds_def)
  ultimately show False using exclusiveD [OF assms(2) ij] ij(3) by auto
qed

section \<open>Putting programs together\<close>

text \<open>Programs that run one after the other, and programs that run while other locks are held.\<close>

fun above :: "('l \<Rightarrow> nat) \<Rightarrow> nat \<Rightarrow> ('l, 'v) op list \<Rightarrow> bool" where
  "above rank b [] \<longleftrightarrow> True"
| "above rank b (Acq w l # p) \<longleftrightarrow> b < rank l \<and> above rank b p"
| "above rank b (Rel l # p) \<longleftrightarrow> b < rank l \<and> above rank b p"
| "above rank b (Acc w v # p) \<longleftrightarrow> above rank b p"
| "above rank b (Req job # p) \<longleftrightarrow> False"

lemma above_append [simp]: "above rank b (p @ q) \<longleftrightarrow> above rank b p \<and> above rank b q"
  by (induction rank b p rule: above.induct) auto

lemma above_concat [simp]: "above rank b (concat ps) \<longleftrightarrow> list_all (above rank b) ps"
  by (induction ps) auto

lemma filter_low: "list_all (\<lambda>m. rank m \<le> (b::nat)) h \<Longrightarrow> b < rank l \<Longrightarrow> filter (\<lambda>m. m \<noteq> l) h = h"
  by (rule filter_True) (auto simp: list_all_iff)

lemma filter_low_fst: "list_all (\<lambda>m. rank (fst m) \<le> (b::nat)) h \<Longrightarrow> b < rank l \<Longrightarrow> filter (\<lambda>x. fst x \<noteq> l) h = h"
  by (rule filter_True) (auto simp: list_all_iff)

lemma ordered_frame:
  "ordered rank hub p k \<Longrightarrow> above rank b p \<Longrightarrow> list_all (\<lambda>m. rank m \<le> b) h \<Longrightarrow>
   ordered rank hub (p @ q) (k @ h) \<longleftrightarrow> ordered rank hub q h"
proof (induction rank hub p k rule: ordered.induct)
  case (2 rank hub w l p k)
  then have "list_all (\<lambda>m. rank m < rank l) h" by (auto simp: list_all_iff)
  then show ?case using 2 by simp
next
  case (3 rank hub l p k)
  then show ?case using filter_low [of rank b h l] by simp
qed simp_all

lemma ordered_append:
  "ordered rank hub p k \<Longrightarrow> ordered rank hub (p @ q) k \<longleftrightarrow> ordered rank hub q []"
  by (induction rank hub p k rule: ordered.induct) simp_all

lemma ordered_concat: "list_all (\<lambda>p. ordered rank hub p []) ps \<Longrightarrow> ordered rank hub (concat ps) []"
  by (induction ps) (simp_all add: ordered_append)

lemma ordered_frame_Nil:
  "ordered rank hub p [] \<Longrightarrow> above rank b p \<Longrightarrow> list_all (\<lambda>m. rank m \<le> b) h \<Longrightarrow>
   ordered rank hub (p @ q) h \<longleftrightarrow> ordered rank hub q h"
  using ordered_frame [of rank hub p "[]" b h q] by simp

lemma guarded_append: "guarded v l p h \<Longrightarrow> guarded v l q [] \<Longrightarrow> guarded v l (p @ q) h"
proof (induction v l p h rule: guarded.induct)
  case (1 v l h)
  then show ?case using guarded_mono [of v l q "[]" h] by simp
qed simp_all

lemma guarded_concat: "list_all (\<lambda>p. guarded v l p []) ps \<Longrightarrow> guarded v l (concat ps) []"
  by (induction ps) (simp_all add: guarded_append)

lemma guarded_frame:
  "guarded v l p k \<Longrightarrow> ordered rank hub p (map fst k) \<Longrightarrow> above rank b p \<Longrightarrow> list_all (\<lambda>m. rank (fst m) \<le> b) h \<Longrightarrow>
   guarded v l q h \<Longrightarrow> guarded v l (p @ q) (k @ h)"
proof (induction v l p k rule: guarded.induct)
  case (3 v l m p k)
  then show ?case using filter_low_fst [of rank b h m] by (simp add: held_filter)
qed (auto split: if_splits)

lemma guarded_frame_Nil:
  "guarded v l p [] \<Longrightarrow> ordered rank hub p [] \<Longrightarrow> above rank b p \<Longrightarrow> list_all (\<lambda>m. rank (fst m) \<le> b) h \<Longrightarrow>
   guarded v l q h \<Longrightarrow> guarded v l (p @ q) h"
  using guarded_frame [of v l p "[]" rank hub b h q] by simp

lemma ownerOk_append: "ownerOk v l p h \<Longrightarrow> ownerOk v l q [] \<Longrightarrow> ownerOk v l (p @ q) h"
proof (induction v l p h rule: ownerOk.induct)
  case (1 v l h)
  then show ?case using ownerOk_mono [of v l q "[]" h] by simp
qed simp_all

lemma lent_append: "lent v l p h \<Longrightarrow> lent v l q [] \<Longrightarrow> lent v l (p @ q) h"
proof (induction v l p h rule: lent.induct)
  case (1 v l h)
  then show ?case using lent_mono [of v l q "[]" h] by simp
qed simp_all

lemma lent_concat: "list_all (\<lambda>p. lent v l p []) ps \<Longrightarrow> lent v l (concat ps) []"
  by (induction ps) (simp_all add: lent_append)

text \<open>How a race shows: what the goroutines do next.\<close>

lemma racingI:
  assumes "i < length cs" and "j < length cs" and "i \<noteq> j"
    and "code (cs ! i) = Acc True v # p" and "code (cs ! j) = Acc w v # q"
  shows "racing cs v"
  unfolding racing_def
  by (rule exI [of _ i], intro conjI exI [of _ j] exI [of _ p] exI [of _ w] exI [of _ q]) (fact assms)+

lemma racing_first:
  assumes "map (\<lambda>g. take 1 (code g)) cs = ps" and "i < length ps" and "j < length ps" and "i \<noteq> j"
    and "ps ! i = [Acc w v]" and "ps ! j = [Acc w' v]" and "w \<or> w'"
  shows "racing cs v"
proof -
  have l: "i < length cs" "j < length cs" using assms(1-3) by auto
  have "take 1 (code (cs ! i)) = [Acc w v]" "take 1 (code (cs ! j)) = [Acc w' v]"
    using assms(5,6) l by (simp_all add: assms(1) [symmetric])
  then obtain q1 q2 where c: "code (cs ! i) = Acc w v # q1" "code (cs ! j) = Acc w' v # q2"
    by (cases "code (cs ! i)"; cases "code (cs ! j)") simp_all
  show ?thesis
  proof (cases w)
    case True
    then show ?thesis using racingI [OF l assms(4) _ c(2)] c(1) by simp
  next
    case False
    then show ?thesis using racingI [OF l(2,1) _ _ c(1)] c(2) assms(4,7) by simp
  qed
qed

text \<open>A number of rounds in which everybody gets a turn in order; \<open>eager\<close> says who gets past writers, and when.\<close>

definition turns :: "(nat \<Rightarrow> nat \<Rightarrow> bool) \<Rightarrow> nat \<Rightarrow> nat \<Rightarrow> (nat \<times> bool) list" where
  "turns eager n k = concat (map (\<lambda>round. map (\<lambda>i. (i, eager round i)) [0..<Suc n]) [0..<k])"

section \<open>The interfaces\<close>

text \<open>Threads whose programs take their locks in the order of \<open>rank\<close>.\<close>

locale lock_order =
  fixes rank :: "'l \<Rightarrow> nat"
    and hub :: nat
    and program :: "'t \<Rightarrow> ('l, 'v) op list"
  assumes program_ordered: "ordered rank hub (program t) []"
begin

lemma lawful_run: "lawful rank hub (exec (start (map program ts)) sched)"
  by (intro lawful_exec lawful_start) (simp add: list_all_iff program_ordered)

lemma fair_runs_finish:
  assumes "\<And>r. r \<in> set rounds \<Longrightarrow> {..length ts} \<subseteq> fst ` set r" and "work (start (map program ts)) \<le> length rounds"
  shows "finished (exec (start (map program ts)) (sched @ concat rounds))"
  unfolding exec_append
proof (rule lawful_finish [OF lawful_run])
  fix r assume "r \<in> set rounds"
  from assms(1) [OF this] show "{..<length (exec (start (map program ts)) sched)} \<subseteq> fst ` set r"
    by (auto simp: start_def)
qed (use assms(2) work_exec [of "start (map program ts)" sched] in linarith)

lemma round_robin_finishes:
  "finished (exec (start (map program ts)) (sched @ turns eager (length ts) (work (start (map program ts)))))"
  unfolding turns_def by (rule fair_runs_finish) (auto simp: image_iff)

end

text \<open>Threads that touch what they share under the lock that \<open>guard\<close> names.\<close>

locale lock_guards =
  fixes program :: "'t \<Rightarrow> ('l, 'v) op list"
    and guard :: "'v \<Rightarrow> 'l option"
  assumes program_guarded: "guard v = Some l \<Longrightarrow> guarded v l (program t) []"
begin

lemma race_free:
  assumes "guard v \<noteq> None"
  shows "\<not> racing (exec (start (map program ts)) sched) v"
proof -
  obtain l where "guard v = Some l" using assms by auto
  then have "guards l v (exec (start (map program ts)) sched)"
    by (intro guards_exec guards_start) (simp add: list_all_iff program_guarded)
  then show ?thesis by (rule guarded_race_free [OF _ exclusive_exec [OF exclusive_start]])
qed

end

text \<open>Threads that leave to goroutine 0 what \<open>owner\<close> names, and read it under the lock named there.\<close>

locale lock_owners =
  fixes program :: "'t \<Rightarrow> ('l, 'v) op list"
    and owner :: "'v \<Rightarrow> 'l option"
  assumes program_lent: "owner v = Some l \<Longrightarrow> lent v l (program t) []"
begin

lemma owner_race_free:
  assumes "owner v \<noteq> None"
  shows "\<not> racing (exec (start (map program ts)) sched) v"
proof -
  obtain l where "owner v = Some l" using assms by auto
  then have "owned l v (exec (start (map program ts)) sched)"
    by (intro owned_exec owned_start) (simp add: list_all_iff program_lent)
  then show ?thesis by (rule owned_race_free [OF _ exclusive_exec [OF exclusive_start]])
qed

end

text \<open>Both together: what a server should do with its locks.\<close>

locale lock_discipline = lock_order rank hub program + lock_guards program guard
  for rank :: "'l \<Rightarrow> nat" and hub :: nat and program :: "'t \<Rightarrow> ('l, 'v) op list" and guard :: "'v \<Rightarrow> 'l option"

end
