(* ===== verification/ChatLocks.thy ===== *)
theory ChatLocks
  imports Locks
begin

text \<open>
  The goroutines of the chat server and of the websocket connections below it: which locks each takes, in which order, and which
  of the things they share it touches under them (\<^verbatim>\<open>src/chat/server.go\<close>, \<^verbatim>\<open>src/chat/http.go\<close>, \<^verbatim>\<open>src/websocket/websocket.go\<close>).
  No schedule can block them for good, and the variables that have a lock are never raced. The others are.
\<close>

section \<open>Locks and what is shared\<close>

text \<open>A number stands for a client with its connection, or for a room object.\<close>

datatype lock = RoomsMu | ClientsMu | TypingMu | RateMu | FileMetaMu | MediaMetaMu | PendingMu
  | ConnMu nat | FragmentedMu nat | WsRoomsMu

datatype shared = SRooms | SClients | STyping | SRate | SFileMeta | SMediaMeta | SPending
  | SMembers nat | SClientRooms nat | SIsTyping nat | SLastSeen nat
  | SClosed nat | SWriter nat | SPongTimer nat | SFragmented nat | SWsRooms | SWsMembers nat

type_synonym prog = "(lock, shared) op list"

text \<open>The lock that the code means to guard a variable by, if it has one.\<close>

fun guardOf :: "shared \<Rightarrow> lock option" where
  "guardOf SRooms = Some RoomsMu"
| "guardOf SClients = Some ClientsMu"
| "guardOf STyping = Some TypingMu"
| "guardOf (SIsTyping c) = Some TypingMu"
| "guardOf SRate = Some RateMu"
| "guardOf SFileMeta = Some FileMetaMu"
| "guardOf SMediaMeta = Some MediaMetaMu"
| "guardOf SPending = Some PendingMu"
| "guardOf (SClosed c) = Some (ConnMu c)"
| "guardOf (SFragmented c) = Some (FragmentedMu c)"
| "guardOf SWsRooms = Some WsRoomsMu"
| "guardOf (SMembers r) = None"
| "guardOf (SClientRooms c) = None"
| "guardOf (SLastSeen c) = None"
| "guardOf (SWriter c) = None"
| "guardOf (SPongTimer c) = None"
| "guardOf (SWsMembers r) = None"

text \<open>The order in which they are taken.\<close>

fun rankOf :: "lock \<Rightarrow> nat" where
  "rankOf TypingMu = 0"
| "rankOf ClientsMu = 1"
| "rankOf (ConnMu c) = 3"
| "rankOf _ = 2"

section \<open>Connections\<close>

definition isClosedOps :: "nat \<Rightarrow> prog" where
  "isClosedOps c = [Acq False (ConnMu c), Acc False (SClosed c), Rel (ConnMu c)]"

text \<open>\<^verbatim>\<open>writeFrame\<close> goes through one \<^verbatim>\<open>bufio.Writer\<close> per connection.\<close>

definition writeFrameOps :: "nat \<Rightarrow> prog" where
  "writeFrameOps c = [Acc True (SWriter c)]"

definition writeMessageOps :: "nat \<times> bool \<Rightarrow> prog" where
  "writeMessageOps d = (case d of (c, open') \<Rightarrow>
     [Acq False (ConnMu c), Acc False (SClosed c), Rel (ConnMu c)] @ (if open' then writeFrameOps c else []))"

definition writeFragmentedOps :: "nat \<Rightarrow> nat \<Rightarrow> prog" where
  "writeFragmentedOps c n =
     [Acq True (FragmentedMu c), Acc True (SFragmented c)] @ concat (replicate n (writeFrameOps c)) @
     [Acc True (SFragmented c), Rel (FragmentedMu c)]"

definition readMessageOps :: "nat \<Rightarrow> prog" where
  "readMessageOps c = [Acq False (ConnMu c), Acc False (SClosed c), Rel (ConnMu c)]"

text \<open>The lock is held while the close frame is written.\<close>

definition closeOps :: "nat \<Rightarrow> bool \<Rightarrow> prog" where
  "closeOps c first =
     [Acq True (ConnMu c), Acc False (SClosed c)] @
     (if first then Acc True (SClosed c) # writeFrameOps c else []) @ [Rel (ConnMu c)]"

section \<open>Rooms of the websocket server\<close>

definition joinWsOps :: "nat \<Rightarrow> bool \<Rightarrow> prog" where
  "joinWsOps r made = [Acq True WsRoomsMu, Acc made SWsRooms, Acc True (SWsMembers r), Rel WsRoomsMu]"

definition leaveWsOps :: "nat option \<Rightarrow> bool \<Rightarrow> prog" where
  "leaveWsOps found dropped =
     [Acq True WsRoomsMu, Acc False SWsRooms] @
     (case found of None \<Rightarrow> [] | Some r \<Rightarrow> Acc True (SWsMembers r) # (if dropped then [Acc True SWsRooms] else [])) @
     [Rel WsRoomsMu]"

definition castWsOps :: "nat option \<Rightarrow> (nat \<times> bool) list \<Rightarrow> prog" where
  "castWsOps found ds =
     [Acq False WsRoomsMu, Acc False SWsRooms, Rel WsRoomsMu] @
     (case found of None \<Rightarrow> []
      | Some r \<Rightarrow> Acc False (SWsMembers r) # concat (map (\<lambda>d. writeMessageOps d @ [Acc False (SWsMembers r)]) ds))"

section \<open>Rooms of the chat\<close>

text \<open>
  A broadcast: the room object found, if any, and the clients of it that the loop comes to, with whether their connections are open. The
  lock is given back before the loop starts.
\<close>

datatype cast = Cast (target: "nat option") (reached: "(nat \<times> bool) list")

definition broadcastOps :: "cast \<Rightarrow> prog" where
  "broadcastOps b =
     [Acq False RoomsMu, Acc False SRooms, Rel RoomsMu] @
     (case target b of None \<Rightarrow> []
      | Some r \<Rightarrow> Acc False (SMembers r) # concat (map (\<lambda>d. writeMessageOps d @ [Acc False (SMembers r)]) (reached b)))"

text \<open>What \<^verbatim>\<open>getOrCreateRoom\<close> comes to.\<close>

datatype room_lookup = NoRoom | Found nat | Made nat

definition getRoomOps :: "room_lookup \<Rightarrow> prog" where
  "getRoomOps k =
     [Acq False RoomsMu, Acc False SRooms, Rel RoomsMu] @
     (case k of Made r \<Rightarrow> [Acq True RoomsMu, Acc True SRooms, Rel RoomsMu] | _ \<Rightarrow> [])"

text \<open>How a client is taken out of a room: the room object found, if any, and whether it was dropped.\<close>

definition removeOps :: "nat option \<Rightarrow> bool \<Rightarrow> prog" where
  "removeOps found dropped =
     [Acq True RoomsMu, Acc False SRooms] @
     (case found of None \<Rightarrow> [] | Some r \<Rightarrow> Acc True (SMembers r) # (if dropped then [Acc True SRooms] else [])) @
     [Rel RoomsMu]"

text \<open>
  \<^verbatim>\<open>handleJoinRoom\<close>: the room, whether the client is allowed in, whether there is a history to send, the broadcast, and whether the
  connection was open for the history and for the last answer.
\<close>

definition joinRoomOps :: "nat \<Rightarrow> room_lookup \<Rightarrow> bool \<Rightarrow> bool option \<Rightarrow> cast \<Rightarrow> bool \<Rightarrow> prog" where
  "joinRoomOps c k allowed history b open' =
     getRoomOps k @
     (let enter = (\<lambda>r. if allowed
                       then [Acq True RoomsMu, Acc True (SMembers r), Rel RoomsMu] @ [Acc True (SClientRooms c)] @
                            (case history of None \<Rightarrow> [] | Some o' \<Rightarrow> writeMessageOps (c, o')) @
                            broadcastOps b @ writeMessageOps (c, open')
                       else writeMessageOps (c, open'))
      in case k of NoRoom \<Rightarrow> writeMessageOps (c, open') | Found r \<Rightarrow> enter r | Made r \<Rightarrow> enter r)"

text \<open>\<^verbatim>\<open>handleLeaveRoom\<close>: a client that is not in the room is told so; else the room object found, whether it was dropped, and the broadcast.\<close>

definition leaveRoomOps :: "nat \<Rightarrow> (nat option \<times> bool \<times> cast) option \<Rightarrow> bool \<Rightarrow> prog" where
  "leaveRoomOps c left open' =
     [Acc False (SClientRooms c)] @
     (case left of
        None \<Rightarrow> writeMessageOps (c, open')
      | Some (found, dropped, b) \<Rightarrow> removeOps found dropped @ [Acc True (SClientRooms c)] @ broadcastOps b)"

text \<open>
  The handlers that look whether their client is in the room and then may send to the room, and may answer: chat messages, replies, receipts,
  files, media, calls, signals and recordings.
\<close>

definition relayOps :: "nat \<Rightarrow> cast option \<Rightarrow> bool option \<Rightarrow> prog" where
  "relayOps c b answer =
     [Acc False (SClientRooms c)] @ (case b of None \<Rightarrow> [] | Some b' \<Rightarrow> broadcastOps b') @
     (case answer of None \<Rightarrow> [] | Some open' \<Rightarrow> writeMessageOps (c, open'))"

definition typingOps :: "nat \<Rightarrow> cast option \<Rightarrow> prog" where
  "typingOps c b =
     [Acc False (SClientRooms c)] @
     (case b of None \<Rightarrow> []
      | Some b' \<Rightarrow> [Acq True TypingMu, Acc True STyping, Acc True (SIsTyping c), Rel TypingMu] @ broadcastOps b')"

section \<open>A client's goroutine\<close>

datatype chat_request =
    Invalid bool
  | Join room_lookup bool "bool option" cast bool
  | Leave "(nat option \<times> bool \<times> cast) option" bool
  | Relay "cast option" "bool option"
  | Typing "cast option"

fun requestOps :: "nat \<Rightarrow> chat_request \<Rightarrow> prog" where
  "requestOps c (Invalid open') = writeMessageOps (c, open')"
| "requestOps c (Join k allowed history b open') = joinRoomOps c k allowed history b open'"
| "requestOps c (Leave left open') = leaveRoomOps c left open'"
| "requestOps c (Relay b answer) = relayOps c b answer"
| "requestOps c (Typing b) = typingOps c b"

definition rateOps :: prog where
  "rateOps = [Acq True RateMu, Acc True SRate, Rel RateMu]"

definition handleMessageOps :: "nat \<Rightarrow> chat_request \<Rightarrow> prog" where
  "handleMessageOps c q = [Acc True (SLastSeen c)] @ rateOps @ requestOps c q"

text \<open>Metadata of an upload to come; without a room in it the client's first room is looked up.\<close>

datatype metadata = FileMeta bool | MediaMeta bool

definition metaOps :: "nat \<Rightarrow> metadata \<Rightarrow> prog" where
  "metaOps c m =
     (case m of
        FileMeta named \<Rightarrow> (if named then [] else [Acc False (SClientRooms c)]) @ [Acq True FileMetaMu, Acc True SFileMeta, Rel FileMetaMu]
      | MediaMeta named \<Rightarrow> (if named then [] else [Acc False (SClientRooms c)]) @ [Acq True MediaMetaMu, Acc True SMediaMeta, Rel MediaMetaMu])"

text \<open>Binary data: whether there was metadata of either kind; a broadcast, unless there was none or saving failed; and an answer.\<close>

definition binaryOps :: "nat \<Rightarrow> bool \<Rightarrow> bool \<Rightarrow> cast option \<Rightarrow> bool \<Rightarrow> prog" where
  "binaryOps c file media b open' =
     [Acq True FileMetaMu, Acc False SFileMeta] @ (if file then [Acc True SFileMeta] else []) @ [Rel FileMetaMu] @
     [Acq True MediaMetaMu, Acc False SMediaMeta] @ (if media then [Acc True SMediaMeta] else []) @ [Rel MediaMetaMu] @
     (case b of None \<Rightarrow> [] | Some b' \<Rightarrow> broadcastOps b') @ writeMessageOps (c, open')"

text \<open>\<^verbatim>\<open>handleClientDisconnect\<close>: for each room a broadcast, the room object found and whether it was dropped.\<close>

datatype departure = Exit cast "nat option" bool

fun exitOps :: "nat \<Rightarrow> departure \<Rightarrow> prog" where
  "exitOps c (Exit b found dropped) = broadcastOps b @ removeOps found dropped @ [Acc False (SClientRooms c)]"

definition disconnectOps :: "nat \<Rightarrow> departure list \<Rightarrow> prog" where
  "disconnectOps c es =
     [Acc False (SClientRooms c)] @ concat (map (exitOps c) es) @
     [Acq True TypingMu, Acc True STyping, Rel TypingMu] @
     [Acq True ClientsMu, Acc True SClients, Rel ClientsMu] @
     [Acq True RateMu, Acc True SRate, Rel RateMu] @ [Acc False (SClientRooms c)]"

text \<open>
  The goroutine that pings: it looks at the connection, writes, and with a time limit for pongs makes a timer. It ends when it is told to, when it finds the
  connection closed, when no pong comes, or when it cannot write, which the chat server takes for a disconnect.
\<close>

datatype ending = Stopped | SeenClosed | NoPong bool | PingFailed "departure list"

definition keepAliveOps :: "nat \<Rightarrow> bool \<Rightarrow> nat \<Rightarrow> ending \<Rightarrow> prog" where
  "keepAliveOps c timed n ending =
     concat (replicate n (isClosedOps c @ writeFrameOps c @ (if timed then [Acc True (SPongTimer c)] else []))) @
     (case ending of
        Stopped \<Rightarrow> []
      | SeenClosed \<Rightarrow> isClosedOps c
      | NoPong first \<Rightarrow> closeOps c first
      | PingFailed es \<Rightarrow> isClosedOps c @ writeFrameOps c @ disconnectOps c es)"

definition cleanupOps :: "nat \<Rightarrow> prog" where
  "cleanupOps c = [Acc False (SPongTimer c)]"

text \<open>What the message loop of the connection comes to, and the handlers of the chat server that it calls.\<close>

datatype ws_event =
    Text "metadata option" chat_request
  | Binary bool bool "cast option" bool
  | Ping
  | Pong

fun wsEventOps :: "nat \<Rightarrow> ws_event \<Rightarrow> prog" where
  "wsEventOps c (Text m q) = (case m of None \<Rightarrow> [] | Some m' \<Rightarrow> metaOps c m') @ handleMessageOps c q"
| "wsEventOps c (Binary file media b open') = binaryOps c file media b open'"
| "wsEventOps c Ping = writeFrameOps c"
| "wsEventOps c Pong = []"

text \<open>
  How the loop ends: it finds the connection closed, a close frame comes, or reading fails; unless the connection was closed meanwhile, the chat server is told.
\<close>

datatype farewell = FoundClosed | CloseFrame "departure list" | ReadFailed "departure list option"

definition farewellOps :: "nat \<Rightarrow> farewell \<Rightarrow> prog" where
  "farewellOps c f = isClosedOps c @
     (case f of
        FoundClosed \<Rightarrow> []
      | CloseFrame es \<Rightarrow> readMessageOps c @ disconnectOps c es
      | ReadFailed x \<Rightarrow> readMessageOps c @ isClosedOps c @ (case x of None \<Rightarrow> [] | Some es \<Rightarrow> disconnectOps c es))"

definition connectOps :: "nat \<Rightarrow> bool \<Rightarrow> prog" where
  "connectOps c restored =
     (if restored then [Acc True (SClientRooms c)] else []) @
     [Acq True ClientsMu, Acc True SClients, Rel ClientsMu] @ [Acc False (SClientRooms c)]"

definition readerOps :: "nat \<Rightarrow> bool \<Rightarrow> ws_event list \<Rightarrow> farewell \<Rightarrow> prog" where
  "readerOps c restored evs f =
     connectOps c restored @ concat (map (\<lambda>ev. isClosedOps c @ readMessageOps c @ wsEventOps c ev) evs) @
     farewellOps c f @ cleanupOps c"
section \<open>The other goroutines\<close>

text \<open>
  A tick of \<^verbatim>\<open>cleanupTypingIndicators\<close>: for each room the entries that have expired, and whether it is left empty; for each such entry the
  client, and the broadcast if the client is still there. The broadcast runs under the locks of the typing table and of the clients.
\<close>

definition expireOps :: "nat \<times> cast option \<Rightarrow> prog" where
  "expireOps x = (case x of (c, b) \<Rightarrow>
     [Acc True STyping, Acq False ClientsMu, Acc False SClients] @
     (case b of None \<Rightarrow> [] | Some b' \<Rightarrow> Acc True (SIsTyping c) # broadcastOps b') @ [Rel ClientsMu])"

definition expireRoomOps :: "(nat \<times> cast option) list \<times> bool \<Rightarrow> prog" where
  "expireRoomOps x = (case x of (xs, emptied) \<Rightarrow>
     [Acc False STyping] @ concat (map expireOps xs) @ (if emptied then [Acc True STyping] else []))"

type_synonym tick = "((nat \<times> cast option) list \<times> bool) list"

definition tickOps :: "tick \<Rightarrow> prog" where
  "tickOps t = [Acq True TypingMu, Acc False STyping] @ concat (map expireRoomOps t) @ [Rel TypingMu]"

definition findClientOps :: prog where
  "findClientOps = [Acq False ClientsMu, Acc False SClients, Rel ClientsMu]"

text \<open>Uploads over HTTP run the handlers of messages for the client found, in the goroutine of the request.\<close>

definition fromHTTPOps :: "(nat \<times> cast option \<times> bool option) option \<Rightarrow> prog" where
  "fromHTTPOps x = findClientOps @ (case x of None \<Rightarrow> [] | Some (c, b, answer) \<Rightarrow> relayOps c b answer)"

definition usersOps :: prog where
  "usersOps = [Acq False ClientsMu, Acc False SClients, Rel ClientsMu]"

text \<open>\<^verbatim>\<open>GetRoomMembers\<close>: the room object found and the clients in it.\<close>

definition membersOps :: "(nat \<times> nat list) option \<Rightarrow> prog" where
  "membersOps x =
     [Acq False RoomsMu, Acc False SRooms, Rel RoomsMu] @
     (case x of None \<Rightarrow> []
      | Some (r, cs) \<Rightarrow> Acc False (SMembers r) # concat (map (\<lambda>c. [Acc False (SLastSeen c), Acc False (SMembers r)]) cs))"

definition upgradeOps :: prog where
  "upgradeOps = [Acq True PendingMu, Acc True SPending, Rel PendingMu]"

definition defaultRoomsOps :: prog where
  "defaultRoomsOps = concat (replicate 2 [Acq True RoomsMu, Acc True SRooms, Rel RoomsMu])"

datatype thread =
    Reader nat bool "ws_event list" farewell
  | KeepAlive nat bool nat ending
  | Disconnect nat "departure list"
  | Cleaner "tick list"
  | FromHTTP "(nat \<times> cast option \<times> bool option) option"
  | Users
  | Members "(nat \<times> nat list) option"
  | Upgrade
  | DefaultRooms
  | WsJoin nat bool
  | WsLeave "nat option" bool
  | WsCast "nat option" "(nat \<times> bool) list"
  | WsFragmented nat nat

fun threadOps :: "thread \<Rightarrow> prog" where
  "threadOps (Reader c restored evs f) = readerOps c restored evs f"
| "threadOps (KeepAlive c timed n ending) = keepAliveOps c timed n ending"
| "threadOps (Disconnect c es) = disconnectOps c es"
| "threadOps (Cleaner ts) = concat (map tickOps ts)"
| "threadOps (FromHTTP x) = fromHTTPOps x"
| "threadOps Users = usersOps"
| "threadOps (Members x) = membersOps x"
| "threadOps Upgrade = upgradeOps"
| "threadOps DefaultRooms = defaultRoomsOps"
| "threadOps (WsJoin r made) = joinWsOps r made"
| "threadOps (WsLeave found dropped) = leaveWsOps found dropped"
| "threadOps (WsCast found ds) = castWsOps found ds"
| "threadOps (WsFragmented c n) = writeFragmentedOps c n"

text \<open>Every connection has one goroutine that reads from it.\<close>

definition readers :: "thread list \<Rightarrow> nat list" where
  "readers ts = concat (map (\<lambda>t. case t of Reader c restored evs f \<Rightarrow> [c] | _ \<Rightarrow> []) ts)"

section \<open>The locks are taken in order\<close>

lemmas conn_ops = isClosedOps_def writeFrameOps_def writeMessageOps_def readMessageOps_def closeOps_def cleanupOps_def

lemma ordered_conn [simp]:
  "ordered rankOf 0 (isClosedOps c) []" "ordered rankOf 0 (writeFrameOps c) []" "ordered rankOf 0 (writeMessageOps d) []"
  "ordered rankOf 0 (readMessageOps c) []" "ordered rankOf 0 (closeOps c first) []"
  "ordered rankOf 0 (cleanupOps c) []"
  by (auto simp: conn_ops split: prod.split)

lemma above_conn [simp]: "above rankOf (Suc 0) (writeMessageOps d)"
  by (auto simp: conn_ops split: prod.split)

lemma ordered_loop [simp]:
  "(\<And>x. ordered rankOf 0 (f x) []) \<Longrightarrow> ordered rankOf 0 (concat (map f xs)) []"
  "ordered rankOf 0 p [] \<Longrightarrow> ordered rankOf 0 (concat (replicate n p)) []"
  by (rule ordered_concat, simp add: list_all_iff)+

lemma ordered_broadcast [simp]: "ordered rankOf 0 (broadcastOps b) []" "above rankOf (Suc 0) (broadcastOps b)"
  by (simp_all add: broadcastOps_def ordered_append list_all_iff split: option.split)

lemma ordered_sections [simp]:
  "ordered rankOf 0 (getRoomOps k) []" "ordered rankOf 0 (removeOps found dropped) []" "ordered rankOf 0 rateOps []"
  "ordered rankOf 0 (metaOps c m) []" "ordered rankOf 0 findClientOps []" "ordered rankOf 0 (connectOps c restored) []"
  by (simp_all add: getRoomOps_def removeOps_def rateOps_def metaOps_def findClientOps_def connectOps_def
      split: room_lookup.split option.split metadata.split)

lemma ordered_handlers [simp]:
  "ordered rankOf 0 (joinRoomOps c k allowed history b open') []" "ordered rankOf 0 (leaveRoomOps c left open') []"
  "ordered rankOf 0 (relayOps c b' answer) []" "ordered rankOf 0 (typingOps c b') []"
  "ordered rankOf 0 (binaryOps c file media b' open') []"
  by (simp_all add: joinRoomOps_def leaveRoomOps_def relayOps_def typingOps_def binaryOps_def ordered_append Let_def
      split: room_lookup.split option.split)

lemma ordered_request [simp]: "ordered rankOf 0 (requestOps c q) []"
  by (cases q) simp_all

lemma ordered_exit [simp]: "ordered rankOf 0 (exitOps c e) []"
  by (cases e) (simp add: ordered_append)

lemma ordered_disconnect [simp]: "ordered rankOf 0 (disconnectOps c es) []"
  by (simp add: disconnectOps_def ordered_append)

lemma ordered_farewell [simp]: "ordered rankOf 0 (farewellOps c f) []"
  by (simp add: farewellOps_def ordered_append split: farewell.split option.split)

lemma ordered_event [simp]: "ordered rankOf 0 (wsEventOps c ev) []"
  by (cases ev) (simp_all add: handleMessageOps_def ordered_append split: option.split)

text \<open>The broadcast of the cleaner runs under two locks of lower rank.\<close>

lemma ordered_expire: "ordered rankOf 0 (expireOps x @ q) [TypingMu] \<longleftrightarrow> ordered rankOf 0 q [TypingMu]"
  by (cases x) (simp add: expireOps_def ordered_frame_Nil [where b = "Suc 0"] split: option.split)

lemma ordered_expireRoom: "ordered rankOf 0 (expireRoomOps x @ q) [TypingMu] \<longleftrightarrow> ordered rankOf 0 q [TypingMu]"
proof -
  have "ordered rankOf 0 (concat (map expireOps xs) @ q) [TypingMu] \<longleftrightarrow> ordered rankOf 0 q [TypingMu]" for xs q
    by (induction xs) (simp_all add: ordered_expire)
  then show ?thesis by (cases x) (simp add: expireRoomOps_def)
qed

lemma ordered_tick [simp]: "ordered rankOf 0 (tickOps t) []"
proof -
  have "ordered rankOf 0 (concat (map expireRoomOps xs) @ q) [TypingMu] \<longleftrightarrow> ordered rankOf 0 q [TypingMu]" for xs q
    by (induction xs) (simp_all add: ordered_expireRoom)
  then show ?thesis by (simp add: tickOps_def)
qed

lemma ordered_thread: "ordered rankOf 0 (threadOps t) []"
proof (cases t)
  case (WsFragmented c n)
  have "ordered rankOf 0 (concat (replicate n (writeFrameOps c)) @ q) h \<longleftrightarrow> ordered rankOf 0 q h" for q h
    by (induction n) (simp_all add: writeFrameOps_def)
  then show ?thesis by (simp add: WsFragmented writeFragmentedOps_def)
qed (simp_all add: readerOps_def keepAliveOps_def fromHTTPOps_def usersOps_def membersOps_def upgradeOps_def
    defaultRoomsOps_def joinWsOps_def leaveWsOps_def castWsOps_def ordered_append numeral_2_eq_2 split: option.split prod.split ending.split)

section \<open>What is guarded stays guarded\<close>

lemma guarded_conn [simp]:
  assumes "guardOf v = Some l"
  shows "guarded v l (isClosedOps c) []" "guarded v l (writeFrameOps c) []" "guarded v l (writeMessageOps d) []"
    "guarded v l (readMessageOps c) []" "guarded v l (closeOps c first) []"
    "guarded v l (cleanupOps c) []"
  using assms by (cases v; auto simp: conn_ops split: prod.split)+

lemma guarded_loop [simp]:
  "(\<And>x. guarded v l (f x) []) \<Longrightarrow> guarded v l (concat (map f xs)) []"
  "guarded v l p [] \<Longrightarrow> guarded v l (concat (replicate n p)) []"
  by (rule guarded_concat, simp add: list_all_iff)+

lemma guarded_broadcast [simp]: "guardOf v = Some l \<Longrightarrow> guarded v l (broadcastOps b) []"
  by (cases v) (auto simp: broadcastOps_def guarded_append split: option.split)

lemma guarded_sections [simp]:
  assumes "guardOf v = Some l"
  shows "guarded v l (getRoomOps k) []" "guarded v l (removeOps found dropped) []" "guarded v l rateOps []"
    "guarded v l (metaOps c m) []" "guarded v l findClientOps []" "guarded v l (connectOps c restored) []"
  using assms
  by (cases v; auto simp: getRoomOps_def removeOps_def rateOps_def metaOps_def findClientOps_def connectOps_def
      split: room_lookup.split option.split metadata.split)+

lemma guarded_handlers [simp]:
  assumes "guardOf v = Some l"
  shows "guarded v l (joinRoomOps c k allowed history b open') []" "guarded v l (leaveRoomOps c left open') []"
    "guarded v l (relayOps c b' answer) []" "guarded v l (typingOps c b') []"
    "guarded v l (binaryOps c file media b' open') []"
  using assms
  by (cases v; auto simp: joinRoomOps_def leaveRoomOps_def relayOps_def typingOps_def binaryOps_def guarded_append Let_def
      split: room_lookup.split option.split)+

lemma guarded_request [simp]: "guardOf v = Some l \<Longrightarrow> guarded v l (requestOps c q) []"
  by (cases q) simp_all

lemma guarded_exit [simp]: "guardOf v = Some l \<Longrightarrow> guarded v l (exitOps c e) []"
  by (cases e) (auto intro!: guarded_append)

lemma guarded_disconnect [simp]: "guardOf v = Some l \<Longrightarrow> guarded v l (disconnectOps c es) []"
  by (cases v) (auto simp: disconnectOps_def guarded_append)

lemma guarded_message [simp]: "guardOf v = Some l \<Longrightarrow> guarded v l (handleMessageOps c q) []"
  by (cases v) (auto simp: handleMessageOps_def guarded_append)

lemma guarded_farewell [simp]: "guardOf v = Some l \<Longrightarrow> guarded v l (farewellOps c f) []"
  by (simp add: farewellOps_def guarded_append split: farewell.split option.split)

lemma guarded_event [simp]: "guardOf v = Some l \<Longrightarrow> guarded v l (wsEventOps c ev) []"
  by (cases ev) (auto simp: guarded_append split: option.split)

lemma guarded_expire:
  assumes "guardOf v = Some l" and "guarded v l q [(TypingMu, True)]"
  shows "guarded v l (expireOps x @ q) [(TypingMu, True)]"
proof -
  have "guarded v l (broadcastOps b @ Rel ClientsMu # q) [(ClientsMu, False), (TypingMu, True)]" for b
    by (rule guarded_frame_Nil [of _ _ _ rankOf 0 "Suc 0"]) (simp_all add: assms)
  then show ?thesis
    using assms by (cases x; cases v) (auto simp: expireOps_def split: option.split)
qed

lemma guarded_expireRoom:
  assumes "guardOf v = Some l" and "guarded v l q [(TypingMu, True)]"
  shows "guarded v l (expireRoomOps x @ q) [(TypingMu, True)]"
proof -
  have "guarded v l (concat (map expireOps xs) @ q) [(TypingMu, True)]" if "guarded v l q [(TypingMu, True)]" for xs q
    using that by (induction xs) (simp_all add: guarded_expire assms)
  then show ?thesis using assms by (cases x; cases v) (auto simp: expireRoomOps_def)
qed

lemma guarded_tick [simp]:
  assumes "guardOf v = Some l"
  shows "guarded v l (tickOps t) []"
proof -
  have "guarded v l (concat (map expireRoomOps xs) @ q) [(TypingMu, True)]" if "guarded v l q [(TypingMu, True)]" for xs q
    using that by (induction xs) (simp_all add: guarded_expireRoom assms)
  then show ?thesis using assms by (cases v) (auto simp: tickOps_def)
qed

lemma guarded_thread: "guardOf v = Some l \<Longrightarrow> guarded v l (threadOps t) []"
proof (cases t)
  case (WsFragmented c n)
  assume v: "guardOf v = Some l"
  have "guarded v l (concat (replicate n (writeFrameOps c)) @ q) h" if "guarded v l q h" for q h
    using that v by (induction n) (auto simp: writeFrameOps_def)
  then show ?thesis using v by (cases v) (auto simp: WsFragmented writeFragmentedOps_def)
qed (cases v; auto simp: readerOps_def keepAliveOps_def fromHTTPOps_def usersOps_def membersOps_def upgradeOps_def
    defaultRoomsOps_def joinWsOps_def leaveWsOps_def castWsOps_def guarded_append numeral_2_eq_2 split: option.split prod.split ending.split)+

interpretation chat: lock_discipline rankOf 0 threadOps guardOf
  by unfold_locales (simp_all add: ordered_thread guarded_thread)

section \<open>What can be raced\<close>

lemmas chat_run_simps = start_def able_def fire_def holds_def numeral_eq_Suc readers_def readerOps_def connectOps_def farewellOps_def
  handleMessageOps_def rateOps_def relayOps_def typingOps_def getRoomOps_def joinRoomOps_def broadcastOps_def conn_ops keepAliveOps_def membersOps_def
  disconnectOps_def joinWsOps_def castWsOps_def

text \<open>A schedule that brings two goroutines to a variable.\<close>

definition raceable :: "shared \<Rightarrow> bool" where
  "raceable v \<longleftrightarrow> (\<exists>ts sched. distinct (readers ts) \<and> racing (exec (start (map threadOps ts)) sched) v)"

lemma raceableI:
  assumes "map (\<lambda>g. take 1 (code g)) (exec (start (map threadOps ts)) (replicate m (1, True) @ replicate n (2, True))) =
      [[], [Acc w v], [Acc w' v]]"
    and "w \<or> w'" and "distinct (readers ts)"
  shows "raceable v"
  unfolding raceable_def using racing_first [OF assms(1), of "Suc 0" 2] assms(2,3) by fastforce

text \<open>A broadcast goes through the clients of a room while another client joins.\<close>

lemma members_raced: "raceable (SMembers r)"
  by (rule raceableI [of "[Reader 0 False [Text None (Relay (Some (Cast (Some r) [])) None)] FoundClosed,
        Reader 1 False [Text None (Join (Found r) True None (Cast None []) True)] FoundClosed]" 18 18 False _ True])
    (simp_all add: chat_run_simps)

text \<open>A client joins a room while a failed write to it has it disconnected.\<close>

lemma client_rooms_raced: "raceable (SClientRooms c)"
  by (rule raceableI [of "[Reader c False [Text None (Join (Found 0) True None (Cast None []) True)] FoundClosed, Disconnect c []]" 20 0 True _ False])
    (simp_all add: chat_run_simps)

text \<open>Somebody asks who is in a room while one of them sends a message.\<close>

lemma last_seen_raced: "raceable (SLastSeen c)"
  by (rule raceableI [of "[Reader c False [Text None (Invalid True)] FoundClosed, Members (Some (0, [c]))]" 10 4 True _ False])
    (simp_all add: chat_run_simps)

text \<open>A ping is answered while one is sent.\<close>

lemma writer_raced: "raceable (SWriter c)"
  by (rule raceableI [of "[Reader c False [Ping] FoundClosed, KeepAlive c False 1 Stopped]" 10 3 True _ True])
    (simp_all add: chat_run_simps)

text \<open>The connection ends while a ping waits for its pong.\<close>

lemma pong_timer_raced: "raceable (SPongTimer c)"
  by (rule raceableI [of "[Reader c False [] FoundClosed, KeepAlive c True 1 Stopped]" 7 4 False _ True])
    (simp_all add: chat_run_simps)

text \<open>The websocket server's own rooms are broadcast to in the same way.\<close>

lemma ws_members_raced: "raceable (SWsMembers r)"
  by (rule raceableI [of "[WsCast (Some r) [], WsJoin r False]" 3 2 False _ True])
    (simp_all add: chat_run_simps)

section \<open>Properties\<close>


text \<open>
  C23. Exactly the variables that the code has a lock for are safe from races: the tables of rooms, clients, typing clients, limits
  and uploads, and whether a connection is closed. The clients of a room, the rooms of a client, the time it was last seen, the writer
  and the timer of a connection and the members of the websocket server's rooms can be read or written by one goroutine while another writes them.
\<close>

theorem races_are_the_unguarded:
  "(\<exists>ts sched. distinct (readers ts) \<and> racing (exec (start (map threadOps ts)) sched) v) \<longleftrightarrow> guardOf v = None"
proof -
  have "raceable v" if "guardOf v = None"
    using that members_raced client_rooms_raced last_seen_raced writer_raced pong_timer_raced ws_members_raced by (cases v) simp_all
  then show ?thesis using chat.race_free [of v] unfolding raceable_def by blast
qed

end
