(* ===== verification/SioLocks.thy ===== *)
theory SioLocks
  imports Locks
begin

text \<open>
  The goroutines of the event server (\<^verbatim>\<open>src/hub.go\<close>, \<^verbatim>\<open>src/socket.go\<close>, \<^verbatim>\<open>src/server.go\<close>): those that read from the sockets, those that
  run handlers, and the hub, which is goroutine 0 and serves what is sent to its channels. Joining and leaving send to the hub while the rooms of
  the socket are locked, and the hub locks what it goes through while it writes to the sockets; nothing of this can block for good. The lists of
  sockets and rooms, however, are read by other goroutines without the lock the hub uses.
\<close>

section \<open>Locks and what is shared\<close>

text \<open>A number stands for a socket, or for a room object of the hub.\<close>

datatype sio_lock = RoomsL nat | ServL | HubL | RoomL nat | SockL nat

datatype sio_shared = SEvents | SHooks | SBackend | SSockets | SHubRooms | SRoomSockets nat | SSocketRooms nat | SSocketClosed nat | SWire nat

type_synonym sio_prog = "(sio_lock, sio_shared) op list"

fun guardedBy :: "sio_shared \<Rightarrow> sio_lock option" where
  "guardedBy SEvents = Some ServL"
| "guardedBy (SSocketClosed s) = Some (SockL s)"
| "guardedBy _ = None"

text \<open>The sockets of a room are changed by the hub alone, and read elsewhere under the lock of the room.\<close>

fun hubOwns :: "sio_shared \<Rightarrow> sio_lock option" where
  "hubOwns (SRoomSockets r) = Some (RoomL r)"
| "hubOwns _ = None"

text \<open>The hub comes between the locks that are held while it is waited for and those it takes.\<close>

fun level :: "sio_lock \<Rightarrow> nat" where
  "level (RoomsL s) = 0"
| "level ServL = 0"
| "level HubL = 2"
| "level (RoomL r) = 2"
| "level (SockL s) = 3"

abbreviation (input) hub_level :: nat where
  "hub_level \<equiv> Suc 0"

section \<open>What the hub does\<close>

definition sendOps :: "nat \<Rightarrow> sio_prog" where
  "sendOps s = [Acq True (SockL s), Acc True (SWire s), Rel (SockL s)]"

definition addJob :: sio_prog where
  "addJob = [Acq True HubL, Acc True SSockets, Rel HubL]"

definition delJob :: sio_prog where
  "delJob = [Acc True SSockets]"

text \<open>The room object, and whether it is made.\<close>

definition joinJob :: "nat \<Rightarrow> bool \<Rightarrow> sio_prog" where
  "joinJob r made =
     [Acc False SHubRooms] @ (if made then [Acc True SHubRooms] else []) @
     [Acc False SHubRooms, Acq True (RoomL r), Acc False SHubRooms, Acc True (SRoomSockets r), Acc False SHubRooms, Rel (RoomL r)]"

text \<open>The room object found, and whether it is dropped. Whether it is empty is looked up after the lock is given back.\<close>

definition leaveJob :: "(nat \<times> bool) option \<Rightarrow> sio_prog" where
  "leaveJob found =
     [Acc False SHubRooms] @
     (case found of None \<Rightarrow> []
      | Some (r, dropped) \<Rightarrow> [Acq True (RoomL r), Acc True (SRoomSockets r), Rel (RoomL r), Acc False (SRoomSockets r)] @
                            (if dropped then [Acc True SHubRooms] else []))"

text \<open>The sockets are those that the message goes to.\<close>

definition roomJob :: "(nat \<times> nat list) option \<Rightarrow> sio_prog" where
  "roomJob found =
     [Acc False SHubRooms] @
     (case found of None \<Rightarrow> []
      | Some (r, ss) \<Rightarrow> [Acq True (RoomL r), Acc False (SRoomSockets r)] @
                       concat (map (\<lambda>s. sendOps s @ [Acc False (SRoomSockets r)]) ss) @ [Rel (RoomL r)])"

definition broadcastJob :: "nat list \<Rightarrow> sio_prog" where
  "broadcastJob ss =
     [Acq True HubL, Acc False SSockets] @ concat (map (\<lambda>s. sendOps s @ [Acc False SSockets]) ss) @ [Rel HubL]"

definition shutdownJob :: sio_prog where
  "shutdownJob = [Acq True HubL, Acc False SSockets, Rel HubL]"

text \<open>Messages and broadcasts of this server go to the adapter too, if there is one; those that come from it do not.\<close>

definition roomcastJob :: "(nat \<times> nat list) option \<Rightarrow> sio_prog" where
  "roomcastJob found = roomJob found @ [Acc False SBackend]"

definition relayedJob :: "nat list \<Rightarrow> sio_prog" where
  "relayedJob ss = broadcastJob ss @ [Acc False SBackend]"

section \<open>What sockets, handlers and the program do\<close>

definition emitOps :: "nat \<Rightarrow> sio_prog" where
  "emitOps s = sendOps s"

definition joinOps :: "nat \<Rightarrow> nat \<Rightarrow> bool \<Rightarrow> sio_prog" where
  "joinOps s r made = [Acq True (RoomsL s), Req (joinJob r made), Acc True (SSocketRooms s), Rel (RoomsL s)]"

definition leaveOps :: "nat \<Rightarrow> (nat \<times> bool) option \<Rightarrow> sio_prog" where
  "leaveOps s found = [Acq True (RoomsL s), Req (leaveJob found), Acc True (SSocketRooms s), Rel (RoomsL s)]"

text \<open>\<^verbatim>\<open>LeaveAll\<close> goes through the rooms of the socket without the lock.\<close>

definition leaveAllOps :: "nat \<Rightarrow> (nat \<times> bool) option list \<Rightarrow> sio_prog" where
  "leaveAllOps s xs = [Acc False (SSocketRooms s)] @ concat (map (\<lambda>x. leaveOps s x @ [Acc False (SSocketRooms s)]) xs)"

definition getRoomsOps :: "nat \<Rightarrow> sio_prog" where
  "getRoomsOps s = [Acq False (RoomsL s), Acc False (SSocketRooms s), Rel (RoomsL s)]"

definition inRoomOps :: "nat \<Rightarrow> sio_prog" where
  "inRoomOps s = [Acq False (RoomsL s), Acc False (SSocketRooms s), Rel (RoomsL s)]"

definition roomSocketListOps :: "nat option \<Rightarrow> sio_prog" where
  "roomSocketListOps found =
     [Acc False SHubRooms] @
     (case found of None \<Rightarrow> [] | Some r \<Rightarrow> [Acq True (RoomL r), Acc False (SRoomSockets r), Rel (RoomL r)])"

text \<open>\<^verbatim>\<open>SocketList\<close> takes the lock of the server, not that of the hub.\<close>

definition socketListOps :: sio_prog where
  "socketListOps = [Acq True ServL, Acc False SSockets, Rel ServL]"

definition onOps :: sio_prog where
  "onOps = [Acq True ServL, Acc True SEvents, Rel ServL]"

definition offOps :: sio_prog where
  "offOps = [Acq True ServL, Acc True SEvents, Rel ServL]"

text \<open>\<^verbatim>\<open>OnConnect\<close>, \<^verbatim>\<open>OnDisconnect\<close> and \<^verbatim>\<open>OnError\<close> take no lock.\<close>

definition hookOps :: sio_prog where
  "hookOps = [Acc True SHooks]"

text \<open>\<^verbatim>\<open>SetMultihomeBackend\<close> takes none either; there may be an adapter already.\<close>

definition setBackendOps :: "bool \<Rightarrow> sio_prog" where
  "setBackendOps first = [Acc False SBackend] @ (if first then [Acc True SBackend] else [])"

text \<open>
  Calls of the library. \<^verbatim>\<open>Close\<close> stops early when the socket is closed already, or when the connection cannot be closed; else it leaves the rooms,
  runs the handler for disconnects, which may call the library again, and takes the socket out of the hub unless that handler fails.
\<close>

datatype call =
    Emit nat
  | ToRoom "(nat \<times> nat list) option"
  | Broadcast "nat list"
  | RoomFromBackend "(nat \<times> nat list) option"
  | BroadcastFromBackend "nat list"
  | SetBackend bool
  | Join nat nat bool
  | Leave nat "(nat \<times> bool) option"
  | LeaveAll nat "(nat \<times> bool) option list"
  | InRoom nat
  | GetRooms nat
  | RoomSocketList "nat option"
  | SocketList
  | On
  | Off
  | OnHook
  | CloseAgain nat
  | CloseFails nat
  | Closes nat "(nat \<times> bool) option list" "call list" bool
  | Shutdown "call list"

fun callOps :: "call \<Rightarrow> sio_prog" where
  "callOps (Emit s) = emitOps s"
| "callOps (ToRoom found) = [Req (roomcastJob found)]"
| "callOps (Broadcast ss) = [Req (relayedJob ss)]"
| "callOps (RoomFromBackend found) = [Req (roomJob found)]"
| "callOps (BroadcastFromBackend ss) = [Req (broadcastJob ss)]"
| "callOps (SetBackend first) = setBackendOps first"
| "callOps (Join s r made) = joinOps s r made"
| "callOps (Leave s found) = leaveOps s found"
| "callOps (LeaveAll s xs) = leaveAllOps s xs"
| "callOps (InRoom s) = inRoomOps s"
| "callOps (GetRooms s) = getRoomsOps s"
| "callOps (RoomSocketList found) = roomSocketListOps found"
| "callOps SocketList = socketListOps"
| "callOps On = onOps"
| "callOps Off = offOps"
| "callOps OnHook = hookOps"
| "callOps (CloseAgain s) = [Acq True (SockL s), Acc True (SSocketClosed s), Rel (SockL s)]"
| "callOps (CloseFails s) = [Acq True (SockL s), Acc True (SSocketClosed s), Rel (SockL s)]"
| "callOps (Closes s xs handler ok) =
     [Acq True (SockL s), Acc True (SSocketClosed s), Rel (SockL s)] @ getRoomsOps s @ concat (map (leaveOps s) xs) @
     [Acq False ServL, Acc False SHooks, Rel ServL] @ concat (map callOps handler) @ (if ok then [Req delJob] else [])"
| "callOps (Shutdown closes) = [Req shutdownJob, Req []] @ concat (map callOps closes) @ [Acc False SBackend]"

text \<open>
  The goroutine of a socket: it enters the hub and its own room, looks up the handler for new connections and runs it, and if that fails the handler for errors; then it looks up the handler of each message; at the end
  it closes the socket.
\<close>

definition loopOps :: "nat \<Rightarrow> nat \<Rightarrow> bool \<Rightarrow> call list \<Rightarrow> bool \<Rightarrow> nat \<Rightarrow> call \<Rightarrow> sio_prog" where
  "loopOps s r made handler failed n close =
     [Req addJob] @ joinOps s r made @ [Acq False ServL, Acc False SHooks, Rel ServL] @ concat (map callOps handler) @
     (if failed then [Acc False SHooks] else []) @ concat (replicate n [Acq False ServL, Acc False SEvents, Rel ServL]) @ callOps close"

text \<open>The goroutine that keeps a socket alive writes to the connection without the lock of the socket.\<close>

definition pingOps :: "nat \<Rightarrow> nat \<Rightarrow> sio_prog" where
  "pingOps s n = replicate n (Acc True (SWire s))"

text \<open>Handlers of messages and the rest of the program are lists of calls; so is what comes in from other servers.\<close>

datatype task = Loop nat nat bool "call list" bool nat call | Ping nat nat | Calls "call list"

fun taskOps :: "task \<Rightarrow> sio_prog" where
  "taskOps (Loop s r made handler failed n close) = loopOps s r made handler failed n close"
| "taskOps (Ping s n) = pingOps s n"
| "taskOps (Calls cs) = concat (map callOps cs)"

definition loops :: "task list \<Rightarrow> nat list" where
  "loops ts = concat (map (\<lambda>t. case t of Loop s r made handler failed n close \<Rightarrow> [s] | _ \<Rightarrow> []) ts)"

section \<open>The order of the locks\<close>

lemmas job_defs = addJob_def delJob_def joinJob_def leaveJob_def roomJob_def broadcastJob_def shutdownJob_def sendOps_def

lemma jobOk_sends: "l = HubL \<or> l = RoomL r \<Longrightarrow>
   jobOk level hub_level (concat (map (\<lambda>s. sendOps s @ [Acc False v]) ss) @ q) [l] \<longleftrightarrow> jobOk level hub_level q [l]"
  by (induction ss) (auto simp: sendOps_def)

lemma jobOk_jobs [simp]:
  "jobOk level hub_level addJob []" "jobOk level hub_level delJob []" "jobOk level hub_level (joinJob r made) []"
  "jobOk level hub_level (leaveJob found) []" "jobOk level hub_level (roomJob found') []"
  "jobOk level hub_level (broadcastJob ss) []" "jobOk level hub_level shutdownJob []"
  "jobOk level hub_level (roomcastJob found') []" "jobOk level hub_level (relayedJob ss) []"
proof -
  show "jobOk level hub_level (roomJob found') []" "jobOk level hub_level (roomcastJob found') []"
    by (auto simp: roomcastJob_def roomJob_def jobOk_sends split: option.split)
  show "jobOk level hub_level (broadcastJob ss) []" "jobOk level hub_level (relayedJob ss) []"
    by (simp_all add: relayedJob_def broadcastJob_def jobOk_sends)
qed (auto simp: job_defs split: option.split)

lemma ordered_socket [simp]:
  "ordered level hub_level (emitOps s) []" "ordered level hub_level (joinOps s r made) []"
  "ordered level hub_level (leaveOps s found) []" "ordered level hub_level (getRoomsOps s) []"
  "ordered level hub_level (inRoomOps s) []" "ordered level hub_level (roomSocketListOps found') []"
  "ordered level hub_level socketListOps []" "ordered level hub_level onOps []" "ordered level hub_level offOps []"
  "ordered level hub_level hookOps []" "ordered level hub_level (setBackendOps first) []" "ordered level hub_level (pingOps s n) []"
proof -
  show "ordered level hub_level (pingOps s n) []" by (induction n) (simp_all add: pingOps_def)
qed (auto simp: emitOps_def sendOps_def joinOps_def leaveOps_def getRoomsOps_def inRoomOps_def roomSocketListOps_def
    socketListOps_def onOps_def offOps_def hookOps_def setBackendOps_def split: option.split)

lemma ordered_each: "(\<And>x. x \<in> set xs \<Longrightarrow> ordered level hub_level (f x) []) \<Longrightarrow> ordered level hub_level (concat (map f xs)) []"
  by (rule ordered_concat) (simp add: list_all_iff)

lemma ordered_leaveAll [simp]: "ordered level hub_level (leaveAllOps s xs) []"
  by (simp add: leaveAllOps_def ordered_each ordered_append)

lemma ordered_call [simp]: "ordered level hub_level (callOps c) []"
  by (induction c rule: callOps.induct) (simp_all add: ordered_append ordered_each)

lemma ordered_task: "ordered level hub_level (taskOps t) []"
proof (cases t)
  case (Loop s r made handler failed n close)
  have "ordered level hub_level (concat (replicate n [Acq False ServL, Acc False SEvents, Rel ServL])) []"
    by (induction n) simp_all
  then show ?thesis by (simp add: Loop loopOps_def ordered_append ordered_each)
qed (simp_all add: ordered_each)
section \<open>What is guarded, and what the hub owns\<close>

lemma guarded_sends:
  "guardedBy x = Some l \<Longrightarrow> guardedBy v = None \<Longrightarrow>
   guarded x l (concat (map (\<lambda>s. sendOps s @ [Acc False v]) ss) @ [Rel m]) h"
  by (induction ss arbitrary: h) (cases x; auto simp: sendOps_def)+

lemma guarded_jobs [simp]:
  assumes "guardedBy v = Some l"
  shows "guarded v l addJob []" "guarded v l delJob []" "guarded v l (joinJob r made) []" "guarded v l (leaveJob found) []"
    "guarded v l (roomJob found') []" "guarded v l (broadcastJob ss) []" "guarded v l shutdownJob []"
    "guarded v l (roomcastJob found') []" "guarded v l (relayedJob ss) []"
proof -
  show "guarded v l (roomJob found') []"
    using assms by (cases v) (auto simp: roomJob_def guarded_sends split: option.split)
  then show "guarded v l (roomcastJob found') []"
    using assms by (cases v) (auto simp: roomcastJob_def intro!: guarded_append)
  show "guarded v l (broadcastJob ss) []"
    using assms by (cases v) (auto simp: broadcastJob_def guarded_sends)
  then show "guarded v l (relayedJob ss) []"
    using assms by (cases v) (auto simp: relayedJob_def intro!: guarded_append)
qed (use assms in \<open>cases v; auto simp: job_defs split: option.split\<close>)+

lemma guarded_socket [simp]:
  assumes "guardedBy v = Some l"
  shows "guarded v l (emitOps s) []" "guarded v l (joinOps s r made) []" "guarded v l (leaveOps s found) []"
    "guarded v l (getRoomsOps s) []" "guarded v l (inRoomOps s) []" "guarded v l (roomSocketListOps found') []"
    "guarded v l socketListOps []" "guarded v l onOps []" "guarded v l offOps []" "guarded v l hookOps []" "guarded v l (setBackendOps first) []"
    "guarded v l (pingOps s n) []"
proof -
  show "guarded v l (pingOps s n) []"
    using assms by (induction n) (auto simp: pingOps_def)
qed (use assms in \<open>cases v; auto simp: emitOps_def sendOps_def joinOps_def leaveOps_def getRoomsOps_def inRoomOps_def
    roomSocketListOps_def socketListOps_def onOps_def offOps_def hookOps_def setBackendOps_def split: option.split\<close>)+

lemma guarded_each: "(\<And>x. x \<in> set xs \<Longrightarrow> guarded v l (f x) []) \<Longrightarrow> guarded v l (concat (map f xs)) []"
  by (rule guarded_concat) (simp add: list_all_iff)

lemma guarded_leaveAll [simp]:
  assumes "guardedBy v = Some l"
  shows "guarded v l (leaveAllOps s xs) []"
proof -
  have "guarded v l (concat (map (\<lambda>x. leaveOps s x @ [Acc False (SSocketRooms s)]) xs)) []"
    using assms by (intro guarded_each guarded_append) auto
  then show ?thesis using assms by (cases v) (auto simp: leaveAllOps_def)
qed

lemma guarded_call [simp]: "guardedBy v = Some l \<Longrightarrow> guarded v l (callOps c) []"
  by (induction c rule: callOps.induct) (cases v; auto simp: guarded_append guarded_each)+

lemma guarded_task: "guardedBy v = Some l \<Longrightarrow> guarded v l (taskOps t) []"
proof (cases t)
  case (Loop s r made handler failed n close)
  assume v: "guardedBy v = Some l"
  then have "guarded v l (concat (replicate n [Acq False ServL, Acc False SEvents, Rel ServL])) []"
    by (induction n) (cases v; auto)+
  then show ?thesis using v by (cases v) (auto simp: Loop loopOps_def guarded_append guarded_each)
qed (simp_all add: guarded_each)

lemma ownerOk_sends:
  "v \<noteq> SWire s \<Longrightarrow> hubOwns v = Some l \<Longrightarrow> ownerOk v l (concat (map (\<lambda>s. sendOps s @ [Acc False x]) ss) @ [Rel m]) h"
  by (induction ss arbitrary: h) (cases v; auto simp: sendOps_def)+

lemma ownerOk_jobs [simp]:
  assumes "hubOwns v = Some l"
  shows "ownerOk v l addJob []" "ownerOk v l delJob []" "ownerOk v l (joinJob r made) []" "ownerOk v l (leaveJob found) []"
    "ownerOk v l (roomJob found') []" "ownerOk v l (broadcastJob ss) []" "ownerOk v l shutdownJob []"
    "ownerOk v l (roomcastJob found') []" "ownerOk v l (relayedJob ss) []"
proof -
  show "ownerOk v l (roomJob found') []"
    using assms by (cases v) (auto simp: roomJob_def ownerOk_sends split: option.split)
  then show "ownerOk v l (roomcastJob found') []"
    by (simp add: roomcastJob_def ownerOk_append)
  show "ownerOk v l (broadcastJob ss) []"
    using assms by (cases v) (auto simp: broadcastJob_def ownerOk_sends)
  then show "ownerOk v l (relayedJob ss) []"
    by (simp add: relayedJob_def ownerOk_append)
qed (use assms in \<open>cases v; auto simp: job_defs split: option.split\<close>)+

lemma lent_socket [simp]:
  assumes "hubOwns v = Some l"
  shows "lent v l (emitOps s) []" "lent v l (joinOps s r made) []" "lent v l (leaveOps s found) []"
    "lent v l (getRoomsOps s) []" "lent v l (inRoomOps s) []" "lent v l (roomSocketListOps found') []"
    "lent v l socketListOps []" "lent v l onOps []" "lent v l offOps []" "lent v l hookOps []" "lent v l (setBackendOps first) []" "lent v l (pingOps s n) []"
proof -
  show "lent v l (pingOps s n) []"
    using assms by (induction n) (auto simp: pingOps_def)
qed (use assms in \<open>cases v; auto simp: emitOps_def sendOps_def joinOps_def leaveOps_def getRoomsOps_def inRoomOps_def
    roomSocketListOps_def socketListOps_def onOps_def offOps_def hookOps_def setBackendOps_def split: option.split\<close>)+

lemma lent_each: "(\<And>x. x \<in> set xs \<Longrightarrow> lent v l (f x) []) \<Longrightarrow> lent v l (concat (map f xs)) []"
  by (rule lent_concat) (simp add: list_all_iff)

lemma lent_leaveAll [simp]:
  assumes "hubOwns v = Some l"
  shows "lent v l (leaveAllOps s xs) []"
proof -
  have "lent v l (concat (map (\<lambda>x. leaveOps s x @ [Acc False (SSocketRooms s)]) xs)) []"
    using assms by (intro lent_each lent_append) auto
  then show ?thesis using assms by (cases v) (auto simp: leaveAllOps_def)
qed

lemma lent_call [simp]: "hubOwns v = Some l \<Longrightarrow> lent v l (callOps c) []"
  by (induction c rule: callOps.induct) (cases v; auto simp: lent_append lent_each)+

lemma lent_task: "hubOwns v = Some l \<Longrightarrow> lent v l (taskOps t) []"
proof (cases t)
  case (Loop s r made handler failed n close)
  assume v: "hubOwns v = Some l"
  then have "lent v l (concat (replicate n [Acq False ServL, Acc False SEvents, Rel ServL])) []"
    by (induction n) (cases v; auto)+
  then show ?thesis using v by (cases v) (auto simp: Loop loopOps_def lent_append lent_each)
qed (simp_all add: lent_each)

interpretation events: lock_discipline level hub_level taskOps guardedBy
  by unfold_locales (simp_all add: ordered_task guarded_task)

interpretation events: lock_owners taskOps hubOwns
  by unfold_locales (simp add: lent_task)

section \<open>What can be raced\<close>

lemmas event_run_simps = start_def able_def fire_def holds_def numeral_eq_Suc loops_def loopOps_def joinOps_def leaveOps_def leaveAllOps_def
  setBackendOps_def roomcastJob_def roomJob_def getRoomsOps_def socketListOps_def roomSocketListOps_def hookOps_def emitOps_def sendOps_def pingOps_def joinJob_def delJob_def

definition eventRaceable :: "sio_shared \<Rightarrow> bool" where
  "eventRaceable v \<longleftrightarrow> (\<exists>ts sched. distinct (loops ts) \<and> racing (exec (start (map taskOps ts)) sched) v)"

lemma raceableAt:
  assumes "map (\<lambda>g. take 1 (code g)) (exec (start (map taskOps ts)) (replicate k (1, True) @ replicate m (2, True) @ replicate n (0, True))) = ps"
    and "i < length ps" and "j < length ps" and "i \<noteq> j" and "ps ! i = [Acc w v]" and "ps ! j = [Acc w' v]" and "w \<or> w'"
    and "distinct (loops ts)"
  shows "eventRaceable v"
  unfolding eventRaceable_def using racing_first [OF assms(1-7)] assms(8) by blast

text \<open>The list of sockets is read while a socket is taken out.\<close>

lemma sockets_raced: "eventRaceable SSockets"
  by (rule raceableAt [of "[Calls [Closes 0 [] [] True], Calls [SocketList]]" 10 1 0
        "[[Acc True SSockets], [], [Acc False SSockets]]" 0 2 True _ False])
    (simp_all add: event_run_simps)

text \<open>A room is looked up while one is made.\<close>

lemma rooms_raced: "eventRaceable SHubRooms"
  by (rule raceableAt [of "[Calls [RoomSocketList None], Calls [Join 0 0 True]]" 0 2 1
        "[[Acc True SHubRooms], [Acc False SHubRooms], [Acc True (SSocketRooms 0)]]" 0 1 True _ False])
    (simp_all add: event_run_simps)

text \<open>A socket leaves all its rooms in one handler while it joins one in another.\<close>

lemma socket_rooms_raced: "eventRaceable (SSocketRooms s)"
  by (rule raceableAt [of "[Calls [LeaveAll s []], Calls [Join s 0 True]]" 0 2 0
        "[[Acc False SHubRooms], [Acc False (SSocketRooms s)], [Acc True (SSocketRooms s)]]" 1 2 False _ True])
    (simp_all add: event_run_simps)

text \<open>A ping is written while an event is.\<close>

lemma wire_raced: "eventRaceable (SWire s)"
  by (rule raceableAt [of "[Ping s 1, Calls [Emit s]]" 0 1 0 "[[], [Acc True (SWire s)], [Acc True (SWire s)]]" 1 2 True _ True])
    (simp_all add: event_run_simps)

text \<open>A handler is set while a socket looks it up.\<close>

lemma hooks_raced: "eventRaceable SHooks"
  by (rule raceableAt [of "[Calls [OnHook], Calls [Closes 0 [] [] True]]" 0 7 0
        "[[], [Acc True SHooks], [Acc False SHooks]]" 1 2 True _ False])
    (simp_all add: event_run_simps)

text \<open>An adapter is set while the hub asks whether there is one.\<close>

lemma backend_raced: "eventRaceable SBackend"
  by (rule raceableAt [of "[Calls [SetBackend True], Calls [ToRoom None]]" 1 1 1
        "[[Acc False SBackend], [Acc True SBackend], []]" 0 1 False _ True])
    (simp_all add: event_run_simps)

section \<open>Properties\<close>


text \<open>
  C27. Exactly the handlers of events, the flag that a socket is closed and the sockets of each room are safe from races. The sockets and the rooms of the hub,
  the rooms of a socket, its connection, the handlers for connections and the adapter can be read or written by one goroutine while another writes them.
\<close>

theorem event_races_are_the_unguarded:
  "(\<exists>ts sched. distinct (loops ts) \<and> racing (exec (start (map taskOps ts)) sched) v) \<longleftrightarrow>
   guardedBy v = None \<and> hubOwns v = None"
proof -
  have "eventRaceable v" if "guardedBy v = None \<and> hubOwns v = None"
    using that sockets_raced rooms_raced socket_rooms_raced wire_raced hooks_raced backend_raced by (cases v) simp_all
  then show ?thesis
    using events.race_free [of v] events.owner_race_free [of v] unfolding eventRaceable_def by blast
qed

end
