(* ===== verification/Examples.thy ===== *)
theory Examples
  imports ChatMain ChatHttp WsClient
begin

text \<open>
  The two programs under \<^verbatim>\<open>examples/\<close>: the chat server with its flags, routes and life, and a client that greets,
  sends a numbered text every five seconds and closes. What they print is left out, where nothing else depends on it.
\<close>

section \<open>The server: configuration\<close>

record flags =
  flPort :: int
  flHost :: string
  flDB :: string
  flTLSCert :: string
  flTLSKey :: string
  flMaxMsgLen :: int
  flRateLimit :: int
  flCorsOrigins :: string

definition defaultFlags :: flags where
  "defaultFlags = \<lparr>flPort = 8080, flHost = ''localhost'', flDB = '''', flTLSCert = '''', flTLSKey = '''', flMaxMsgLen = 4096000,
     flRateLimit = 100, flCorsOrigins = ''*''\<rparr>"

text \<open>The database and the line printed before.\<close>

definition exampleDatabase :: "flags \<Rightarrow> string list \<times> InMemoryDB" where
  "exampleDatabase fl =
     (if flDB fl \<noteq> '''' then ([''PostgreSQL support not implemented yet, using in-memory database''], NewInMemoryDB)
      else ([], NewInMemoryDB))"

definition exampleWSConfig :: "flags \<Rightarrow> ServerConfig" where
  "exampleWSConfig fl = DefaultWSConfig\<lparr>MaxMessageSize := flMaxMsgLen fl, MaxFrameSize := flMaxMsgLen fl,
     CheckOrigin := Some (\<lambda>r. if flCorsOrigins fl = ''*'' then True else True)\<rparr>"

definition exampleSecurity :: "flags \<Rightarrow> SecurityConfig" where
  "exampleSecurity fl = \<lparr>MaxMessageLength = flMaxMsgLen fl, AllowedOrigins = [flCorsOrigins fl],
     RateLimitPerSocket = \<lparr>rlRequests = flRateLimit fl, rlWindowSize = 60 * 10 ^ 9, rlLastReset = 0, rlCurrentUsed = 0\<rparr>\<rparr>"

definition exampleConfig :: "flags \<Rightarrow> InMemoryDB ChatConfig" where
  "exampleConfig fl = \<lparr>ccPort = flPort fl, ccHost = flHost fl, ccDatabase = snd (exampleDatabase fl), ccSecurity = exampleSecurity fl,
     ccTLSCertFile = flTLSCert fl, ccTLSKeyFile = flTLSKey fl, ccWS = Some (exampleWSConfig fl)\<rparr>"

section \<open>The server: routes\<close>

text \<open>
  The routes of \<^verbatim>\<open>SetupRoutes\<close>, a health check, static files under their path, the demo page, and nothing else. (The pattern
  \<^verbatim>\<open>/\<close> takes what no other takes; \<open>SetupRoutes\<close> answers that with the same error.)
\<close>

definition exampleMux :: "'db env \<Rightarrow> request \<Rightarrow> headers \<Rightarrow> 'db srv \<Rightarrow> response outcome \<times> 'db srv" where
  "exampleMux e r h s =
     (let p = rqPath r
      in if p = ''/health'' then
           (Returned \<lparr>rsStatus = 200, rsHeaders = m_put ''Content-Type'' ''application/json'' h,
              rsBody = BText (''{'' @ [CHR 0x22] @ ''status'' @ [CHR 0x22] @ '':'' @ [CHR 0x22] @ ''ok'' @ [CHR 0x22] @ '','' @
                [CHR 0x22] @ ''service'' @ [CHR 0x22] @ '':'' @ [CHR 0x22] @ ''chat-server'' @ [CHR 0x22] @ ''}'')\<rparr>, s)
         else if hasPrefix p ''/static/'' then
           (Returned \<lparr>rsStatus = 200, rsHeaders = h, rsBody = BPage (''./static/'' @ drop (length ''/static/'') p)\<rparr>, s)
         else if p = ''/'' then (Returned \<lparr>rsStatus = 200, rsHeaders = h, rsBody = BPage ''./static/demo.html''\<rparr>, s)
         else SetupRoutes e r h s)"

definition exampleServe :: "'db env \<Rightarrow> request \<Rightarrow> 'db srv \<Rightarrow> response outcome \<times> 'db srv" where
  "exampleServe e r s = CORS (exampleMux e) r [] s"

definition exampleAddr :: "flags \<Rightarrow> string" where
  "exampleAddr fl = flHost fl @ '':'' @ intText (flPort fl + 1)"

section \<open>The server: its life\<close>

datatype exit = Fatal string | Finished | Crashed

text \<open>
  Both servers are started by goroutines; an error of either ends the program at once (\<open>herr\<close>, that of the HTTP server).
  Otherwise they serve until a signal arrives, which is \<open>serve\<close>. Then \<^verbatim>\<open>Stop\<close> is called; its error and that of closing
  the HTTP server are only printed. What \<open>exampleMain\<close> also gives is the chat server it leaves.
\<close>

definition exampleMain ::
  "InMemoryDB env \<Rightarrow> (connPtr \<Rightarrow> conn) \<Rightarrow> flags \<Rightarrow> string option \<Rightarrow> ws_error option \<Rightarrow> string option \<Rightarrow>
   (InMemoryDB chatServer \<Rightarrow> InMemoryDB chatServer) \<Rightarrow> ws_error option \<Rightarrow> exit \<times> InMemoryDB chatServer" where
  "exampleMain e heap fl certErr lerr herr serve cerr =
     (let config = exampleConfig fl
      in case Start e heap config certErr lerr (NewServer heap config) of
           (Some err, cs) \<Rightarrow> (Fatal ''Failed to start chat server'', cs)
         | (None, cs) \<Rightarrow>
             (case herr of
                Some err \<Rightarrow> (Fatal ''Failed to start HTTP server'', cs)
              | None \<Rightarrow>
                  (case Stop cerr (serve cs) of
                     (Panicked, cs') \<Rightarrow> (Crashed, cs')
                   | (Returned _, cs') \<Rightarrow> (Finished, cs'))))"

text \<open>
  The flag \<^verbatim>\<open>cors-origins\<close> says comma-separated, but its text is never split: the server lets in exactly the requests whose
  origin is the whole text (or all, for the star), whatever the check that the program itself configures, which \<^verbatim>\<open>NewServer\<close>
  replaces. So a list of two origins lets no browser in, because no origin has a comma.
\<close>

theorem example_origins:
  "\<exists>f. CheckOrigin (wsConfig (NewServer heap (exampleConfig fl))) = Some f \<and>
    (\<forall>r. f r = (flCorsOrigins fl = ''*'' \<or> flCorsOrigins fl = headerGet (Header r) ''Origin'')) \<and>
    (CHR '','' \<in> set (flCorsOrigins fl) \<longrightarrow> (\<forall>r. CHR '','' \<notin> set (headerGet (Header r) ''Origin'') \<longrightarrow> \<not> f r))"
  by (auto simp: NewServer_def exampleConfig_def exampleSecurity_def checkOrigin_def originAllowed_def)

definition demo_browser :: Request where
  "demo_browser = \<lparr>Method = ''GET'', RequestURI = ''/ws'', Header = [(''Origin'', [''https://a''])]\<rparr>"

theorem example_origins_witness:
  "\<exists>f. CheckOrigin (wsConfig (NewServer (\<lambda>_. demo_conn) (exampleConfig (defaultFlags\<lparr>flCorsOrigins := ''https://a,https://b''\<rparr>)))) = Some f \<and>
    \<not> f demo_browser"
proof -
  let ?fl = "defaultFlags\<lparr>flCorsOrigins := ''https://a,https://b''\<rparr>"
  have "CHR '','' \<in> set (flCorsOrigins ?fl)" by simp
  moreover have "CHR '','' \<notin> set (headerGet (Header demo_browser) ''Origin'')" by code_simp
  ultimately show ?thesis using example_origins [of "\<lambda>_. demo_conn" ?fl] by blast
qed

text \<open>
  If both servers start and the chat server keeps running until the signal, the program ends by itself: it does not panic, the
  listener is closed, and no loop of it is left.
\<close>

theorem example_ends:
  assumes "flTLSCert fl = ''''" and "\<And>cs. ws (serve cs) = ws cs"
  shows "\<exists>cs. exampleMain e heap fl certErr None None serve cerr = (Finished, cs) \<and>
    \<not> running (ws cs) \<and> \<not> listener (ws cs) \<and> \<not> accepting (ws cs) \<and> \<not> ticking cs"
proof -
  let ?cfg = "exampleConfig fl"
  define cs where "cs = snd (Start e heap ?cfg certErr None (NewServer heap ?cfg))"
  have "ccTLSCertFile ?cfg = ''''" using assms(1) by (simp add: exampleConfig_def)
  from Start_plain [OF this, of e heap certErr None "NewServer heap ?cfg"]
  have st: "Start e heap ?cfg certErr None (NewServer heap ?cfg) = (None, cs)" and w: "running (ws cs)" "\<not> stopped (ws cs)" "listener (ws cs)"
    unfolding cs_def by (simp_all add: NewServer_def WsServer.NewServer_def Listen_def)
  have "WsServer.Stop cerr (ws (serve cs)) =
      (Returned cerr, (ws cs)\<lparr>stopped := True, running := False, accepting := False, listener := False\<rparr>)"
    using w unfolding assms(2) by (simp add: WsServer.Stop_def)
  then show ?thesis unfolding exampleMain_def Let_def st by (simp add: Stop_def)
qed

theorem example_ends_witness:
  "\<exists>cs. exampleMain demo_env (\<lambda>_. demo_conn) defaultFlags None None None (chat_update (\<lambda>_. demo_lobby)) None = (Finished, cs) \<and>
    \<not> running (ws cs) \<and> \<not> listener (ws cs) \<and> \<not> accepting (ws cs) \<and> \<not> ticking cs"
  by (rule example_ends) (simp_all add: defaultFlags_def)

section \<open>The client\<close>

definition clientConfig :: Config where
  "clientConfig = DefaultConfig\<lparr>MaxMessageSize := 1024 * 1024, PingInterval := 30 * 1000000000\<rparr>"

definition clientHeaders :: "(string \<times> string list) list" where
  "clientHeaders = [(''User-Agent'', [''WebSocket-Client/1.0'']), (''Origin'', [''http://localhost:3000''])]"

text \<open>The handlers; all but the first only print. They replace the default ones, which would answer pings and closes.\<close>

definition clientGreet :: "(byte list \<Rightarrow> byte list) \<Rightarrow> 'a conn_scheme \<Rightarrow> 'a conn_scheme" where
  "clientGreet deflate c =
     snd (WritePing deflate (bytes_of ''ping data'')
       (snd (WriteBinary deflate [1, 2, 3, 4] (snd (WriteText deflate ''Hello from client!'' c)))))"

definition clientHandlers ::
  "(byte list \<Rightarrow> byte list) \<Rightarrow> 'a conn_scheme handlers \<Rightarrow> 'a conn_scheme handlers" where
  "clientHandlers deflate h =
     OnPong (\<lambda>data c. c) (OnPing (\<lambda>data c. c) (OnError (\<lambda>err c. c) (OnClose (\<lambda>code reason c. c)
       (OnMessage (\<lambda>messageType data c. c) (OnOpen (clientGreet deflate) h)))))"

definition clientText :: "nat \<Rightarrow> string" where
  "clientText counter = ''Message '' @ natText counter @ '' from client''"

text \<open>The goroutine behind the ticker, for the first \<open>n\<close> ticks: the error that ended it, if any.\<close>

fun clientTicks ::
  "(byte list \<Rightarrow> byte list) \<Rightarrow> nat \<Rightarrow> nat \<Rightarrow> 'a conn_scheme \<Rightarrow> ws_error option \<times> 'a conn_scheme" where
  "clientTicks deflate 0 counter c = (None, c)"
| "clientTicks deflate (Suc n) counter c =
     (case WriteText deflate (clientText (counter + 1)) c of
        (Some err, c') \<Rightarrow> (Some err, c')
      | (None, c') \<Rightarrow> clientTicks deflate n (counter + 1) c')"

text \<open>The program: what it leaves of its connection after \<open>n\<close> ticks. The loop that reads runs beside it.\<close>

definition clientMain ::
  "(string \<Rightarrow> string + URL) \<Rightarrow> (bool \<Rightarrow> string \<Rightarrow> io_error + (string \<Rightarrow> string)) \<Rightarrow> io_error option \<Rightarrow> (nat \<Rightarrow> byte) \<Rightarrow>
   (byte list \<Rightarrow> byte list) \<Rightarrow> nat \<Rightarrow> ws_error + conn" where
  "clientMain urlParse dial wr random deflate n =
     (case WsClient.Connect urlParse dial wr random ''ws://localhost:8080'' clientHeaders (NewClient (Some clientConfig)) of
        (Inl err, _, _) \<Rightarrow> Inl err
      | (Inr c, _, _) \<Rightarrow> Inr (snd (WsConn.Close deflate (snd (clientTicks deflate n 0 c)))))"

text \<open>Reading several messages, one after the other.\<close>

fun readMessages :: "'a conn_scheme \<Rightarrow> nat \<Rightarrow> breader \<Rightarrow> (ws_error + MessageType \<times> byte list) list" where
  "readMessages p 0 r = []"
| "readMessages p (Suc n) r = (case ReadMessage p r of (res, r') \<Rightarrow> res # readMessages p n r')"

lemma write_text:
  assumes "peers c p" and "plain_writer c" and "\<not> closed c" and "\<not> closed p"
    and "int (length t) \<le> MaxFrameSize (config p)" and "int (length t) \<le> MaxMessageSize (config p)" and "length t < 2 ^ 63"
  shows "\<exists>r' bs. WriteText deflate t c = (None, c\<lparr>sent := sent c @ bs, conn.rnd := r'\<rparr>) \<and>
    (\<forall>rest e. ReadMessage p \<lparr>rbytes = bs @ rest, rerr = e\<rparr> = (Inr (TextMessage, bytes_of t), \<lparr>rbytes = rest, rerr = e\<rparr>))"
proof -
  let ?f = "dataFrame c True (word_of_int TextMessage) (bytes_of t)"
  obtain key r' where key: "length key = 4" and w: "writeFrame deflate ?f c = (None, c\<lparr>sent := sent c @ frame_wire ?f key, conn.rnd := r'\<rparr>)"
    using write_dataFrame [OF assms(2)] by blast
  have len: "length (bytes_of t) = length t" by (simp add: bytes_of_def)
  have "readMessageLoop p 0 [] \<lparr>rbytes = keyed_wire (fragFrames c (word_of_int TextMessage) [bytes_of t]) [key] @ rest, rerr = e\<rparr> =
    (Inr (TextMessage, [] @ concat [bytes_of t]), \<lparr>rbytes = rest, rerr = e\<rparr>)" for rest e
    by (rule readMessageLoop_fragments) (use assms key len in \<open>auto simp: keys_for_def message_type_defs opcode_defs\<close>)
  with w assms(3,4) show ?thesis
    by (intro exI [of _ r'] exI [of _ "frame_wire ?f key"]) (simp add: WriteText_def WriteMessage_def ReadMessage_def)
qed

text \<open>
  As long as the connection takes them, the texts of the ticks arrive: after \<open>n\<close> ticks the other side reads exactly the
  messages numbered from 1 to \<open>n\<close>, in this order.
\<close>

theorem ticks_arrive:
  assumes "peers c p" and "plain_writer c" and "\<not> closed c" and "\<not> closed p"
    and "\<And>i. i \<le> k + n \<Longrightarrow> int (length (clientText i)) \<le> min (2 ^ 62) (min (MaxFrameSize (config p)) (MaxMessageSize (config p)))"
  shows "\<exists>c' bs. clientTicks deflate n k c = (None, c') \<and> sent c' = sent c @ bs \<and>
    (\<forall>rest e. readMessages p n \<lparr>rbytes = bs @ rest, rerr = e\<rparr> =
       map (\<lambda>i. Inr (TextMessage, bytes_of (clientText i))) [k + 1..<k + n + 1])"
  using assms
proof (induction n arbitrary: c k)
  case (Suc n)
  have "int (length (clientText (k + 1))) \<le> min (2 ^ 62) (min (MaxFrameSize (config p)) (MaxMessageSize (config p)))"
    using Suc.prems(5) by simp
  then obtain r' bs where w: "WriteText deflate (clientText (k + 1)) c = (None, c\<lparr>sent := sent c @ bs, conn.rnd := r'\<rparr>)"
    and r: "\<And>rest e. ReadMessage p \<lparr>rbytes = bs @ rest, rerr = e\<rparr> =
      (Inr (TextMessage, bytes_of (clientText (k + 1))), \<lparr>rbytes = rest, rerr = e\<rparr>)"
    using write_text [OF Suc.prems(1-4), of "clientText (k + 1)" deflate] by fastforce
  let ?c = "c\<lparr>sent := sent c @ bs, conn.rnd := r'\<rparr>"
  have "peers ?c p" "plain_writer ?c" "\<not> closed ?c" using Suc.prems(1-3) by (auto simp: peers_def plain_writer_def)
  moreover have "int (length (clientText i)) \<le> min (2 ^ 62) (min (MaxFrameSize (config p)) (MaxMessageSize (config p)))"
    if "i \<le> k + 1 + n" for i using Suc.prems(5) [of i] that by simp
  ultimately obtain c' bs' where "clientTicks deflate n (k + 1) ?c = (None, c')" "sent c' = sent ?c @ bs'"
    "\<And>rest e. readMessages p n \<lparr>rbytes = bs' @ rest, rerr = e\<rparr> =
       map (\<lambda>i. Inr (TextMessage, bytes_of (clientText i))) [k + 1 + 1..<k + 1 + n + 1]"
    using Suc.IH [of ?c "k + 1"] Suc.prems(4) by blast
  moreover have "[k + 1..<k + Suc n + 1] = (k + 1) # [k + 1 + 1..<k + 1 + n + 1]"
    by (simp add: upt_conv_Cons del: upt_Suc)
  ultimately show ?case
    using w r by (intro exI [of _ c'] exI [of _ "bs @ bs'"]) (simp del: upt_Suc)
qed simp

lemma loop_without_input:
  assumes "onError h = Some (\<lambda>err c. c)"
  shows "fst (messageLoop quiet h c \<lparr>rbytes = [], rerr = e\<rparr>) = c"
proof -
  obtain res r' where res: "ReadMessage c \<lparr>rbytes = [], rerr = e\<rparr> = (res, r')" by fastforce
  then obtain err where "res = Inl err" using ReadMessage_shrinks [of c "\<lparr>rbytes = [], rerr = e\<rparr>"] by (cases res) auto
  with res assms show ?thesis
    by (subst messageLoop.simps) (simp add: quiet_def opt_call_def Let_def)
qed

lemma sent_frame [simp]: "sent (cleanup c) = sent c" "sent (startKeepAlive c) = sent c"
  by (simp_all add: cleanup_def startKeepAlive_def)

text \<open>
  What its handlers cost the client. It answers neither pings nor closes of the server, which the default handlers do. And
  the greeting depends on a race: \<^verbatim>\<open>Connect\<close> has started the loop before \<^verbatim>\<open>OnOpen\<close> is called, and a loop that starts with
  the handlers of \<^verbatim>\<open>Connect\<close> sends nothing of it.
\<close>

theorem client_hooks:
  "handleControl (clientHandlers deflate h) PingMessage data c = c \<and>
   handleControl (clientHandlers deflate h) CloseMessage data c = c \<and>
   handleControl (setDefaultHandlers deflate noHandlers) PingMessage data c = snd (WritePong deflate data c) \<and>
   sent (fst (handleConnection quiet (setDefaultHandlers deflate noHandlers) c \<lparr>rbytes = [], rerr = e\<rparr>)) = sent c \<and>
   sent (fst (handleConnection quiet (clientHandlers deflate h) c \<lparr>rbytes = [], rerr = e\<rparr>)) =
     sent (clientGreet deflate (if EnablePingPong (config c) \<and> isServer c then startKeepAlive c else c))"
proof -
  note hooks = OnPong_def OnPing_def OnError_def OnClose_def OnMessage_def OnOpen_def clientHandlers_def
  have "handleControl (clientHandlers deflate h) PingMessage data c = c"
    "handleControl (clientHandlers deflate h) CloseMessage data c = c"
    "handleControl (setDefaultHandlers deflate noHandlers) PingMessage data c = snd (WritePong deflate data c)"
    by (simp_all add: handleControl_def hooks setDefaultHandlers_def opt_call_def message_type_defs split: prod.split)
  moreover have "fst (messageLoop quiet (setDefaultHandlers deflate noHandlers) c \<lparr>rbytes = [], rerr = e\<rparr>) = c"
    "fst (messageLoop quiet (clientHandlers deflate h) c \<lparr>rbytes = [], rerr = e\<rparr>) = c" for c
    by (rule loop_without_input; simp add: hooks setDefaultHandlers_def)+
  ultimately show ?thesis
    by (simp add: handleConnection_def Let_def case_prod_unfold)
      (simp add: hooks setDefaultHandlers_def noHandlers_def)
qed

end
