(* ===== verification/Spec2Isabelle.thy ===== *)
theory Spec2Isabelle
  imports Prelude GoStrings Sha1 WsTypes WsFrame WsMessage WsConn WsHandshake WsClient WsServer
    BytePool Rooms SioHub SioServer EmitHeap SioMain Json Transmission ChatTypes ChatDB ChatServer ChatHandlers
    ChatSafety ChatSession ChatReach ChatRooms ChatTyping ChatUpload ChatTyped ChatHttp ChatWeb
    ChatMembers ChatMain ChatRace Sql PgDB MemberStore PgLaws PgMessages PgOps PgChat
    Locks ChatLocks SioLocks Examples
begin

text \<open>
  \<^bold>\<open>sio: a verification library.\<close> The program is a Go library in four layers: a WebSocket
  implementation (\<^verbatim>\<open>websocket/websocket.go\<close>), a pool of byte buffers (\<^verbatim>\<open>internal/bpool\<close>), an event
  server with rooms in the style of socket.io (\<^verbatim>\<open>server.go\<close>, \<^verbatim>\<open>hub.go\<close>, \<^verbatim>\<open>socket.go\<close>, \<^verbatim>\<open>adapter.go\<close>,
  \<^verbatim>\<open>adapters/transmission.go\<close>), and a chat server (\<^verbatim>\<open>chat/\<close>). The chat server runs on the WebSocket
  implementation; the event server runs on a third-party one and takes its buffers from the pool.

  \<^bold>\<open>Theories.\<close>

  \<^item> \<open>Prelude\<close>: bytes, Go maps as association lists (\<open>gomap\<close>), \<open>perm_fn\<close> for the order of a \<^verbatim>\<open>range\<close>,
    big-endian numbers; the collections \<open>gomap_simps\<close> and \<open>bytes_simps\<close>. \<open>GoStrings\<close>: what is used of
    \<^verbatim>\<open>strings\<close> and \<^verbatim>\<open>encoding/base64\<close>. \<open>Sha1\<close>: \<^verbatim>\<open>crypto/sha1\<close>. \<open>Json\<close>: values, and how \<^verbatim>\<open>Unmarshal\<close> fills a
    struct or an \<^verbatim>\<open>interface{}\<close>.
  \<^item> \<open>WsTypes\<close>: constants, \<^verbatim>\<open>Frame\<close>, \<^verbatim>\<open>Config\<close>, \<^verbatim>\<open>Conn\<close> and its errors. \<open>WsFrame\<close>: \<^verbatim>\<open>maskBytes\<close>,
    \<^verbatim>\<open>writeFrame\<close>, \<^verbatim>\<open>readFrame\<close>. \<open>WsMessage\<close>: \<^verbatim>\<open>ReadMessage\<close>, \<^verbatim>\<open>WriteMessage\<close>, \<^verbatim>\<open>WriteFragmented\<close> and the locale
    \<open>frame_channel\<close> between frames and messages. \<open>WsConn\<close>: \<^verbatim>\<open>close\<close>, the handlers,
    \<^verbatim>\<open>handleConnection\<close>, \<^verbatim>\<open>On\<close>/\<^verbatim>\<open>Emit\<close>, the keep-alive goroutine as a step relation. \<open>WsHandshake\<close>: both sides
    of the opening handshake, down to the text on the wire. \<open>WsClient\<close>: \<^verbatim>\<open>Connect\<close>. \<open>WsServer\<close>: rooms and
    broadcasts, \<^verbatim>\<open>Listen\<close>, \<^verbatim>\<open>Stop\<close>, the life of an accepted connection.
  \<^item> \<open>BytePool\<close>: \<^verbatim>\<open>bytebuffer.go\<close> and \<^verbatim>\<open>pool.go\<close>, with the calibration and its rounding.
  \<^item> \<open>Rooms\<close>: the locale \<open>room_registry\<close>, the contract of a table of rooms. It is interpreted on plain
    tables, on the rooms of the WebSocket server, on those of the hub, and on sets of memberships.
  \<^item> \<open>SioHub\<close>: the hub's \<^verbatim>\<open>listen\<close> as a step per request, sockets, \<^verbatim>\<open>Join\<close>, \<^verbatim>\<open>Leave\<close>, \<^verbatim>\<open>Close\<close>, and the
    reachable states \<open>sio_reach\<close>. \<open>SioServer\<close>: event registry, receiving loop, the casts,
    \<^verbatim>\<open>Shutdown\<close>. \<open>EmitHeap\<close>: \<^verbatim>\<open>emitData\<close> on a heap of pooled buffers. \<open>SioMain\<close>: \<^verbatim>\<open>New\<close> and its configuration,
    \<^verbatim>\<open>Handle\<close>, the lists of sockets, pings. \<open>Transmission\<close>: the envelope in
    which events travel between servers.
  \<^item> \<open>ChatTypes\<close>: message types, payloads, clients, rooms, rows. \<open>ChatDB\<close>: the \<^verbatim>\<open>Database\<close> interface as a record,
    \<^verbatim>\<open>InMemoryDB\<close>, the locale \<open>membership_db\<close>. \<open>ChatServer\<close>: state, writing, permissions, rate limit,
    validation. \<open>ChatHandlers\<close>: the fifteen handlers and \<^verbatim>\<open>handleMessage\<close>. \<open>ChatSession\<close>: connections,
    uploads, ticks, rooms made by the server. \<open>ChatHttp\<close>: \<^verbatim>\<open>http.go\<close>, routes, CORS.
    \<open>ChatSafety\<close>, \<open>ChatReach\<close>, \<open>ChatMembers\<close>, \<open>ChatRooms\<close>, \<open>ChatTyping\<close>, \<open>ChatUpload\<close>, \<open>ChatTyped\<close>, \<open>ChatWeb\<close>: the
    theorems about them; \<open>ChatReach\<close> has the steps \<open>serve_step\<close> and the reachable states \<open>chat_reach\<close>, \<open>ChatMembers\<close> the
    abstract machine of memberships. \<open>ChatMain\<close>: \<^verbatim>\<open>NewServer\<close>, \<^verbatim>\<open>Start\<close> and \<^verbatim>\<open>Stop\<close> on \<open>WsServer\<close>, and a connection from its
    handshake to its session. \<open>ChatRace\<close>: joins and leaves of several clients, interleaved, on a heap of rooms.
  \<^item> \<open>Sql\<close>: the statements \<^verbatim>\<open>chat/database.go\<close> is written in and what they mean on tables with keys and references; \<open>obeys\<close>,
    which says that a driver does that, and \<open>reference\<close>, an executable driver that does. \<open>PgDB\<close>: \<^verbatim>\<open>PostgreSQLDB\<close>, schema,
    arguments, results and every method, for any driver. \<open>MemberStore\<close>: the locale \<open>member_store\<close>, rooms and members of either
    database as a refinement of two sets. \<open>PgLaws\<close>: the invariant of the tables and the interpretation of the locale.
    \<open>PgMessages\<close>, \<open>PgOps\<close>, \<open>PgChat\<close>: messages and histories, all writing operations, the chat server on PostgreSQL.
  \<^item> \<open>Locks\<close>: goroutines as lists of operations (lock, unlock, access, a request to goroutine 0) under any schedule, the order of the
    locks that excludes deadlock, the guarding that excludes races; the locales \<open>lock_order\<close>, \<open>lock_guards\<close>, \<open>lock_owners\<close> and
    \<open>lock_discipline\<close>. \<open>ChatLocks\<close>: every goroutine of the chat server and of the connections and rooms below it. \<open>SioLocks\<close>: sockets,
    handlers and the hub of the event server. Both interpret the locales. The choices a goroutine makes (branches, how often a loop runs, what a
    lookup finds) are arguments of its program, and the theorems hold for all of them.
  \<^item> \<open>Examples\<close>: the programs of \<^verbatim>\<open>examples/\<close>, a chat server with its flags and a WebSocket client.

  \<^bold>\<open>State and errors.\<close> A struct is a record, a Go map an association list without repeated keys, objects
  shared by pointers live in a store (\<open>store\<close>, \<open>cstore\<close>, the arrays of \<open>EmitHeap\<close>). An operation
  maps the state to the new one. A returned error is \<open>Inl\<close> or \<open>None\<close>, a panic a constructor of its
  own. No definition takes fuel: loops that read end because the bytes to be read become fewer (\<open>readMessageLoop\<close>,
  \<open>messageLoop\<close>), and \<open>writeFragmentLoop\<close>, which may run for ever, is a partial function whose \<^const>\<open>None\<close> is just
  that; \<open>WriteFragmented_returns\<close> says exactly when that is. Goroutines that wait take a script of what
  they receive (\<open>recvLoop\<close>, \<open>Ping\<close>). The theorems about reading need no other bound than those the code
  checks or the wire implies (a payload shorter than \<open>2 ^ 63\<close> bytes). Bytes, masking keys, SHA-1 and frame lengths are words; counters of the
  pool, times (nanoseconds) and lengths are \<open>int\<close> or \<open>nat\<close>, with the conversions that wrap
  written out.

  \<^bold>\<open>Parameters.\<close> What the code does not contain is an argument: the order of a \<^verbatim>\<open>range\<close> over a map (\<open>ord\<close>, any
  permutation), the clock and random bytes of a call, the deflate writer, parsing and
  printing of JSON text, what \<^verbatim>\<open>sync.Pool\<close> hands out, errors of writing and closing, the answer of
  Redis, the \<^verbatim>\<open>Database\<close>, callbacks of the user. For \<^verbatim>\<open>PostgreSQLDB\<close> it is the driver: a statement either takes effect as
  SQL says or is refused and changes nothing, a query gives the rows that match in some order that its \<^verbatim>\<open>ORDER BY\<close>
  allows. How a server rounds times and decimals and prints JSON is its \<open>dialect\<close>, also a parameter. Concurrent
  transactions are not modelled, nor are lost connections where \<open>obeys\<close> is assumed; \<open>answers_complete_or_error\<close> holds for any driver.

  \<^bold>\<open>What is shown.\<close>

  \<^item> Frames and messages are read back as written, whatever is accepted is well formed,
    and three ways in which the code departs from RFC 6455 are proved (a length with the top bit set,
    control frames between fragments, an unchecked fragment size).
  \<^item> A connection is closed once; the message loop is a fold of a dispatcher; the closing handshake ends
    it; the keep-alive goroutine can leak. The two sides of the opening handshake accept each
    other; the server upgrades nothing else.
  \<^item> The rooms of sockets and hub agree in every reachable state, casts reach exactly the members, once; closing
    leaves no trace, except in two cases that are proved. \<^verbatim>\<open>emitData\<close> uses its buffer after
    giving it back.
  \<^item> The pool's size classes are the least that fit, its calibration covers the percentile.
  \<^item> The chat server does not let a client forge its name or reach rooms it is not in, joining needs the
    permission, a message is saved, broadcast once to each member and acknowledged, a disconnect leaves no trace,
    who is in a room follows from the granted requests alone, all that is sent is well typed, the rate limit
    holds, typing indicators expire, uploads stay in their directory. Joins and leaves that interleave
    never lose a client of a public room that exists, but can lose one of a room that comes and goes; alone,
    their steps refine the handlers. Where a guarantee fails (conversations, binary uploads, the REST
    interface, sessions, identities) the failure is proved.
  \<^item> The goroutines of the chat server, and those of the event server, cannot deadlock. Exactly the variables with a lock are
    free of races; the clients of a room during a broadcast, the rooms of a client, the writer of a connection and the hub's lists are not.
  \<^item> \<^verbatim>\<open>PostgreSQLDB\<close> keeps its tables valid, reads back what it saved (but for the address of an upload), gives histories newest
    first, reports every error, and agrees with \<^verbatim>\<open>InMemoryDB\<close> on rooms and members. The server can be restarted on it, but
    cannot store messages of public rooms that clients make by joining them.
\<close>

text \<open>
  \<^bold>\<open>Not modelled.\<close> \<^verbatim>\<open>adapters/redis.go\<close> is commented out as a whole.
  Listening, dialling, TLS, delivery of signals, logging, and the third-party WebSocket
  package behind \<^verbatim>\<open>socket.go\<close> belong to libraries. What handlers of the chat server do to each other's data is modelled for joins and leaves (\<open>ChatRace\<close>)
  and as to locks and races for all (\<open>ChatLocks\<close>); in the functional model they run one after the other. Writing to a
  connection is taken to return: a client that stops reading can hold up whoever writes to it, up to the write deadline. In
  \<open>SioLocks\<close> handlers of events are any lists of calls of the library, but for \<^verbatim>\<open>Lock\<close> and \<^verbatim>\<open>Unlock\<close> of the server, which leave
  its lock with the user. Strings are
  taken to be valid UTF-8. \<^verbatim>\<open>upgradeConnection\<close> of \<^verbatim>\<open>chat/http.go\<close>, which nothing calls, always fails.

  \<^bold>\<open>Observed while modelling, not stated as theorems.\<close> The writer deflates the first fragment of a message when
  compression was negotiated, and the reader never inflates; control payloads longer than 125 bytes are
  written and accepted; the client never checks the subprotocol the server chose. The chat server replaces the default close handler, so no close frame is
  echoed. Binary messages pass neither the rate limit nor the size limit of uploads. A message id chosen by a
  client overwrites a stored message with that id (in memory; PostgreSQL refuses). The room of a conversation is created before the
  permission is checked, and a denied join leaves an empty room in memory. Deleting a room leaves it in
  memory and in the lists of its users. \<^verbatim>\<open>MaxRoomsPerUser\<close> and \<^verbatim>\<open>RateLimitPerRoom\<close> are not enforced anywhere.
\<close>

end
